(* ===== verification/Kestral_Prelude.thy ===== *)
theory Kestral_Prelude
  imports Main "HOL-Library.Char_ord" "HOL-Library.List_Lexorder" "HOL-Library.Word"
begin

text \<open>
  Shared vocabulary of the development: Rust's \<open>Result\<close> with the \<open>?\<close> operator, loops that
  stop at the first error, operations on a mutable state that may fail after having changed
  it, first-match removal from a vector, and the string functions of the standard library the
  kernel uses. The collections \<open>result_simps\<close>, \<open>wp_simps\<close> and \<open>inv_intros\<close> carry the component
  proofs.
\<close>

named_theorems result_simps \<open>unfolding of result and state-passing combinators\<close>
named_theorems wp_simps \<open>weakest preconditions of the combinators\<close>
named_theorems inv_intros \<open>preservation of component invariants\<close>

type_synonym u64 = "64 word"

section \<open>Results and the early return of the question mark\<close>

datatype ('a, 'e) result = Ok 'a | Err 'e

fun is_ok :: "('a, 'e) result \<Rightarrow> bool" where
  "is_ok (Ok _) = True"
| "is_ok (Err _) = False"

fun bind_r :: "('a, 'e) result \<Rightarrow> ('a \<Rightarrow> ('b, 'e) result) \<Rightarrow> ('b, 'e) result" where
  "bind_r (Ok a) f = f a"
| "bind_r (Err e) f = Err e"

fun map_err :: "('e \<Rightarrow> 'd) \<Rightarrow> ('a, 'e) result \<Rightarrow> ('a, 'd) result" where
  "map_err g (Ok a) = Ok a"
| "map_err g (Err e) = Err (g e)"

fun map_ok :: "('a \<Rightarrow> 'b) \<Rightarrow> ('a, 'e) result \<Rightarrow> ('b, 'e) result" where
  "map_ok g (Ok a) = Ok (g a)"
| "map_ok g (Err e) = Err e"

fun ok_or :: "'e \<Rightarrow> 'a option \<Rightarrow> ('a, 'e) result" where
  "ok_or e None = Err e"
| "ok_or e (Some a) = Ok a"

definition require :: "bool \<Rightarrow> 'e \<Rightarrow> (unit, 'e) result" where
  "require b e = (if b then Ok () else Err e)"

lemma bind_r_Ok_iff [result_simps]: "bind_r m f = Ok b \<longleftrightarrow> (\<exists>a. m = Ok a \<and> f a = Ok b)"
  by (cases m) auto

lemma bind_r_Err_iff [result_simps]:
  "bind_r m f = Err e \<longleftrightarrow> m = Err e \<or> (\<exists>a. m = Ok a \<and> f a = Err e)"
  by (cases m) auto

lemma bind_r_right [simp]: "bind_r m Ok = m"
  by (cases m) auto

lemma require_Ok_iff [simp]: "require b e = Ok u \<longleftrightarrow> b"
  by (simp add: require_def)

lemma require_Err_iff [simp]: "require b e = Err e' \<longleftrightarrow> \<not> b \<and> e' = e"
  by (auto simp: require_def)

lemma require_simps [simp]: "require True e = Ok ()" "require False e = Err e"
  by (simp_all add: require_def)

lemma map_ok_Ok_iff [simp]: "map_ok g m = Ok b \<longleftrightarrow> (\<exists>a. m = Ok a \<and> b = g a)"
  by (cases m) auto

lemma map_ok_Err_iff [simp]: "map_ok g m = Err e \<longleftrightarrow> m = Err e"
  by (cases m) auto

lemma map_err_Ok_iff [simp]: "map_err g m = Ok a \<longleftrightarrow> m = Ok a"
  by (cases m) auto

lemma map_err_Err_iff [simp]: "map_err g m = Err d \<longleftrightarrow> (\<exists>e. m = Err e \<and> d = g e)"
  by (cases m) auto

lemma ok_or_Ok_iff [simp]: "ok_or e x = Ok a \<longleftrightarrow> x = Some a"
  by (cases x) auto

lemma ok_or_Err_iff [simp]: "ok_or e x = Err d \<longleftrightarrow> x = None \<and> d = e"
  by (cases x) auto

lemma not_ok_iff: "\<not> is_ok r \<longleftrightarrow> (\<exists>e. r = Err e)"
  by (cases r) auto

lemma is_ok_iff: "is_ok r \<longleftrightarrow> (\<exists>a. r = Ok a)"
  by (cases r) auto

section \<open>Loops that stop at the first error\<close>

text \<open>\<open>for x in xs { check(x)?; }\<close>\<close>

fun for_each :: "('a \<Rightarrow> (unit, 'e) result) \<Rightarrow> 'a list \<Rightarrow> (unit, 'e) result" where
  "for_each f [] = Ok ()"
| "for_each f (x # xs) = bind_r (f x) (\<lambda>_. for_each f xs)"

text \<open>\<open>xs.iter().map(f).collect::<Result<Vec<_>, _>>()\<close>\<close>

fun try_map :: "('a \<Rightarrow> ('b, 'e) result) \<Rightarrow> 'a list \<Rightarrow> ('b list, 'e) result" where
  "try_map f [] = Ok []"
| "try_map f (x # xs) = bind_r (f x) (\<lambda>y. bind_r (try_map f xs) (\<lambda>ys. Ok (y # ys)))"

text \<open>\<open>for x in xs { acc = step(acc, x)?; }\<close>\<close>

fun try_fold :: "('s \<Rightarrow> 'a \<Rightarrow> ('s, 'e) result) \<Rightarrow> 's \<Rightarrow> 'a list \<Rightarrow> ('s, 'e) result" where
  "try_fold f s [] = Ok s"
| "try_fold f s (x # xs) = bind_r (f s x) (\<lambda>s'. try_fold f s' xs)"

lemma for_each_Ok_iff [simp]: "for_each f xs = Ok u \<longleftrightarrow> (\<forall>x\<in>set xs. f x = Ok ())"
  by (induction xs) (auto simp: bind_r_Ok_iff)

lemma for_each_ErrD:
  "for_each f xs = Err e \<Longrightarrow>
     \<exists>ys x zs. xs = ys @ x # zs \<and> (\<forall>y\<in>set ys. f y = Ok ()) \<and> f x = Err e"
proof (induction xs)
  case (Cons a as)
  show ?case
  proof (cases "f a")
    case (Ok u)
    with Cons obtain ys x zs where "as = ys @ x # zs" "\<forall>y\<in>set ys. f y = Ok ()" "f x = Err e"
      by auto
    with Ok show ?thesis
      by (intro exI[of _ "a # ys"] exI[of _ x] exI[of _ zs]) auto
  next
    case (Err d)
    with Cons.prems show ?thesis
      by (intro exI[of _ "[]"] exI[of _ a] exI[of _ as]) auto
  qed
qed simp

lemma for_each_append:
  "for_each f (xs @ ys) = bind_r (for_each f xs) (\<lambda>_. for_each f ys)"
proof (induction xs)
  case (Cons a as)
  then show ?case by (cases "f a") auto
qed simp

lemma for_each_cong [fundef_cong]:
  "xs = ys \<Longrightarrow> (\<And>x. x \<in> set ys \<Longrightarrow> f x = g x) \<Longrightarrow> for_each f xs = for_each g ys"
  by (induction xs arbitrary: ys) (auto)

lemma try_map_Ok_iff:
  "try_map f xs = Ok ys \<longleftrightarrow> length ys = length xs \<and> (\<forall>i<length xs. f (xs ! i) = Ok (ys ! i))"
proof (induction xs arbitrary: ys)
  case (Cons a as)
  show ?case
    by (cases ys) (auto simp: bind_r_Ok_iff Cons.IH nth_Cons split: nat.splits)
qed auto

lemma try_map_total:
  assumes "\<And>x. x \<in> set xs \<Longrightarrow> f x = Ok (g x)"
  shows "try_map f xs = Ok (map g xs)"
  using assms by (induction xs) auto

lemma try_map_is_ok: "(\<exists>ys. try_map f xs = Ok ys) \<longleftrightarrow> (\<forall>x\<in>set xs. is_ok (f x))"
  by (induction xs) (auto simp: bind_r_Ok_iff is_ok_iff)

lemma try_fold_append:
  "try_fold f s (xs @ ys) = bind_r (try_fold f s xs) (\<lambda>s'. try_fold f s' ys)"
proof (induction xs arbitrary: s)
  case (Cons a as)
  then show ?case by (cases "f s a") auto
qed simp

lemma try_fold_snoc:
  "try_fold f s (xs @ [x]) = bind_r (try_fold f s xs) (\<lambda>s'. f s' x)"
  by (cases "try_fold f s xs") (simp_all add: try_fold_append)

lemma try_fold_invariant:
  assumes "try_fold f s xs = Ok s'" and "P s"
    and "\<And>s x t. P s \<Longrightarrow> x \<in> set xs \<Longrightarrow> f s x = Ok t \<Longrightarrow> P t"
  shows "P s'"
  using assms
proof (induction xs arbitrary: s)
  case (Cons a as)
  from Cons.prems(1) obtain t where t: "f s a = Ok t" "try_fold f t as = Ok s'"
    by (auto simp: bind_r_Ok_iff)
  have "P t" using Cons.prems(3)[OF Cons.prems(2) _ t(1)] by simp
  with t(2) show ?case
  proof (rule Cons.IH)
    fix s x t assume "P s" "x \<in> set as" "f s x = Ok t"
    then show "P t" using Cons.prems(3)[of s x t] by simp
  qed
qed simp

section \<open>Operations on a state that may fail\<close>

text \<open>
  A method taking \<open>&mut self\<close> and returning a \<open>Result\<close>: the state is returned on the error
  path too, since Rust keeps what was written before the early return.
\<close>

type_synonym ('s, 'a, 'e) op = "'s \<Rightarrow> ('a, 'e) result \<times> 's"

definition ret :: "'a \<Rightarrow> ('s, 'a, 'e) op" where
  "ret a = (\<lambda>s. (Ok a, s))"

definition fail :: "'e \<Rightarrow> ('s, 'a, 'e) op" where
  "fail e = (\<lambda>s. (Err e, s))"

definition lift_r :: "('s \<Rightarrow> ('a, 'e) result) \<Rightarrow> ('s, 'a, 'e) op" where
  "lift_r f = (\<lambda>s. (f s, s))"

definition modify :: "('s \<Rightarrow> 's) \<Rightarrow> ('s, unit, 'e) op" where
  "modify f = (\<lambda>s. (Ok (), f s))"

definition bind_s :: "('s, 'a, 'e) op \<Rightarrow> ('a \<Rightarrow> ('s, 'b, 'e) op) \<Rightarrow> ('s, 'b, 'e) op" where
  "bind_s m f = (\<lambda>s. case m s of (Ok a, s') \<Rightarrow> f a s' | (Err e, s') \<Rightarrow> (Err e, s'))"

text \<open>\<open>if let Err(error) = m { cleanup; return Err(error) }\<close>\<close>

definition on_err :: "('s, 'a, 'e) op \<Rightarrow> ('s \<Rightarrow> 's) \<Rightarrow> ('s, 'a, 'e) op" where
  "on_err m c = (\<lambda>s. case m s of (Ok a, s') \<Rightarrow> (Ok a, s') | (Err e, s') \<Rightarrow> (Err e, c s'))"

lemma ret_apply [simp]: "ret a s = (Ok a, s)"
  by (simp add: ret_def)

lemma fail_apply [simp]: "fail e s = (Err e, s)"
  by (simp add: fail_def)

lemma lift_r_apply [simp]: "lift_r f s = (f s, s)"
  by (simp add: lift_r_def)

lemma modify_apply [simp]: "modify f s = (Ok (), f s)"
  by (simp add: modify_def)

lemma bind_s_Ok: "m s = (Ok a, s') \<Longrightarrow> bind_s m f s = f a s'"
  by (simp add: bind_s_def)

lemma bind_s_Err: "m s = (Err e, s') \<Longrightarrow> bind_s m f s = (Err e, s')"
  by (simp add: bind_s_def)

lemma bind_s_Ok_iff [result_simps]:
  "bind_s m f s = (Ok b, t) \<longleftrightarrow> (\<exists>a s'. m s = (Ok a, s') \<and> f a s' = (Ok b, t))"
  by (auto simp: bind_s_def split: prod.splits result.splits)

lemma bind_s_Err_iff [result_simps]:
  "bind_s m f s = (Err e, t) \<longleftrightarrow>
     m s = (Err e, t) \<or> (\<exists>a s'. m s = (Ok a, s') \<and> f a s' = (Err e, t))"
  by (auto simp: bind_s_def split: prod.splits result.splits)

text \<open>
  An invariant of the state that every step of a sequence keeps is kept by the sequence, on
  the error path as well.
\<close>

definition keeps :: "('s \<Rightarrow> bool) \<Rightarrow> ('s, 'a, 'e) op \<Rightarrow> bool" where
  "keeps P m \<longleftrightarrow> (\<forall>s. P s \<longrightarrow> P (snd (m s)))"

lemma keepsI [intro?]: "(\<And>s. P s \<Longrightarrow> P (snd (m s))) \<Longrightarrow> keeps P m"
  by (simp add: keeps_def)

lemma keepsD: "keeps P m \<Longrightarrow> P s \<Longrightarrow> m s = (r, s') \<Longrightarrow> P s'"
  unfolding keeps_def by (metis snd_conv)

lemma keeps_ret [simp, inv_intros]: "keeps P (ret a)"
  by (simp add: keeps_def)

lemma keeps_fail [simp, inv_intros]: "keeps P (fail e)"
  by (simp add: keeps_def)

lemma keeps_lift_r [simp, inv_intros]: "keeps P (lift_r f)"
  by (simp add: keeps_def)

lemma keeps_modify [inv_intros]: "(\<And>s. P s \<Longrightarrow> P (f s)) \<Longrightarrow> keeps P (modify f)"
  by (simp add: keeps_def)

lemma keeps_bind_s [inv_intros]:
  assumes "keeps P m" and "\<And>a. keeps P (f a)"
  shows "keeps P (bind_s m f)"
proof
  fix s assume "P s"
  obtain r s' where m: "m s = (r, s')" by force
  with assms(1) \<open>P s\<close> have "P s'" by (rule keepsD)
  with m assms(2) show "P (snd (bind_s m f s))"
    by (cases r) (simp_all add: keeps_def bind_s_def)
qed

lemma keeps_on_err [inv_intros]:
  assumes "keeps P m" and "\<And>s. P s \<Longrightarrow> P (c s)"
  shows "keeps P (on_err m c)"
proof
  fix s assume "P s"
  obtain r s' where m: "m s = (r, s')" by force
  with assms(1) \<open>P s\<close> have "P s'" by (rule keepsD)
  with m assms(2) show "P (snd (on_err m c s))"
    by (cases r) (simp_all add: on_err_def)
qed

lemma keeps_if [inv_intros]: "keeps P a \<Longrightarrow> keeps P b \<Longrightarrow> keeps P (if c then a else b)"
  by simp

text \<open>
  Weakest preconditions: what must hold before an operation so that its result and final state
  satisfy \<open>Q\<close> on success and \<open>E\<close> on failure.
\<close>

definition wp :: "('s, 'a, 'e) op \<Rightarrow> ('a \<Rightarrow> 's \<Rightarrow> bool) \<Rightarrow> ('e \<Rightarrow> 's \<Rightarrow> bool) \<Rightarrow> 's \<Rightarrow> bool" where
  "wp m Q E s = (case m s of (Ok a, t) \<Rightarrow> Q a t | (Err e, t) \<Rightarrow> E e t)"

lemma wp_ret [wp_simps]: "wp (ret a) Q E = Q a"
  by (simp add: wp_def fun_eq_iff)

lemma wp_fail [wp_simps]: "wp (fail e) Q E = E e"
  by (simp add: wp_def fun_eq_iff)

lemma wp_lift_r [wp_simps]: "wp (lift_r f) Q E = (\<lambda>s. case f s of Ok a \<Rightarrow> Q a s | Err e \<Rightarrow> E e s)"
  by (simp add: wp_def fun_eq_iff)

lemma wp_modify [wp_simps]: "wp (modify f) Q E = (\<lambda>s. Q () (f s))"
  by (simp add: wp_def fun_eq_iff)

lemma wp_bind_s [wp_simps]: "wp (bind_s m f) Q E = wp m (\<lambda>a. wp (f a) Q E) E"
  by (simp add: fun_eq_iff wp_def bind_s_def split: prod.splits result.splits)

lemma wp_on_err [wp_simps]: "wp (on_err m c) Q E = wp m Q (\<lambda>e t. E e (c t))"
  by (simp add: fun_eq_iff wp_def on_err_def split: prod.splits result.splits)

lemma wp_if [wp_simps]: "wp (if b then m else n) Q E = (\<lambda>s. if b then wp m Q E s else wp n Q E s)"
  by (simp add: fun_eq_iff)

lemma wp_mono:
  "wp m Q E s \<Longrightarrow> (\<And>a t. Q a t \<Longrightarrow> Q' a t) \<Longrightarrow> (\<And>e t. E e t \<Longrightarrow> E' e t) \<Longrightarrow> wp m Q' E' s"
  by (auto simp: wp_def split: prod.splits result.splits)

lemma wp_conj: "wp m Q E s \<Longrightarrow> wp m Q' E' s \<Longrightarrow> wp m (\<lambda>a t. Q a t \<and> Q' a t) (\<lambda>e t. E e t \<and> E' e t) s"
  by (auto simp: wp_def split: prod.splits result.splits)

lemma wpI:
  "(\<And>a t. m s = (Ok a, t) \<Longrightarrow> Q a t) \<Longrightarrow> (\<And>e t. m s = (Err e, t) \<Longrightarrow> E e t) \<Longrightarrow> wp m Q E s"
  by (auto simp: wp_def split: prod.splits result.splits)

lemma wpD_Ok: "wp m Q E s \<Longrightarrow> m s = (Ok a, t) \<Longrightarrow> Q a t"
  by (simp add: wp_def)

lemma wpD_Err: "wp m Q E s \<Longrightarrow> m s = (Err e, t) \<Longrightarrow> E e t"
  by (simp add: wp_def)

lemma keeps_wp: "keeps P m \<longleftrightarrow> (\<forall>s. P s \<longrightarrow> wp m (\<lambda>_. P) (\<lambda>_. P) s)"
proof -
  have "wp m (\<lambda>_. P) (\<lambda>_. P) s \<longleftrightarrow> P (snd (m s))" for s
    by (simp add: wp_def split: prod.splits result.splits)
  then show ?thesis by (simp add: keeps_def)
qed

section \<open>Vectors: first match and its removal\<close>

text \<open>\<open>position(p)\<close> followed by \<open>remove(index)\<close>; \<open>None\<close> when nothing matches.\<close>

fun remove_first :: "('a \<Rightarrow> bool) \<Rightarrow> 'a list \<Rightarrow> 'a list option" where
  "remove_first p [] = None"
| "remove_first p (x # xs) = (if p x then Some xs else map_option (Cons x) (remove_first p xs))"

lemma remove_first_None_iff [simp]: "remove_first p xs = None \<longleftrightarrow> (\<forall>x\<in>set xs. \<not> p x)"
  by (induction xs) auto

lemma remove_first_Some:
  "remove_first p xs = Some ys \<Longrightarrow>
     \<exists>us x vs. xs = us @ x # vs \<and> ys = us @ vs \<and> p x \<and> (\<forall>u\<in>set us. \<not> p u)"
proof (induction xs arbitrary: ys)
  case (Cons a as)
  show ?case
  proof (cases "p a")
    case True
    with Cons.prems show ?thesis by (auto intro: exI[of _ "[]"])
  next
    case False
    with Cons.prems obtain zs where zs: "remove_first p as = Some zs" "ys = a # zs" by auto
    from Cons.IH[OF zs(1)] obtain us x vs where
      "as = us @ x # vs" "zs = us @ vs" "p x" "\<forall>u\<in>set us. \<not> p u" by blast
    with False zs(2) show ?thesis
      by (intro exI[of _ "a # us"] exI[of _ x] exI[of _ vs]) auto
  qed
qed simp

lemma remove_first_eq: "remove_first (\<lambda>x. x = a) xs = (if a \<in> set xs then Some (remove1 a xs) else None)"
  by (induction xs) auto

lemma option_ext: "(\<And>v. a = Some v \<longleftrightarrow> b = Some v) \<Longrightarrow> a = b"
  by (cases a; cases b) auto

lemma find_SomeD: "List.find p xs = Some x \<Longrightarrow> x \<in> set xs \<and> p x"
  by (induction xs) (auto split: if_splits)

lemma find_Some_ex: "x \<in> set xs \<Longrightarrow> p x \<Longrightarrow> \<exists>y. List.find p xs = Some y"
  by (induction xs) auto

lemma find_None_all: "List.find p xs = None \<longleftrightarrow> (\<forall>x\<in>set xs. \<not> p x)"
  by (induction xs) auto

lemma find_mapped_sorted_hd:
  "sorted (map f xs) \<Longrightarrow> List.find p xs = Some x \<Longrightarrow> y \<in> set xs \<Longrightarrow> p y \<Longrightarrow> f x \<le> f y"
  by (induction xs) (auto split: if_splits dest: find_SomeD)

section \<open>Strings\<close>

text \<open>
  A Rust \<open>String\<close> is its UTF-8 bytes, one \<open>char\<close> each, so \<open>length\<close> is \<open>str::len\<close> and the order
  on strings (lexicographic on bytes) is that of \<open>Ord for str\<close>.
\<close>

definition is_continuation_byte :: "char \<Rightarrow> bool" where
  "is_continuation_byte c = (128 \<le> (of_char c :: nat) \<and> (of_char c :: nat) < 192)"

definition is_char_boundary :: "string \<Rightarrow> nat \<Rightarrow> bool" where
  "is_char_boundary s i =
     (i = 0 \<or> i = length s \<or> (i < length s \<and> \<not> is_continuation_byte (s ! i)))"

text \<open>
  \<open>str::trim().is_empty()\<close>: every scalar is White_Space. The ASCII members are single bytes;
  the others are listed by their UTF-8 encodings.
\<close>

fun ascii_white_space :: "char \<Rightarrow> bool" where
  "ascii_white_space c = ((of_char c :: nat) \<in> {9, 10, 11, 12, 13, 32})"

definition white_space_encodings :: "nat list list" where
  "white_space_encodings =
     [[194, 133], [194, 160], [225, 154, 128]] @
     map (\<lambda>b. [226, 128, b]) ([128, 129, 130, 131, 132, 133, 134, 135, 136, 137, 138, 168, 169, 175]) @
     [[226, 129, 159], [227, 128, 128]]"

fun blank :: "string \<Rightarrow> bool" where
  "blank [] = True"
| "blank (c # cs) =
     (if ascii_white_space c then blank cs
      else case cs of
        [] \<Rightarrow> False
      | d # ds \<Rightarrow>
          if [of_char c, of_char d] \<in> set white_space_encodings then blank ds
          else (case ds of
             [] \<Rightarrow> False
           | e # es \<Rightarrow>
               if [of_char c, of_char d, of_char e] \<in> set white_space_encodings then blank es
               else False))"

text \<open>\<open>Display for usize\<close>: decimal digits.\<close>

fun string_of_nat :: "nat \<Rightarrow> string" where
  "string_of_nat n =
     (if n < 10 then [char_of (48 + n)] else string_of_nat (n div 10) @ [char_of (48 + n mod 10)])"

declare string_of_nat.simps [simp del]

definition quoted :: "string \<Rightarrow> string" where
  "quoted s = CHR 0x27 # s @ [CHR 0x27]"

text \<open>\<open>[String]::join\<close>\<close>

fun str_join :: "string \<Rightarrow> string list \<Rightarrow> string" where
  "str_join sep [] = []"
| "str_join sep [s] = s"
| "str_join sep (s # t # ss) = s @ sep @ str_join sep (t # ss)"

end
