(* ===== verification/BTree_Map.thy ===== *)
theory BTree_Map
  imports Kestral_Prelude
begin

text \<open>
  \<open>std::collections::BTreeMap\<close> and \<open>BTreeSet\<close>, the containers of every kernel service: maps
  whose iteration visits the keys in increasing order. The abstract type is the entries in
  key order, so two maps with the same bindings are equal and \<open>bt_entries\<close> is the iterator. A
  \<open>BTreeSet<K>\<close> is a map to the unit type, as in the Rust library. The locale \<open>ordered_map\<close>
  states what the services rely on; bulk insertion and duplicate detection are proved in it
  once and reach the services through its interpretation on this type.
\<close>

definition ordered_keys :: "('k::linorder \<times> 'v) list \<Rightarrow> bool" where
  "ordered_keys xs = sorted_wrt (<) (map fst xs)"

typedef (overloaded) ('k, 'v) btree_map = "{xs :: ('k::linorder \<times> 'v) list. ordered_keys xs}"
  morphisms bt_entries Bt
  by (rule exI[of _ "[]"]) (simp add: ordered_keys_def)

setup_lifting type_definition_btree_map

lemma Bt_bt_entries [code abstype]: "Bt (bt_entries m) = m"
  by (rule bt_entries_inverse)

lemma ordered_keys_entries [simp]: "ordered_keys (bt_entries m)"
  using bt_entries by blast

lemma bt_eq_iff: "m = m' \<longleftrightarrow> bt_entries m = bt_entries m'"
  by (simp add: bt_entries_inject)

section \<open>The representation: lists ordered by key\<close>

fun ins_entry :: "'k::linorder \<Rightarrow> 'v \<Rightarrow> ('k \<times> 'v) list \<Rightarrow> ('k \<times> 'v) list" where
  "ins_entry k v [] = [(k, v)]"
| "ins_entry k v (e # es) =
     (if k = fst e then (k, v) # es else if k < fst e then (k, v) # e # es
      else e # ins_entry k v es)"

lemma ordered_keys_Cons:
  "ordered_keys (e # es) \<longleftrightarrow> (\<forall>d\<in>set es. fst e < fst d) \<and> ordered_keys es"
  by (auto simp: ordered_keys_def)

lemma ordered_keys_Nil [simp]: "ordered_keys []"
  by (simp add: ordered_keys_def)

lemma ins_entry_keys: "fst ` set (ins_entry k v es) = insert k (fst ` set es)"
  by (induction es) auto

lemma ordered_ins_entry: "ordered_keys es \<Longrightarrow> ordered_keys (ins_entry k v es)"
proof (induction es)
  case (Cons e es)
  have later: "fst e < fst d" if "d \<in> set (ins_entry k v es)" "fst e < k" for d
  proof -
    from that(1) have "fst d = k \<or> fst d \<in> fst ` set es"
      using ins_entry_keys[of k v es] by blast
    with that(2) Cons.prems show ?thesis by (auto simp: ordered_keys_Cons)
  qed
  show ?case
  proof (cases k "fst e" rule: linorder_cases)
    case less
    with Cons show ?thesis by (auto simp: ordered_keys_Cons)
  next
    case equal
    with Cons show ?thesis by (auto simp: ordered_keys_Cons)
  next
    case greater
    with Cons later show ?thesis by (auto simp: ordered_keys_Cons)
  qed
qed (simp add: ordered_keys_def)

lemma ordered_distinct: "ordered_keys es \<Longrightarrow> distinct (map fst es)"
  unfolding ordered_keys_def by (simp add: strict_sorted_iff)

lemma ordered_filter: "ordered_keys es \<Longrightarrow> ordered_keys (filter p es)"
  by (induction es) (auto simp: ordered_keys_Cons)

lemma map_of_ins_entry: "map_of (ins_entry k v es) = (map_of es)(k \<mapsto> v)"
proof (induction es)
  case (Cons e es)
  then show ?case by (cases e) (auto simp: fun_eq_iff)
qed simp

section \<open>The operations\<close>

lift_definition bt_empty :: "('k::linorder, 'v) btree_map" is "[]"
  by simp

lift_definition bt_insert :: "'k::linorder \<Rightarrow> 'v \<Rightarrow> ('k, 'v) btree_map \<Rightarrow> ('k, 'v) btree_map"
  is ins_entry
  by (rule ordered_ins_entry)

lift_definition bt_retain ::
    "('k::linorder \<Rightarrow> 'v \<Rightarrow> bool) \<Rightarrow> ('k, 'v) btree_map \<Rightarrow> ('k, 'v) btree_map"
  is "\<lambda>p es. filter (\<lambda>(k, v). p k v) es"
  by (rule ordered_filter)

lift_definition bt_map :: "('v \<Rightarrow> 'w) \<Rightarrow> ('k::linorder, 'v) btree_map \<Rightarrow> ('k, 'w) btree_map"
  is "\<lambda>f es. map (\<lambda>(k, v). (k, f v)) es"
  by (simp add: ordered_keys_def comp_def split_def)

definition bt_get :: "('k::linorder, 'v) btree_map \<Rightarrow> 'k \<Rightarrow> 'v option" where
  "bt_get m k = map_of (bt_entries m) k"

definition bt_remove :: "'k::linorder \<Rightarrow> ('k, 'v) btree_map \<Rightarrow> ('k, 'v) btree_map" where
  "bt_remove k m = bt_retain (\<lambda>k' _. k' \<noteq> k) m"

definition bt_contains :: "('k::linorder, 'v) btree_map \<Rightarrow> 'k \<Rightarrow> bool" where
  "bt_contains m k = (bt_get m k \<noteq> None)"

definition bt_keys :: "('k::linorder, 'v) btree_map \<Rightarrow> 'k list" where
  "bt_keys m = map fst (bt_entries m)"

definition bt_values :: "('k::linorder, 'v) btree_map \<Rightarrow> 'v list" where
  "bt_values m = map snd (bt_entries m)"

definition bt_insert_all :: "('k::linorder, 'v) btree_map \<Rightarrow> ('k \<times> 'v) list \<Rightarrow> ('k, 'v) btree_map" where
  "bt_insert_all m es = foldl (\<lambda>m (k, v). bt_insert k v m) m es"

definition bt_of_list :: "('k::linorder \<times> 'v) list \<Rightarrow> ('k, 'v) btree_map" where
  "bt_of_list es = bt_insert_all bt_empty es"

definition same_entry :: "'k::linorder \<times> 'v \<Rightarrow> 'k \<times> 'v \<Rightarrow> bool" where
  "same_entry e d \<longleftrightarrow> fst e \<le> fst d \<and> fst d \<le> fst e \<and> snd e = snd d"

lemma same_entries: "list_all2 same_entry es ds \<longleftrightarrow> es = ds"
  by (auto simp: same_entry_def list_all2_conv_all_nth prod_eq_iff intro!: nth_equalityI antisym)

instantiation btree_map :: (linorder, equal) equal
begin

definition equal_btree_map_def:
  "HOL.equal m m' \<longleftrightarrow> list_all2 same_entry (bt_entries m) (bt_entries m')"

instance
  by standard (simp add: equal_btree_map_def same_entries bt_eq_iff)

end

section \<open>Laws\<close>

lemma bt_entries_empty [simp]: "bt_entries bt_empty = []"
  by (rule bt_empty.rep_eq)

lemma bt_entries_insert [simp]: "bt_entries (bt_insert k v m) = ins_entry k v (bt_entries m)"
  by (rule bt_insert.rep_eq)

lemma bt_entries_retain [simp]:
  "bt_entries (bt_retain p m) = filter (\<lambda>(k, v). p k v) (bt_entries m)"
  by (rule bt_retain.rep_eq)

lemma bt_entries_remove [simp]:
  "bt_entries (bt_remove k m) = filter (\<lambda>(k', v). k' \<noteq> k) (bt_entries m)"
  by (simp add: bt_remove_def)

lemma bt_entries_map [simp]:
  "bt_entries (bt_map f m) = map (\<lambda>(k, v). (k, f v)) (bt_entries m)"
  by (rule bt_map.rep_eq)

lemma distinct_keys [simp]: "distinct (map fst (bt_entries m))"
  by (simp add: ordered_distinct)

lemma in_entries_iff: "(k, v) \<in> set (bt_entries m) \<longleftrightarrow> bt_get m k = Some v"
  by (simp add: bt_get_def)

lemma bt_get_empty [simp]: "bt_get bt_empty k = None"
  by (simp add: bt_get_def)

lemma bt_get_insert: "bt_get (bt_insert k v m) k' = (if k' = k then Some v else bt_get m k')"
  by (simp add: bt_get_def map_of_ins_entry)

lemma bt_get_insert_same [simp]: "bt_get (bt_insert k v m) k = Some v"
  by (simp add: bt_get_insert)

lemma bt_get_insert_other [simp]: "k' \<noteq> k \<Longrightarrow> bt_get (bt_insert k v m) k' = bt_get m k'"
  by (simp add: bt_get_insert)

lemma bt_get_retain:
  "bt_get (bt_retain p m) k = (case bt_get m k of None \<Rightarrow> None | Some v \<Rightarrow> if p k v then Some v else None)"
proof -
  have eq: "bt_get (bt_retain p m) k = Some v \<longleftrightarrow> bt_get m k = Some v \<and> p k v" for v
    by (simp flip: in_entries_iff)
  show ?thesis
  proof (cases "bt_get (bt_retain p m) k")
    case None
    then show ?thesis using eq by (auto split: option.splits)
  next
    case (Some v)
    with eq[of v] show ?thesis by simp
  qed
qed

lemma bt_get_retain_Some [simp]: "bt_get (bt_retain p m) k = Some v \<longleftrightarrow> bt_get m k = Some v \<and> p k v"
  by (auto simp: bt_get_retain split: option.splits)

lemma bt_get_remove: "bt_get (bt_remove k m) k' = (if k' = k then None else bt_get m k')"
  by (auto simp: bt_remove_def bt_get_retain split: option.splits)

lemma bt_get_remove_same [simp]: "bt_get (bt_remove k m) k = None"
  by (simp add: bt_get_remove)

lemma bt_get_remove_other [simp]: "k' \<noteq> k \<Longrightarrow> bt_get (bt_remove k m) k' = bt_get m k'"
  by (simp add: bt_get_remove)

lemma bt_get_map [simp]: "bt_get (bt_map f m) k = map_option f (bt_get m k)"
  by (simp add: bt_get_def map_of_map)

lemma bt_contains_iff: "bt_contains m k \<longleftrightarrow> (\<exists>v. bt_get m k = Some v)"
  by (auto simp: bt_contains_def)

lemma bt_contains_empty [simp]: "\<not> bt_contains bt_empty k"
  by (simp add: bt_contains_def)

lemma bt_contains_insert [simp]: "bt_contains (bt_insert k v m) k' \<longleftrightarrow> k' = k \<or> bt_contains m k'"
  by (auto simp: bt_contains_def bt_get_insert)

lemma bt_contains_remove [simp]: "bt_contains (bt_remove k m) k' \<longleftrightarrow> k' \<noteq> k \<and> bt_contains m k'"
  by (auto simp: bt_contains_def bt_get_remove)

lemma in_keys_iff [simp]: "k \<in> set (bt_keys m) \<longleftrightarrow> bt_contains m k"
  by (force simp: bt_keys_def bt_contains_iff simp flip: in_entries_iff)

lemma in_values_iff: "v \<in> set (bt_values m) \<longleftrightarrow> (\<exists>k. bt_get m k = Some v)"
  by (force simp: bt_values_def simp flip: in_entries_iff)

lemma distinct_bt_keys [simp]: "distinct (bt_keys m)"
  by (simp add: bt_keys_def)

lemma sorted_bt_keys [simp]: "sorted (bt_keys m)"
  using ordered_keys_entries[of m]
  by (simp add: bt_keys_def ordered_keys_def strict_sorted_iff)

lemma bt_entries_conv: "bt_entries m = map (\<lambda>k. (k, the (bt_get m k))) (bt_keys m)"
proof -
  have "bt_get m (fst e) = Some (snd e)" if "e \<in> set (bt_entries m)" for e
    using that by (simp flip: in_entries_iff)
  then have "map (\<lambda>e. (fst e, the (bt_get m (fst e)))) (bt_entries m) = bt_entries m"
    by (intro map_idI) simp
  then show ?thesis by (simp add: bt_keys_def comp_def)
qed

lemma bt_ext:
  assumes "\<And>k. bt_get m k = bt_get m' k"
  shows "m = m'"
proof -
  have "set (bt_keys m) = set (bt_keys m')"
    using assms by (auto simp: bt_contains_def)
  then have "bt_keys m = bt_keys m'"
    by (intro sorted_distinct_set_unique) simp_all
  with assms show ?thesis
    by (simp add: bt_eq_iff bt_entries_conv)
qed

lemma map_of_rev_unique: "distinct (map fst es) \<Longrightarrow> map_of (rev es) = map_of es"
proof (rule map_of_eqI)
  assume *: "distinct (map fst es)"
  show "set (map fst (rev es)) = set (map fst es)" by simp
  have "distinct (map fst (rev es))"
    using * by (simp add: rev_map[symmetric])
  with * show "\<forall>k\<in>set (map fst (rev es)). map_of (rev es) k = map_of es k"
    by (auto simp: map_of_eq_Some_iff map_of_is_SomeI)
qed

section \<open>The contract the services rely on\<close>

text \<open>
  What a service may assume of its map: lookups after an insertion, an iterator that visits
  each binding once and in key order, and equality of maps with the same bindings. The two
  loops every service has are proved against it: inserting a batch, and rebuilding the map
  from a durable list while rejecting invalid and duplicate elements.
\<close>

locale ordered_map =
  fixes empty :: "'m"
    and insert :: "'k::linorder \<Rightarrow> 'v \<Rightarrow> 'm \<Rightarrow> 'm"
    and lookup :: "'m \<Rightarrow> 'k \<Rightarrow> 'v option"
    and entries :: "'m \<Rightarrow> ('k \<times> 'v) list"
  assumes lookup_empty: "lookup empty k = None"
    and lookup_insert: "lookup (insert k v m) k' = (if k' = k then Some v else lookup m k')"
    and entries_lookup: "(k, v) \<in> set (entries m) \<longleftrightarrow> lookup m k = Some v"
    and entries_ordered: "sorted_wrt (<) (map fst (entries m))"
    and same_bindings: "(\<And>k. lookup m k = lookup m' k) \<Longrightarrow> m = m'"
begin

lemma entries_distinct: "distinct (map fst (entries m))"
  using entries_ordered[of m] by (simp add: strict_sorted_iff)

lemma lookup_insert_all:
  "lookup (foldl (\<lambda>m (k, v). insert k v m) m es) k =
     (case map_of (rev es) k of Some v \<Rightarrow> Some v | None \<Rightarrow> lookup m k)"
proof (induction es arbitrary: m)
  case (Cons e es)
  obtain a b where "e = (a, b)" by force
  with Cons show ?case
    by (cases "map_of (rev es) k") (auto simp: lookup_insert map_add_def)
qed simp

lemma lookup_insert_all_unique:
  assumes "distinct (map fst es)"
  shows "lookup (foldl (\<lambda>m (k, v). insert k v m) m es) k =
     (case map_of es k of Some v \<Rightarrow> Some v | None \<Rightarrow> lookup m k)"
proof -
  have "map_of (rev es) k = map_of es k"
    using assms by (simp add: map_of_rev_unique)
  then show ?thesis by (simp add: lookup_insert_all)
qed

lemma lookup_entries: "lookup m k = map_of (entries m) k"
proof (cases "lookup m k")
  case (Some v)
  then have "(k, v) \<in> set (entries m)" by (simp add: entries_lookup)
  with Some show ?thesis by (simp add: entries_distinct)
next
  case None
  then have "(k, v) \<notin> set (entries m)" for v by (simp add: entries_lookup)
  then have "map_of (entries m) k = None"
    by (force simp: map_of_eq_None_iff)
  with None show ?thesis by simp
qed

lemma rebuild: "foldl (\<lambda>m (k, v). insert k v m) empty (entries m) = m"
proof (rule same_bindings)
  fix k
  have "lookup (foldl (\<lambda>m (k, v). insert k v m) empty (entries m)) k = map_of (entries m) k"
    by (simp add: lookup_insert_all_unique entries_distinct lookup_empty split: option.splits)
  then show "lookup (foldl (\<lambda>m (k, v). insert k v m) empty (entries m)) k = lookup m k"
    by (simp only: lookup_entries)
qed

text \<open>
  The loading loop \<open>for x in xs { check(x)?; if map.insert(key(x), x).is_some() { return Err } }\<close>.
\<close>

lemma load_step_sound:
  assumes step: "\<And>m x. step m x =
      bind_r (check x) (\<lambda>_. if lookup m (key x) = None then Ok (insert (key x) x m) else Err (dup x))"
    and "try_fold step m0 xs = Ok m"
  shows "(\<forall>x\<in>set xs. check x = Ok () \<and> lookup m0 (key x) = None) \<and> distinct (map key xs) \<and>
    (\<forall>k x. lookup m k = Some x \<longleftrightarrow> lookup m0 k = Some x \<or> x \<in> set xs \<and> key x = k)"
  using assms(2)
proof (induction xs arbitrary: m0)
  case (Cons a as)
  from Cons.prems have first: "check a = Ok ()" "lookup m0 (key a) = None"
    and rest: "try_fold step (insert (key a) a m0) as = Ok m"
    by (auto simp: step[of m0 a] bind_r_Ok_iff split: if_splits)
  from Cons.IH[OF rest] have
    checked: "\<forall>x\<in>set as. check x = Ok () \<and> lookup (insert (key a) a m0) (key x) = None" and
    dist: "distinct (map key as)" and
    found: "\<And>k x. lookup m k = Some x \<longleftrightarrow>
      lookup (insert (key a) a m0) k = Some x \<or> x \<in> set as \<and> key x = k"
    by blast+
  from checked have "\<forall>x\<in>set as. key x \<noteq> key a \<and> lookup m0 (key x) = None"
    by (auto simp: lookup_insert split: if_splits)
  with first checked dist show ?case
    by (auto simp: found lookup_insert)
qed simp

lemma load_step_complete:
  assumes step: "\<And>m x. step m x =
      bind_r (check x) (\<lambda>_. if lookup m (key x) = None then Ok (insert (key x) x m) else Err (dup x))"
    and "distinct (map key xs)" and "\<forall>x\<in>set xs. check x = Ok () \<and> lookup m0 (key x) = None"
  shows "try_fold step m0 xs = Ok (foldl (\<lambda>m (k, v). insert k v m) m0 (map (\<lambda>x. (key x, x)) xs))"
  using assms(2,3)
proof (induction xs arbitrary: m0)
  case (Cons a as)
  then have "try_fold step (insert (key a) a m0) as =
      Ok (foldl (\<lambda>m (k, v). insert k v m) (insert (key a) a m0) (map (\<lambda>x. (key x, x)) as))"
    by (intro Cons.IH) (auto simp: lookup_insert image_iff)
  with Cons.prems show ?case by (simp add: step[of m0 a])
qed simp

lemma load_roundtrip:
  assumes step: "\<And>m x. step m x =
      bind_r (check x) (\<lambda>_. if lookup m (key x) = None then Ok (insert (key x) x m) else Err (dup x))"
    and keyed: "\<And>k x. lookup m k = Some x \<Longrightarrow> key x = k \<and> check x = Ok ()"
  shows "try_fold step empty (map snd (entries m)) = Ok m"
proof -
  have keyed': "key (snd e) = fst e \<and> check (snd e) = Ok ()" if "e \<in> set (entries m)" for e
  proof -
    have "(fst e, snd e) \<in> set (entries m)" using that by simp
    then show ?thesis unfolding entries_lookup by (rule keyed)
  qed
  then have pairs: "map (\<lambda>x. (key x, x)) (map snd (entries m)) = entries m"
    by (auto simp: comp_def intro!: map_idI)
  have "map key (map snd (entries m)) = map fst (entries m)"
    using keyed' by simp
  then have "distinct (map key (map snd (entries m)))"
    using entries_distinct[of m] by metis
  moreover have "\<forall>x\<in>set (map snd (entries m)). check x = Ok () \<and> lookup empty (key x) = None"
    using keyed' by (auto simp: lookup_empty)
  ultimately show ?thesis
    using load_step_complete[of step check key dup "map snd (entries m)" empty, OF step]
    by (simp only: pairs rebuild)
qed

end

interpretation btm: ordered_map bt_empty bt_insert bt_get bt_entries
proof
  show "sorted_wrt (<) (map fst (bt_entries m))" for m :: "('a, 'b) btree_map"
    using ordered_keys_entries[of m] by (simp add: ordered_keys_def)
qed (auto simp: bt_get_insert in_entries_iff intro: bt_ext)

lemma bt_get_insert_all:
  "bt_get (bt_insert_all m es) k =
     (case map_of (rev es) k of Some v \<Rightarrow> Some v | None \<Rightarrow> bt_get m k)"
  unfolding bt_insert_all_def by (rule btm.lookup_insert_all)

lemma bt_insert_all_Nil [simp]: "bt_insert_all m [] = m"
  by (simp add: bt_insert_all_def)

lemma bt_insert_all_Cons [simp]: "bt_insert_all m ((k, v) # es) = bt_insert_all (bt_insert k v m) es"
  by (simp add: bt_insert_all_def)

lemma bt_of_list_entries [simp]: "bt_of_list (bt_entries m) = m"
  unfolding bt_of_list_def bt_insert_all_def by (rule btm.rebuild)

lemma bt_get_of_list: "bt_get (bt_of_list es) k = map_of (rev es) k"
  by (simp add: bt_of_list_def bt_get_insert_all split: option.splits)

lemma bt_contains_insert_all [simp]:
  "bt_contains (bt_insert_all m es) k \<longleftrightarrow> k \<in> fst ` set es \<or> bt_contains m k"
proof -
  have "map_of (rev es) k = None \<longleftrightarrow> k \<notin> fst ` set es"
    by (simp add: map_of_eq_None_iff)
  then show ?thesis
    by (auto simp: bt_contains_def bt_get_insert_all split: option.splits)
qed

lemma map_fst_filter_entries:
  "map fst (filter (\<lambda>(k, v). p k) (bt_entries m)) = filter p (bt_keys m)"
  by (simp add: bt_keys_def filter_map comp_def split_def)

section \<open>Sets\<close>

type_synonym 'k btree_set = "('k, unit) btree_map"

abbreviation bs_elems :: "'k::linorder btree_set \<Rightarrow> 'k list" where
  "bs_elems \<equiv> bt_keys"

definition bs_insert :: "'k::linorder \<Rightarrow> 'k btree_set \<Rightarrow> 'k btree_set" where
  "bs_insert k s = bt_insert k () s"

definition bs_of_list :: "'k::linorder list \<Rightarrow> 'k btree_set" where
  "bs_of_list ks = foldl (\<lambda>s k. bs_insert k s) bt_empty ks"

lemma bs_contains_insert [simp]: "bt_contains (bs_insert k s) k' \<longleftrightarrow> k' = k \<or> bt_contains s k'"
  by (simp add: bs_insert_def)

lemma bs_contains_foldl:
  "bt_contains (foldl (\<lambda>s k. bs_insert k s) s ks) k \<longleftrightarrow> k \<in> set ks \<or> bt_contains s k"
  by (induction ks arbitrary: s) auto

lemma bs_contains_of_list [simp]: "bt_contains (bs_of_list ks) k \<longleftrightarrow> k \<in> set ks"
  by (simp add: bs_of_list_def bs_contains_foldl)

lemma bs_ext: "(\<And>k. bt_contains s k \<longleftrightarrow> bt_contains s' k) \<Longrightarrow> s = s'"
  for s :: "'k::linorder btree_set"
proof (rule bt_ext)
  fix k assume "\<And>k. bt_contains s k \<longleftrightarrow> bt_contains s' k"
  then show "bt_get s k = bt_get s' k"
    by (cases "bt_get s k"; cases "bt_get s' k") (force simp: bt_contains_def)+
qed

lemma bs_of_list_elems [simp]: "bs_of_list (bs_elems s) = s"
  by (rule bs_ext) simp

lemma bs_length_unique: "length (bs_elems (bs_of_list ks)) = length ks \<longleftrightarrow> distinct ks"
proof -
  have "set (bs_elems (bs_of_list ks)) = set ks" by auto
  then have "length (bs_elems (bs_of_list ks)) = card (set ks)"
    by (metis distinct_bt_keys distinct_card)
  then show ?thesis
    by (metis card_distinct distinct_card)
qed

lemmas bt_eval = bt_get_def bt_contains_def bt_keys_def bt_values_def bt_of_list_def
  bt_insert_all_def bs_insert_def bs_of_list_def

end
