(* ===== verification/Primitives.thy ===== *)
theory Primitives
  imports BTree_Map "HOL-Library.Product_Lexorder"
begin

text \<open>
  The five kernel primitives of \<open>crates/kernel/src/primitives/\<close> (Capability, Surface, Run,
  Artifact, Grant), the identifiers of \<open>ids.rs\<close> and the error type of \<open>errors.rs\<close>. A time is a
  number of nanoseconds since the epoch (\<open>DateTime<Utc>\<close>, without the bounds of its range); an
  identifier is its string. The types that derive \<open>Ord\<close> in the source get the derived order.
\<close>

section \<open>Identifiers and JSON\<close>

type_synonym app_id = string
type_synonym run_id = string
type_synonym artifact_id = string
type_synonym grant_id = string
type_synonym lease_id = string
type_synonym capability_name = string
type_synonym surface_name = string
type_synonym extension_point_name = string
type_synonym artifact_type_name = string
type_synonym config_name = string
type_synonym secret_name = string
type_synonym event_topic = string
type_synonym surface_instance_id = string
type_synonym resource_id = string

type_synonym datetime = int

definition nanos_per_second :: int where
  "nanos_per_second = 1000000000"

text \<open>\<open>uuid::Uuid::new_v4\<close> is outside the repository: the drawn UUID is an argument.\<close>

definition new_run_id :: "string \<Rightarrow> run_id" where
  "new_run_id uuid = ''run-'' @ uuid"

definition new_artifact_id :: "string \<Rightarrow> artifact_id" where
  "new_artifact_id uuid = ''artifact-'' @ uuid"

definition new_grant_id :: "string \<Rightarrow> grant_id" where
  "new_grant_id uuid = ''grant-'' @ uuid"

definition new_lease_id :: "string \<Rightarrow> lease_id" where
  "new_lease_id uuid = ''lease-'' @ uuid"

definition new_surface_instance_id :: "string \<Rightarrow> surface_instance_id" where
  "new_surface_instance_id uuid = ''si-'' @ uuid"

text \<open>\<open>serde_json::Value\<close>; a number is kept as its literal.\<close>

datatype json =
    JNull
  | JBool bool
  | JNumber string
  | JString string
  | JArray "json list"
  | JObject "(string \<times> json) list"

type_synonym json_object = "(string \<times> json) list"

datatype secret_ref = SecretRef (sr_owner: app_id) (sr_name: secret_name)

instantiation secret_ref :: linorder
begin

definition less_eq_secret_ref_def:
  "a \<le> b \<longleftrightarrow> (sr_owner a, sr_name a) \<le> (sr_owner b, sr_name b)"

definition less_secret_ref_def:
  "a < b \<longleftrightarrow> (sr_owner a, sr_name a) < (sr_owner b, sr_name b)"

instance
  by standard
    (auto simp: less_eq_secret_ref_def less_secret_ref_def secret_ref.expand less_le_not_le simp del: less_eq_prod_simp less_prod_simp)

end

section \<open>Capabilities\<close>

datatype capability_ref = CapabilityRef (cr_provider: app_id) (cr_capability: capability_name)

instantiation capability_ref :: linorder
begin

definition less_eq_capability_ref_def:
  "a \<le> b \<longleftrightarrow> (cr_provider a, cr_capability a) \<le> (cr_provider b, cr_capability b)"

definition less_capability_ref_def:
  "a < b \<longleftrightarrow> (cr_provider a, cr_capability a) < (cr_provider b, cr_capability b)"

instance
  by standard
    (auto simp: less_eq_capability_ref_def less_capability_ref_def capability_ref.expand less_le_not_le
      simp del: less_eq_prod_simp less_prod_simp)

end

definition qualified_name :: "capability_ref \<Rightarrow> string" where
  "qualified_name c = cr_provider c @ ''/'' @ cr_capability c"

datatype capability_effect = Unspecified | ReadOnly | LocalWrite | ExternalWrite | Destructive

record capability_declaration =
  cd_name :: capability_name
  cd_description :: string
  cd_input_schema :: json_object
  cd_effect :: capability_effect
  cd_output_schema :: "json_object option"

section \<open>Grant vocabulary\<close>

datatype grant_condition = Silent | Notify | RequiresApproval

datatype denial_reason = NoGrant | Expired | Revoked

datatype grant_status = StatusActive | StatusRevoked | StatusExpired

datatype grant_origin = ManifestRequested | UserAdded | McpExport | SystemBundled

text \<open>\<open>std::num::NonZeroU32\<close>\<close>

typedef nonzero_u32 = "{n :: 32 word. n \<noteq> 0}"
  morphisms nz_get Nz
  by (rule exI[of _ 1]) simp

setup_lifting type_definition_nonzero_u32

lift_definition nz_of_nat :: "nat \<Rightarrow> nonzero_u32" is
  "\<lambda>n. if (of_nat n :: 32 word) = 0 then 1 else of_nat n"
  by simp

instantiation nonzero_u32 :: equal
begin

lift_definition equal_nonzero_u32 :: "nonzero_u32 \<Rightarrow> nonzero_u32 \<Rightarrow> bool" is "(=)" .

instance by standard (transfer, simp)

end

lemma nz_get_positive: "0 < unat (nz_get n)"
  using nz_get[of n] by (simp add: unat_gt_0)

datatype grant_duration = NonExpiring | ExpiresAfter nonzero_u32

definition duration_nanos :: "nonzero_u32 \<Rightarrow> int" where
  "duration_nanos n = int (unat (nz_get n)) * nanos_per_second"

lemma duration_nanos_positive [simp]: "0 < duration_nanos n"
proof -
  have "0 < int (unat (nz_get n))"
    using nz_get_positive[of n] by (simp only: of_nat_0_less_iff)
  then show ?thesis
    unfolding duration_nanos_def nanos_per_second_def by (rule mult_pos_pos) simp
qed

datatype grant_scope =
    ExactCapability app_id capability_name
  | AllProviderCapabilities app_id

datatype data_scope =
    ScopeNone
  | AllResources
  | Resources "resource_id list"

fun data_scope_key :: "data_scope \<Rightarrow> nat \<times> resource_id list" where
  "data_scope_key ScopeNone = (0, [])"
| "data_scope_key AllResources = (1, [])"
| "data_scope_key (Resources ids) = (2, ids)"

lemma data_scope_key_inject [simp]: "data_scope_key a = data_scope_key b \<longleftrightarrow> a = b"
  by (cases a; cases b) auto

instantiation data_scope :: linorder
begin

definition less_eq_data_scope_def: "a \<le> b \<longleftrightarrow> data_scope_key a \<le> data_scope_key b"

definition less_data_scope_def: "a < b \<longleftrightarrow> data_scope_key a < data_scope_key b"

instance
proof
  fix a b c :: data_scope
  show "a < b \<longleftrightarrow> a \<le> b \<and> \<not> b \<le> a"
    by (simp add: less_eq_data_scope_def less_data_scope_def less_le_not_le)
  show "a \<le> a" by (simp add: less_eq_data_scope_def)
  show "a \<le> b \<Longrightarrow> b \<le> c \<Longrightarrow> a \<le> c"
    unfolding less_eq_data_scope_def by (rule order_trans)
  show "a \<le> b \<Longrightarrow> b \<le> a \<Longrightarrow> a = b"
    unfolding less_eq_data_scope_def by (metis antisym data_scope_key_inject)
  show "a \<le> b \<or> b \<le> a"
    unfolding less_eq_data_scope_def by (rule linear)
qed

end

section \<open>Errors\<close>

datatype (plugins only: size code) kernel_error =
    UnknownApp app_id
  | AppAlreadyInstalled app_id
  | ManifestContentHashMismatch app_id
  | ManifestIdentityInvalid string
  | ManifestContributionInvalid app_id string "string list"
  | ManifestSurfaceIntentInvalid app_id surface_name string
  | ManifestExtensionContributionInvalid app_id surface_name string
  | PreparedGrantGroupMismatch
  | UnknownEventTopic app_id event_topic
  | EventSubscriptionDenied app_id
  | HandlerBindingMismatch app_id "string list" "string list"
  | UndeclaredCapability app_id capability_name
  | HandlerNotBound app_id capability_name
  | UndeclaredSurface app_id surface_name
  | SurfaceNotOpen app_id surface_name
  | UndeclaredSurfaceIntent app_id surface_name capability_ref
  | UndeclaredArtifactType app_id artifact_type_name
  | UndeclaredSecret secret_name
  | UnknownSecret secret_name
  | InvalidSchema string string
  | InvalidCapabilityInput string string
  | InvalidCapabilityOutput string string
  | InvalidArtifactContent string string
  | UnknownRun run_id
  | RunAlreadyStarted run_id
  | RunAlreadyEnded run_id
  | ChildRunAttributionMismatch app_id app_id
  | UnknownArtifact artifact_id
  | UnknownLease lease_id
  | UnknownGrant grant_id
  | GrantReasonRequired
  | InvalidGrantDataScope string
  | InvalidGrantDuration
  | InvalidLeaseDuration
  | InvalidInvocationTimeout
  | PreparedInvocationStale
  | PreparedInvocationCancelled
  | PreparedInvocationConsumed
  | PreparedInvocationDenied denial_reason
  | PreparedInstallStale
  | AppUpgradeContractChanged app_id
  | Durability string

type_synonym 'a kernel_result = "('a, kernel_error) result"

section \<open>Grants\<close>

definition ds_validate :: "data_scope \<Rightarrow> unit kernel_result" where
  "ds_validate ds = (case ds of
       ScopeNone \<Rightarrow> Ok ()
     | AllResources \<Rightarrow> Ok ()
     | Resources resource_ids \<Rightarrow>
         if resource_ids = [] then
           Err (InvalidGrantDataScope ''resource scope must name at least one resource'')
         else if length (bs_elems (bs_of_list resource_ids)) \<noteq> length resource_ids then
           Err (InvalidGrantDataScope ''resource scope must not repeat resource ids'')
         else Ok ())"

definition ds_resources :: "resource_id list \<Rightarrow> data_scope kernel_result" where
  "ds_resources resource_ids =
     (let data_scope = Resources resource_ids
      in bind_r (ds_validate data_scope) (\<lambda>_. Ok data_scope))"

fun ds_covers :: "data_scope \<Rightarrow> data_scope \<Rightarrow> bool" where
  "ds_covers ScopeNone ScopeNone = True"
| "ds_covers AllResources AllResources = True"
| "ds_covers AllResources (Resources _) = True"
| "ds_covers (Resources granted) (Resources requested) = list_all (\<lambda>r. r \<in> set granted) requested"
| "ds_covers _ _ = False"

definition ds_validate_invocation :: "data_scope \<Rightarrow> unit kernel_result" where
  "ds_validate_invocation ds =
     bind_r (ds_validate ds) (\<lambda>_.
       if ds = AllResources then
         Err (InvalidGrantDataScope
           ''invocations must name exact resources; all-resources is grant-only'')
       else Ok ())"

text \<open>
  \<open>Deserialize for DataScope\<close>: the tagged wire shape is read by serde (outside the repository),
  then the scope is rebuilt and validated.
\<close>

datatype data_scope_wire = WireNone | WireAllResources | WireResources "resource_id list"

definition ds_deserialize :: "data_scope_wire \<Rightarrow> data_scope kernel_result" where
  "ds_deserialize wire =
     (let data_scope = (case wire of
          WireNone \<Rightarrow> ScopeNone
        | WireAllResources \<Rightarrow> AllResources
        | WireResources resource_ids \<Rightarrow> Resources resource_ids)
      in bind_r (ds_validate data_scope) (\<lambda>_. Ok data_scope))"

fun scope_provider :: "grant_scope \<Rightarrow> app_id" where
  "scope_provider (ExactCapability provider _) = provider"
| "scope_provider (AllProviderCapabilities provider) = provider"

fun scope_covers :: "grant_scope \<Rightarrow> capability_ref \<Rightarrow> bool" where
  "scope_covers (ExactCapability provider capability) c =
     (cr_provider c = provider \<and> cr_capability c = capability)"
| "scope_covers (AllProviderCapabilities provider) c = (cr_provider c = provider)"

record grant =
  gr_grant_id :: grant_id
  gr_holder :: app_id
  gr_scope :: grant_scope
  gr_data_scope :: data_scope
  gr_condition :: grant_condition
  gr_origin :: grant_origin
  gr_issued_at :: datetime
  gr_expires_at :: "datetime option"

definition grant_validate :: "grant \<Rightarrow> unit kernel_result" where
  "grant_validate g =
     bind_r (ds_validate (gr_data_scope g)) (\<lambda>_.
       if (case gr_expires_at g of None \<Rightarrow> False | Some expires_at \<Rightarrow> expires_at \<le> gr_issued_at g)
       then Err InvalidGrantDuration
       else Ok ())"

definition is_expired :: "grant \<Rightarrow> datetime \<Rightarrow> bool" where
  "is_expired g now = (case gr_expires_at g of None \<Rightarrow> False | Some expires_at \<Rightarrow> expires_at \<le> now)"

record grant_status_view =
  gsv_grant :: grant
  gsv_status :: grant_status

section \<open>Surfaces\<close>

datatype surface_kind = Panel | Card | Form | Picker | Dashboard

record surface_declaration =
  sd_name :: surface_name
  sd_kind :: surface_kind
  sd_title :: string
  sd_description :: string
  sd_intents :: "capability_ref list"

record action_intent =
  ai_capability :: capability_ref
  ai_input :: json_object
  ai_data_scope :: data_scope
  ai_goal :: string

section \<open>Runs\<close>

datatype initiator =
    SurfaceAction app_id surface_name
  | InitiatorApp app_id string
  | InitiatorRun app_id run_id

fun initiator_app_id :: "initiator \<Rightarrow> app_id" where
  "initiator_app_id (SurfaceAction app_id _) = app_id"
| "initiator_app_id (InitiatorApp app_id _) = app_id"
| "initiator_app_id (InitiatorRun app_id _) = app_id"

datatype run_terminal_state = RunCompleted | RunFailed | RunCancelled | RunInterrupted

record approval_record =
  ar_capability :: capability_ref
  ar_grant_id :: grant_id
  ar_approved :: bool
  ar_data_scope :: data_scope

datatype invocation_record =
    RecCompleted capability_ref grant_id data_scope
  | RecFailed capability_ref grant_id data_scope
  | RecRefused capability_ref denial_reason data_scope
  | RecCancelled capability_ref data_scope

record run_view =
  rv_run_id :: run_id
  rv_initiator :: initiator
  rv_goal :: string
  rv_grants_exercised :: "grant_id list"
  rv_invocations :: "invocation_record list"
  rv_approvals :: "approval_record list"
  rv_artifacts_produced :: "artifact_id list"
  rv_terminal_state :: "run_terminal_state option"

definition initiating_app :: "run_view \<Rightarrow> app_id" where
  "initiating_app v = initiator_app_id (rv_initiator v)"

definition is_active :: "run_view \<Rightarrow> bool" where
  "is_active v = (rv_terminal_state v = None)"

section \<open>Artifacts\<close>

record provenance =
  pv_run_id :: run_id
  pv_capability :: capability_ref
  pv_grant_id :: grant_id
  pv_produced_by :: app_id
  pv_recorded_at :: datetime

record artifact_draft =
  dr_artifact_type :: artifact_type_name
  dr_title :: string
  dr_content :: json

record artifact =
  at_artifact_id :: artifact_id
  at_artifact_type :: artifact_type_name
  at_title :: string
  at_content :: json
  at_provenance :: provenance

section \<open>Facts about scopes and grants\<close>

lemma ds_validate_Ok_iff:
  "ds_validate ds = Ok u \<longleftrightarrow> (\<forall>ids. ds = Resources ids \<longrightarrow> ids \<noteq> [] \<and> distinct ids)"
  by (cases ds) (auto simp: ds_validate_def bs_length_unique)

lemma ds_validate_simps [simp]:
  "ds_validate ScopeNone = Ok ()" "ds_validate AllResources = Ok ()"
  by (simp_all add: ds_validate_def)

lemma ds_validate_invocation_Ok_iff:
  "ds_validate_invocation ds = Ok u \<longleftrightarrow> ds_validate ds = Ok () \<and> ds \<noteq> AllResources"
  by (auto simp: ds_validate_invocation_def bind_r_Ok_iff)

lemma ds_covers_Resources:
  "ds_covers (Resources g) (Resources r) \<longleftrightarrow> set r \<subseteq> set g"
  by (auto simp: list_all_iff)

lemma ds_covers_refl [simp]: "ds_covers ds ds"
  by (cases ds) (auto simp: list_all_iff)

lemma ds_covers_trans: "ds_covers a b \<Longrightarrow> ds_covers b c \<Longrightarrow> ds_covers a c"
  by (cases a; cases b; cases c) (auto simp: list_all_iff)

lemma grant_validate_Ok_iff:
  "grant_validate g = Ok u \<longleftrightarrow>
     ds_validate (gr_data_scope g) = Ok () \<and>
     (\<forall>e. gr_expires_at g = Some e \<longrightarrow> gr_issued_at g < e)"
  by (auto simp: grant_validate_def bind_r_Ok_iff not_le split: option.splits)

lemma is_expired_mono: "is_expired g now \<Longrightarrow> now \<le> later \<Longrightarrow> is_expired g later"
  by (auto simp: is_expired_def split: option.splits)

lemma scope_covers_provider: "scope_covers s c \<Longrightarrow> scope_provider s = cr_provider c"
  by (cases s) auto

end
