(* ===== verification/Manifest.thy ===== *)
theory Manifest
  imports Primitives
begin

text \<open>
  \<open>crates/kernel/src/manifest.rs\<close> and \<open>schema.rs\<close>: the declaration of an app, its internal
  consistency, the upgrade contract, sealing, and JSON Schema validation at the boundary.
  Third-party code the kernel calls (jsonschema, serde_json, sha2, the Display that thiserror
  derives) is the record \<open>externals\<close>, an argument of the definitions that use it.
\<close>

section \<open>Declarations\<close>

record grant_request =
  rq_scope :: grant_scope
  rq_data_scope :: data_scope
  rq_condition :: grant_condition
  rq_reason :: string
  rq_duration :: grant_duration

definition request_validate :: "grant_request \<Rightarrow> unit kernel_result" where
  "request_validate r = ds_validate (rq_data_scope r)"

record agent_declaration =
  ag_name :: string
  ag_description :: string
  ag_instructions :: string
  ag_capability_bindings :: "capability_ref list"

record skill_declaration =
  sk_name :: string
  sk_description :: string
  sk_instructions :: string

record assistant_profile_declaration =
  ap_profile_name :: string
  ap_title :: string
  ap_description :: string
  ap_instruction_skill_refs :: "string list"
  ap_suggested_capability_refs :: "capability_ref list"
  ap_suggested_agent_engine_contract :: "string option"
  ap_starter_prompts :: "string list"

record automation_declaration =
  au_name :: string
  au_description :: string
  au_trigger :: string

record config_declaration =
  cf_name :: config_name
  cf_title :: string
  cf_description :: string
  cf_json_schema :: json_object
  cf_default :: "json option"

record connector_declaration =
  co_name :: string
  co_description :: string
  co_secret_names :: "secret_name list"
  co_config_schema :: "json_object option"

record artifact_type_declaration =
  ty_name :: artifact_type_name
  ty_description :: string
  ty_json_schema :: json_object

record extension_point_declaration =
  ep_name :: extension_point_name
  ep_contract_version :: "32 word"
  ep_context_schema :: json_object

record extension_contribution =
  xc_target_app :: app_id
  xc_extension_point :: extension_point_name
  xc_contract_version :: "32 word"
  xc_surface :: surface_name

record app_manifest =
  mf_app_id :: app_id
  mf_version :: string
  mf_display_name :: string
  mf_description :: string
  mf_capabilities :: "capability_declaration list"
  mf_surfaces :: "surface_declaration list"
  mf_agents :: "agent_declaration list"
  mf_skills :: "skill_declaration list"
  mf_assistant_profiles :: "assistant_profile_declaration list"
  mf_automations :: "automation_declaration list"
  mf_connectors :: "connector_declaration list"
  mf_config_declarations :: "config_declaration list"
  mf_artifact_types :: "artifact_type_declaration list"
  mf_extension_points :: "extension_point_declaration list"
  mf_extension_contributions :: "extension_contribution list"
  mf_grant_requests :: "grant_request list"
  mf_event_subscriptions :: "event_topic list"

record sealed_manifest =
  sm_manifest :: app_manifest
  sm_content_hash :: string

text \<open>Behaviour of the crates the kernel calls.\<close>

record externals =
  x_schema_error :: "json_object \<Rightarrow> string option"
    \<comment> \<open>\<open>jsonschema::validator_for\<close>: the error text when the schema does not compile\<close>
  x_schema_violations :: "json_object \<Rightarrow> json \<Rightarrow> string list"
    \<comment> \<open>\<open>Validator::iter_errors\<close>, each rendered as \<open>path: error\<close>\<close>
  x_manifest_json :: "app_manifest \<Rightarrow> string"
    \<comment> \<open>\<open>serde_json::to_string\<close> of a manifest\<close>
  x_json_bytes :: "json \<Rightarrow> (string, string) result"
    \<comment> \<open>\<open>serde_json::to_vec\<close>\<close>
  x_json_pretty :: "json_object \<Rightarrow> string"
    \<comment> \<open>\<open>serde_json::to_string_pretty\<close>\<close>
  x_sha256_hex :: "string \<Rightarrow> string"
    \<comment> \<open>\<open>Sha256::digest\<close>, in lower-case hexadecimal\<close>
  x_error_text :: "kernel_error \<Rightarrow> string"
    \<comment> \<open>the \<open>Display\<close> thiserror derives for \<open>KernelError\<close>\<close>

section \<open>JSON Schema at the boundary\<close>

datatype schema_violation = ViolatesCapabilityInput | ViolatesCapabilityOutput | ViolatesArtifactContent

definition require_valid_schema :: "externals \<Rightarrow> json_object \<Rightarrow> string \<Rightarrow> unit kernel_result" where
  "require_valid_schema x schema described_as =
     (case x_schema_error x schema of
        Some message \<Rightarrow> Err (InvalidSchema described_as message)
      | None \<Rightarrow> Ok ())"

definition validate_against_schema ::
    "externals \<Rightarrow> json \<Rightarrow> json_object \<Rightarrow> schema_violation \<Rightarrow> string \<Rightarrow> unit kernel_result" where
  "validate_against_schema x instance_value schema violation described_as =
     (case x_schema_error x schema of
        Some message \<Rightarrow> Err (InvalidSchema described_as message)
      | None \<Rightarrow>
          (let messages = x_schema_violations x schema instance_value
           in if messages = [] then Ok ()
              else let message = str_join ''; '' (sort messages)
                   in Err (case violation of
                        ViolatesCapabilityInput \<Rightarrow> InvalidCapabilityInput described_as message
                      | ViolatesCapabilityOutput \<Rightarrow> InvalidCapabilityOutput described_as message
                      | ViolatesArtifactContent \<Rightarrow> InvalidArtifactContent described_as message)))"

definition schema_accepts :: "externals \<Rightarrow> json_object \<Rightarrow> json \<Rightarrow> bool" where
  "schema_accepts x schema v = (x_schema_error x schema = None \<and> x_schema_violations x schema v = [])"

lemma validate_against_schema_Ok_iff [simp]:
  "validate_against_schema x v schema viol d = Ok u \<longleftrightarrow> schema_accepts x schema v"
  by (auto simp: validate_against_schema_def schema_accepts_def Let_def split: option.splits)

lemma require_valid_schema_Ok_iff [simp]:
  "require_valid_schema x schema d = Ok u \<longleftrightarrow> x_schema_error x schema = None"
  by (auto simp: require_valid_schema_def split: option.splits)

section \<open>Consistency of one manifest\<close>

fun collect_duplicates :: "string list \<Rightarrow> string btree_set \<Rightarrow> string btree_set \<Rightarrow> string btree_set" where
  "collect_duplicates [] seen duplicates = duplicates"
| "collect_duplicates (name # names) seen duplicates =
     (if bt_contains seen name then collect_duplicates names seen (bs_insert name duplicates)
      else collect_duplicates names (bs_insert name seen) duplicates)"

definition require_unique :: "app_id \<Rightarrow> string \<Rightarrow> string list \<Rightarrow> unit kernel_result" where
  "require_unique app contribution names =
     (let duplicates = collect_duplicates names bt_empty bt_empty
      in if bs_elems duplicates = [] then Ok ()
         else Err (ManifestContributionInvalid app contribution (bs_elems duplicates)))"

definition require_nonempty :: "(string \<times> string) list \<Rightarrow> unit kernel_result" where
  "require_nonempty named =
     for_each (\<lambda>(field, val). require (val \<noteq> []) (ManifestIdentityInvalid field)) named"

definition require_surface_intents :: "app_manifest \<Rightarrow> surface_declaration \<Rightarrow> unit kernel_result" where
  "require_surface_intents m surface =
     (let declared_capabilities = bs_of_list (map cd_name (mf_capabilities m))
      in if sd_kind surface = Form \<and> length (sd_intents surface) \<noteq> 1 then
           Err (ManifestSurfaceIntentInvalid (mf_app_id m) (sd_name surface)
             (''form surfaces must declare exactly one intent, found '' @
              string_of_nat (length (sd_intents surface))))
         else for_each (\<lambda>intent.
           if cr_provider intent = mf_app_id m
              \<and> \<not> bt_contains declared_capabilities (cr_capability intent) then
             Err (ManifestSurfaceIntentInvalid (mf_app_id m) (sd_name surface)
               (''intent references undeclared capability '' @ quoted (cr_capability intent)))
           else Ok ()) (sd_intents surface))"

definition require_profile :: "app_manifest \<Rightarrow> assistant_profile_declaration \<Rightarrow> unit kernel_result" where
  "require_profile m profile =
     (let declared_skills = bs_of_list (map sk_name (mf_skills m))
      in bind_r (require_nonempty
           [(''profile_name'', ap_profile_name profile), (''title'', ap_title profile),
            (''description'', ap_description profile)]) (\<lambda>_.
         for_each (\<lambda>skill_ref.
           if \<not> bt_contains declared_skills skill_ref then
             Err (ManifestContributionInvalid (mf_app_id m)
               ''assistant profile instruction skill'' [skill_ref])
           else Ok ()) (ap_instruction_skill_refs profile)))"

definition require_contribution :: "app_manifest \<Rightarrow> extension_contribution \<Rightarrow> unit kernel_result" where
  "require_contribution m contribution =
     (if \<not> list_ex (\<lambda>surface. sd_name surface = xc_surface contribution) (mf_surfaces m) then
        Err (ManifestExtensionContributionInvalid (mf_app_id m) (xc_surface contribution)
          ''contribution surface is not declared by this app'')
      else if xc_target_app contribution = mf_app_id m then
        Err (ManifestExtensionContributionInvalid (mf_app_id m) (xc_surface contribution)
          ''an app cannot contribute to its own extension point'')
      else Ok ())"

definition require_consistent :: "app_manifest \<Rightarrow> unit kernel_result" where
  "require_consistent m =
     (let app = mf_app_id m in
      bind_r (require_nonempty
        [(''app_id'', mf_app_id m), (''version'', mf_version m),
         (''display_name'', mf_display_name m)]) (\<lambda>_.
      bind_r (require_unique app ''capability'' (map cd_name (mf_capabilities m))) (\<lambda>_.
      bind_r (require_unique app ''surface'' (map sd_name (mf_surfaces m))) (\<lambda>_.
      bind_r (for_each (require_surface_intents m) (mf_surfaces m)) (\<lambda>_.
      bind_r (require_unique app ''agent'' (map ag_name (mf_agents m))) (\<lambda>_.
      bind_r (require_unique app ''skill'' (map sk_name (mf_skills m))) (\<lambda>_.
      bind_r (require_unique app ''assistant profile''
        (map ap_profile_name (mf_assistant_profiles m))) (\<lambda>_.
      bind_r (for_each (require_profile m) (mf_assistant_profiles m)) (\<lambda>_.
      bind_r (require_unique app ''automation'' (map au_name (mf_automations m))) (\<lambda>_.
      bind_r (require_unique app ''connector'' (map co_name (mf_connectors m))) (\<lambda>_.
      bind_r (require_unique app ''config declaration''
        (map cf_name (mf_config_declarations m))) (\<lambda>_.
      bind_r (for_each request_validate (mf_grant_requests m)) (\<lambda>_.
      bind_r (require_unique app ''artifact type'' (map ty_name (mf_artifact_types m))) (\<lambda>_.
      bind_r (require_unique app ''extension point'' (map ep_name (mf_extension_points m))) (\<lambda>_.
      bind_r (for_each (require_contribution m) (mf_extension_contributions m)) (\<lambda>_.
      bind_r (require_unique app ''event subscription'' (mf_event_subscriptions m)) (\<lambda>_.
      Ok ())))))))))))))))))"

definition declared_secret_names :: "app_manifest \<Rightarrow> secret_name list" where
  "declared_secret_names m = concat (map co_secret_names (mf_connectors m))"

section \<open>Upgrade contract and sealing\<close>

definition clear_presentation :: "app_manifest \<Rightarrow> app_manifest" where
  "clear_presentation m = m\<lparr>mf_version := [], mf_display_name := [], mf_description := []\<rparr>"

definition has_same_upgrade_contract :: "app_manifest \<Rightarrow> app_manifest \<Rightarrow> bool" where
  "has_same_upgrade_contract current candidate =
     (clear_presentation current = clear_presentation candidate)"

definition manifest_content_hash :: "externals \<Rightarrow> app_manifest \<Rightarrow> string" where
  "manifest_content_hash x m = x_sha256_hex x (x_manifest_json x m)"

definition seal :: "externals \<Rightarrow> app_manifest \<Rightarrow> sealed_manifest" where
  "seal x m = \<lparr>sm_manifest = m, sm_content_hash = manifest_content_hash x m\<rparr>"

section \<open>What the checks decide\<close>

lemma collect_duplicates_contains:
  "bt_contains (collect_duplicates names seen dups) n \<longleftrightarrow>
     bt_contains dups n \<or> (n \<in> set names \<and> bt_contains seen n) \<or> 2 \<le> count_list names n"
proof (induction names seen dups rule: collect_duplicates.induct)
  case (2 name names seen dups)
  have "2 \<le> Suc (count_list names n) \<longleftrightarrow> n \<in> set names"
    using count_list_0_iff[of names n] by (cases "count_list names n") simp_all
  with 2 show ?case by auto
qed simp

lemma bs_elems_empty_iff: "bs_elems s = [] \<longleftrightarrow> (\<forall>k. \<not> bt_contains s k)"
  by (metis in_keys_iff set_empty2 empty_iff all_not_in_conv)

lemma count_list_distinct: "distinct xs \<longleftrightarrow> (\<forall>x. count_list xs x < 2)"
proof (induction xs)
  case (Cons a as)
  have absent: "count_list as a = 0 \<longleftrightarrow> a \<notin> set as" by (simp add: count_list_0_iff)
  show ?case
  proof
    assume "distinct (a # as)"
    with Cons have "a \<notin> set as" "\<forall>x. count_list as x < 2" by simp_all
    with absent show "\<forall>x. count_list (a # as) x < 2" by simp
  next
    assume few: "\<forall>x. count_list (a # as) x < 2"
    from few[rule_format, of a] have "count_list as a = 0" by simp
    moreover have "count_list as x < 2" for x
      using few[rule_format, of x] by (simp split: if_splits)
    ultimately show "distinct (a # as)" using Cons absent by simp
  qed
qed simp

lemma require_unique_Ok_iff [simp]: "require_unique app c names = Ok u \<longleftrightarrow> distinct names"
  by (simp add: require_unique_def Let_def bs_elems_empty_iff collect_duplicates_contains
      count_list_distinct not_le)

lemma require_unique_Err:
  "require_unique app c names = Err e \<Longrightarrow>
     \<exists>dups. e = ManifestContributionInvalid app c dups \<and> sorted dups \<and> distinct dups \<and>
       set dups = {n. 2 \<le> count_list names n} \<and> dups \<noteq> []"
  by (auto simp: require_unique_def Let_def collect_duplicates_contains split: if_splits)

lemma require_nonempty_Ok_iff [simp]:
  "require_nonempty named = Ok u \<longleftrightarrow> (\<forall>(f, v)\<in>set named. v \<noteq> [])"
  by (auto simp: require_nonempty_def)

text \<open>The consistency a manifest promises, independent of the order of the checks.\<close>

definition surface_ok :: "app_manifest \<Rightarrow> surface_declaration \<Rightarrow> bool" where
  "surface_ok m surface \<longleftrightarrow>
     (sd_kind surface = Form \<longrightarrow> length (sd_intents surface) = 1) \<and>
     (\<forall>intent\<in>set (sd_intents surface). cr_provider intent = mf_app_id m \<longrightarrow>
        cr_capability intent \<in> cd_name ` set (mf_capabilities m))"

definition profile_ok :: "app_manifest \<Rightarrow> assistant_profile_declaration \<Rightarrow> bool" where
  "profile_ok m p \<longleftrightarrow>
     ap_profile_name p \<noteq> [] \<and> ap_title p \<noteq> [] \<and> ap_description p \<noteq> [] \<and>
     set (ap_instruction_skill_refs p) \<subseteq> sk_name ` set (mf_skills m)"

definition contribution_ok :: "app_manifest \<Rightarrow> extension_contribution \<Rightarrow> bool" where
  "contribution_ok m c \<longleftrightarrow>
     xc_surface c \<in> sd_name ` set (mf_surfaces m) \<and> xc_target_app c \<noteq> mf_app_id m"

definition manifest_consistent :: "app_manifest \<Rightarrow> bool" where
  "manifest_consistent m \<longleftrightarrow>
     mf_app_id m \<noteq> [] \<and> mf_version m \<noteq> [] \<and> mf_display_name m \<noteq> [] \<and>
     distinct (map cd_name (mf_capabilities m)) \<and> distinct (map sd_name (mf_surfaces m)) \<and>
     distinct (map ag_name (mf_agents m)) \<and> distinct (map sk_name (mf_skills m)) \<and>
     distinct (map ap_profile_name (mf_assistant_profiles m)) \<and>
     distinct (map au_name (mf_automations m)) \<and> distinct (map co_name (mf_connectors m)) \<and>
     distinct (map cf_name (mf_config_declarations m)) \<and>
     distinct (map ty_name (mf_artifact_types m)) \<and>
     distinct (map ep_name (mf_extension_points m)) \<and> distinct (mf_event_subscriptions m) \<and>
     (\<forall>s\<in>set (mf_surfaces m). surface_ok m s) \<and>
     (\<forall>p\<in>set (mf_assistant_profiles m). profile_ok m p) \<and>
     (\<forall>r\<in>set (mf_grant_requests m). ds_validate (rq_data_scope r) = Ok ()) \<and>
     (\<forall>c\<in>set (mf_extension_contributions m). contribution_ok m c)"

lemma require_surface_intents_Ok_iff [simp]:
  "require_surface_intents m s = Ok u \<longleftrightarrow> surface_ok m s"
  by (auto simp: require_surface_intents_def surface_ok_def Let_def)

lemma require_profile_Ok_iff [simp]: "require_profile m p = Ok u \<longleftrightarrow> profile_ok m p"
  by (auto simp: require_profile_def profile_ok_def Let_def bind_r_Ok_iff split: if_splits)

lemma require_contribution_Ok_iff [simp]:
  "require_contribution m c = Ok u \<longleftrightarrow> contribution_ok m c"
proof -
  have "list_ex (\<lambda>s. sd_name s = xc_surface c) (mf_surfaces m) \<longleftrightarrow>
      xc_surface c \<in> sd_name ` set (mf_surfaces m)"
    by (metis (mono_tags, lifting) image_iff list_ex_iff)
  then show ?thesis
    by (simp add: require_contribution_def contribution_ok_def)
qed

text \<open>
  The sequence of early returns of \<open>require_consistent\<close> accepts exactly the consistent
  manifests.
\<close>

lemma require_consistent_decides: "require_consistent m = Ok () \<longleftrightarrow> manifest_consistent m"
  by (simp add: require_consistent_def manifest_consistent_def Let_def bind_r_Ok_iff
      request_validate_def del: One_nat_def) blast

text \<open>
  Two manifests have the same upgrade contract exactly when they agree on everything except
  version, display name and description.
\<close>

lemma upgrade_contract_iff:
  "has_same_upgrade_contract a b \<longleftrightarrow>
     (\<exists>v d t. b = a\<lparr>mf_version := v, mf_display_name := d, mf_description := t\<rparr>)"
proof
  assume "has_same_upgrade_contract a b"
  then have "b = a\<lparr>mf_version := mf_version b, mf_display_name := mf_display_name b,
      mf_description := mf_description b\<rparr>"
    by (cases a; cases b) (simp add: has_same_upgrade_contract_def clear_presentation_def)
  then show "\<exists>v d t. b = a\<lparr>mf_version := v, mf_display_name := d, mf_description := t\<rparr>"
    by blast
qed (auto simp: has_same_upgrade_contract_def clear_presentation_def)

lemma upgrade_contract_authority:
  assumes "has_same_upgrade_contract a b"
  shows "mf_app_id b = mf_app_id a" "mf_capabilities b = mf_capabilities a"
    "mf_surfaces b = mf_surfaces a" "mf_connectors b = mf_connectors a"
    "mf_artifact_types b = mf_artifact_types a" "mf_grant_requests b = mf_grant_requests a"
    "mf_event_subscriptions b = mf_event_subscriptions a"
  using assms by (auto simp: upgrade_contract_iff)

lemma upgrade_contract_equiv:
  "has_same_upgrade_contract a a"
  "has_same_upgrade_contract a b \<Longrightarrow> has_same_upgrade_contract b a"
  "has_same_upgrade_contract a b \<Longrightarrow> has_same_upgrade_contract b c \<Longrightarrow> has_same_upgrade_contract a c"
  by (simp_all add: has_same_upgrade_contract_def)

section \<open>A sample app, for the witnesses of the development\<close>

definition sample_externals :: externals where
  "sample_externals =
     \<lparr>x_schema_error = (\<lambda>_. None), x_schema_violations = (\<lambda>_ _. []), x_manifest_json = mf_app_id,
      x_json_bytes = (\<lambda>_. Ok ''{}''), x_json_pretty = (\<lambda>_. replicate 5000 (CHR ''a'')),
      x_sha256_hex = (\<lambda>s. s), x_error_text = (\<lambda>_. ''error'')\<rparr>"

definition sample_request :: "app_id \<Rightarrow> grant_request" where
  "sample_request a =
     \<lparr>rq_scope = ExactCapability a ''save'', rq_data_scope = AllResources, rq_condition = Silent,
      rq_reason = ''to save'', rq_duration = NonExpiring\<rparr>"

definition sample_manifest :: "app_id \<Rightarrow> app_manifest" where
  "sample_manifest a =
     \<lparr>mf_app_id = a, mf_version = ''1'', mf_display_name = a, mf_description = [],
      mf_capabilities = [\<lparr>cd_name = ''save'', cd_description = ''save a note'', cd_input_schema = [],
        cd_effect = LocalWrite, cd_output_schema = None\<rparr>],
      mf_surfaces = [\<lparr>sd_name = ''main'', sd_kind = Form, sd_title = ''Main'', sd_description = [],
        sd_intents = [CapabilityRef a ''save'']\<rparr>],
      mf_agents = [], mf_skills = [], mf_assistant_profiles = [], mf_automations = [],
      mf_connectors = [\<lparr>co_name = ''sync'', co_description = [], co_secret_names = [''token''],
        co_config_schema = None\<rparr>],
      mf_config_declarations = [],
      mf_artifact_types = [\<lparr>ty_name = ''note'', ty_description = [], ty_json_schema = []\<rparr>],
      mf_extension_points = [], mf_extension_contributions = [],
      mf_grant_requests = [sample_request a], mf_event_subscriptions = [''run-started'']\<rparr>"

definition sample_sealed :: "app_id \<Rightarrow> sealed_manifest" where
  "sample_sealed a = seal sample_externals (sample_manifest a)"

end
