(* ===== verification/Chrome.thy ===== *)
theory Chrome
  imports Manifest
begin

text \<open>
  \<open>crates/kernel/src/services/chrome.rs\<close>: the prompts and notices the kernel shows, and the port
  a shell implements. The port is a record of the shell's answers; \<open>ch_ptr\<close> is the identity of
  the shared pointer. The bounded summary of an invocation input (\<open>approval_input_summary\<close> in
  \<open>kernel.rs\<close>) is here as well: it never exceeds the bound, is a prefix of the rendered input
  that ends between two characters, and drops at most three bytes below the bound.
\<close>

datatype approval_decision = DecisionApproved | DecisionDenied

record grant_issuance_prompt =
  gp_app_id :: app_id
  gp_app_display_name :: string
  gp_scope :: grant_scope
  gp_data_scope :: data_scope
  gp_condition :: grant_condition
  gp_duration :: grant_duration
  gp_reason :: string

definition max_capability_approval_input_bytes :: nat where
  "max_capability_approval_input_bytes = 4096"

record capability_approval_prompt =
  cp_app_id :: app_id
  cp_app_display_name :: string
  cp_capability :: capability_ref
  cp_capability_description :: string
  cp_effect :: capability_effect
  cp_input_summary :: string
  cp_input_summary_truncated :: bool
  cp_data_scope :: data_scope
  cp_grant_id :: grant_id
  cp_run_id :: run_id
  cp_goal :: string

record event_subscription_prompt =
  ep_app_id :: app_id
  ep_app_display_name :: string
  ep_topics :: "event_topic list"

record install_approval_prompt =
  ip_app_id :: app_id
  ip_app_display_name :: string
  ip_event :: "event_subscription_prompt option"
  ip_grants :: "grant_issuance_prompt list"

record install_approval_decision =
  iad_event_decision :: "approval_decision option"
  iad_grant_decisions :: "approval_decision list"

datatype chrome_notice =
    GrantUse app_id capability_ref grant_id run_id
  | LeaseConflict string run_id run_id

datatype chrome_notice_error =
    NoticePersistence string
  | NoticeDelivery string

record trusted_chrome =
  ch_ptr :: nat
  ch_confirm_grant :: "grant_issuance_prompt \<Rightarrow> approval_decision"
  ch_approve_capability :: "capability_approval_prompt \<Rightarrow> approval_decision"
  ch_confirm_event_subscriptions :: "event_subscription_prompt \<Rightarrow> approval_decision"
  ch_confirm_install :: "install_approval_prompt \<Rightarrow> install_approval_decision"
  ch_show_notice :: "chrome_notice \<Rightarrow> (unit, chrome_notice_error) result"

text \<open>The default method of the trait, for a shell without a batched dialog.\<close>

definition default_confirm_install ::
    "(event_subscription_prompt \<Rightarrow> approval_decision) \<Rightarrow> (grant_issuance_prompt \<Rightarrow> approval_decision)
      \<Rightarrow> install_approval_prompt \<Rightarrow> install_approval_decision" where
  "default_confirm_install confirm_event_subscriptions confirm_grant prompt =
     (let event_decision = map_option confirm_event_subscriptions (ip_event prompt);
          grant_decisions = (if event_decision = Some DecisionDenied then []
                             else map confirm_grant (ip_grants prompt))
      in \<lparr>iad_event_decision = event_decision, iad_grant_decisions = grant_decisions\<rparr>)"

section \<open>The bounded input summary\<close>

function back_to_boundary :: "string \<Rightarrow> nat \<Rightarrow> nat" where
  "back_to_boundary s n = (if is_char_boundary s n then n else back_to_boundary s (n - 1))"
  by pat_completeness auto

termination
  by (relation "measure snd") (auto simp: is_char_boundary_def)

declare back_to_boundary.simps [simp del]

definition approval_input_summary :: "externals \<Rightarrow> json_object \<Rightarrow> string \<times> bool" where
  "approval_input_summary x input =
     (let rendered = x_json_pretty x input
      in if length rendered \<le> max_capability_approval_input_bytes then (rendered, False)
         else (take (back_to_boundary rendered max_capability_approval_input_bytes) rendered, True))"

lemma back_to_boundary_le: "back_to_boundary s n \<le> n"
proof (induction s n rule: back_to_boundary.induct)
  case (1 s n)
  then show ?case by (subst back_to_boundary.simps) auto
qed

lemma back_to_boundary_boundary: "is_char_boundary s (back_to_boundary s n)"
proof (induction s n rule: back_to_boundary.induct)
  case (1 s n)
  then show ?case by (subst back_to_boundary.simps) auto
qed

lemma back_to_boundary_latest:
  "k \<le> n \<Longrightarrow> is_char_boundary s k \<Longrightarrow> k \<le> back_to_boundary s n"
proof (induction s n rule: back_to_boundary.induct)
  case (1 s n)
  show ?case
  proof (cases "is_char_boundary s n")
    case True
    then show ?thesis using "1.prems" by (subst back_to_boundary.simps) simp
  next
    case False
    with "1.prems" have "k \<noteq> n" by auto
    with "1.prems" have "k \<le> n - 1" by simp
    with 1 False show ?thesis by (subst back_to_boundary.simps) simp
  qed
qed

text \<open>UTF-8 as Rust strings hold it: a lead byte and its continuation bytes.\<close>

definition utf8_continuations :: "char \<Rightarrow> nat option" where
  "utf8_continuations c =
     (let b = (of_char c :: nat) in
      if b < 128 then Some 0
      else if 194 \<le> b \<and> b < 224 then Some 1
      else if 224 \<le> b \<and> b < 240 then Some 2
      else if 240 \<le> b \<and> b < 245 then Some 3
      else None)"

function utf8_chars :: "string \<Rightarrow> bool" where
  "utf8_chars [] = True"
| "utf8_chars (c # cs) =
     (case utf8_continuations c of
        None \<Rightarrow> False
      | Some w \<Rightarrow> w \<le> length cs \<and> list_all is_continuation_byte (take w cs) \<and> utf8_chars (drop w cs))"
  by pat_completeness auto

termination
  by (relation "measure length") auto

lemma utf8_step:
  assumes "utf8_chars s" "s \<noteq> []"
  obtains c conts rest where "s = c # conts @ rest" "length conts \<le> 3" "\<not> is_continuation_byte c"
    "\<forall>d\<in>set conts. is_continuation_byte d" "utf8_chars rest"
    "\<And>t. utf8_chars t \<Longrightarrow> utf8_chars (c # conts @ t)"
proof -
  from \<open>s \<noteq> []\<close> obtain c cs where s: "s = c # cs" by (cases s) auto
  with assms(1) obtain w where w: "utf8_continuations c = Some w" "w \<le> length cs"
      "list_all is_continuation_byte (take w cs)" "utf8_chars (drop w cs)"
    by (auto split: option.splits)
  from w(1) have "w \<le> 3" "\<not> is_continuation_byte c"
    by (auto simp: utf8_continuations_def is_continuation_byte_def Let_def split: if_splits)
  with w show thesis
    using that[of c "take w cs" "drop w cs"] by (auto simp: s list_all_iff)
qed

lemma utf8_head:
  assumes "utf8_chars s" "s \<noteq> []"
  shows "\<not> is_continuation_byte (s ! 0)"
  using utf8_step[OF assms] by (metis nth_Cons_0)

lemma boundary_shift:
  assumes "utf8_chars rest"
  shows "is_char_boundary (c # conts @ rest) (Suc (length conts) + k) \<longleftrightarrow> is_char_boundary rest k"
proof (cases "k = 0")
  case True
  with utf8_head[OF assms] show ?thesis
    by (cases "rest = []") (simp_all add: is_char_boundary_def nth_append)
next
  case False
  then show ?thesis by (simp add: is_char_boundary_def nth_append)
qed

lemma utf8_boundary_near:
  "utf8_chars s \<Longrightarrow> n \<le> length s \<Longrightarrow> \<exists>k. k \<le> n \<and> n \<le> k + 3 \<and> is_char_boundary s k"
proof (induction "length s" arbitrary: s n rule: less_induct)
  case less
  show ?case
  proof (cases "s = []")
    case True
    with less.prems show ?thesis by (auto simp: is_char_boundary_def)
  next
    case False
    from utf8_step[OF less.prems(1) this] obtain c conts rest where
      s: "s = c # conts @ rest" "length conts \<le> 3" and rest: "utf8_chars rest" by metis
    show ?thesis
    proof (cases "n \<le> length conts")
      case True
      with s show ?thesis by (intro exI[of _ 0]) (auto simp: is_char_boundary_def)
    next
      case False
      from s(1) less.prems(2) have "length rest < length s" "n - Suc (length conts) \<le> length rest"
        by simp_all
      from less.hyps[OF this(1) rest this(2)] obtain k where
        k: "k \<le> n - Suc (length conts)" "n - Suc (length conts) \<le> k + 3" "is_char_boundary rest k"
        by blast
      then have "is_char_boundary s (Suc (length conts) + k)"
        unfolding s boundary_shift[OF rest] by simp
      with k False show ?thesis by (intro exI[of _ "Suc (length conts) + k"]) auto
    qed
  qed
qed

lemma utf8_take:
  "utf8_chars s \<Longrightarrow> is_char_boundary s n \<Longrightarrow> utf8_chars (take n s)"
proof (induction "length s" arbitrary: s n rule: less_induct)
  case less
  show ?case
  proof (cases "s = [] \<or> n = 0")
    case False
    from utf8_step[OF less.prems(1)] False obtain c conts rest where
      s: "s = c # conts @ rest" and conts: "\<forall>d\<in>set conts. is_continuation_byte d"
      and rest: "utf8_chars rest" and join: "\<And>t. utf8_chars t \<Longrightarrow> utf8_chars (c # conts @ t)"
      by metis
    have "\<not> n \<le> length conts"
    proof
      assume "n \<le> length conts"
      with False have "s ! n = conts ! (n - 1)" "n - 1 < length conts" "n < length s"
        by (auto simp: s nth_Cons' nth_append)
      with less.prems(2) False conts show False by (auto simp: is_char_boundary_def)
    qed
    then have n: "n = Suc (length conts) + (n - Suc (length conts))" by simp
    with less.prems(2) have "is_char_boundary rest (n - Suc (length conts))"
      unfolding s using boundary_shift[OF rest] by metis
    with less.hyps[of rest] rest s have "utf8_chars (take (n - Suc (length conts)) rest)" by simp
    from join[OF this] show ?thesis
      by (subst n) (simp add: s)
  qed auto
qed

lemma approval_input_summary_facts:
  assumes "approval_input_summary x input = (summary, truncated)"
  shows "length summary \<le> max_capability_approval_input_bytes"
    "\<exists>rest. x_json_pretty x input = summary @ rest \<and> (truncated \<longleftrightarrow> rest \<noteq> [])"
    "utf8_chars (x_json_pretty x input) \<Longrightarrow> utf8_chars summary"
    "utf8_chars (x_json_pretty x input) \<Longrightarrow> truncated \<Longrightarrow>
       max_capability_approval_input_bytes \<le> length summary + 3"
proof -
  let ?r = "x_json_pretty x input" and ?max = max_capability_approval_input_bytes
  let ?n = "back_to_boundary ?r ?max"
  have "(length summary \<le> ?max) \<and> (\<exists>rest. ?r = summary @ rest \<and> (truncated \<longleftrightarrow> rest \<noteq> [])) \<and>
    (utf8_chars ?r \<longrightarrow> utf8_chars summary) \<and>
    (utf8_chars ?r \<longrightarrow> truncated \<longrightarrow> ?max \<le> length summary + 3)"
  proof (cases "length ?r \<le> ?max")
    case True
    with assms show ?thesis by (auto simp: approval_input_summary_def)
  next
    case False
    have n: "?n \<le> ?max" by (rule back_to_boundary_le)
    have sum: "summary = take ?n ?r" "truncated"
      using assms False by (simp_all add: approval_input_summary_def Let_def)
    have "?r = summary @ drop ?n ?r \<and> drop ?n ?r \<noteq> []"
      using n False by (simp add: sum(1))
    then have "\<exists>rest. ?r = summary @ rest \<and> rest \<noteq> []" by blast
    moreover have "?max \<le> ?n + 3" if "utf8_chars ?r"
      using utf8_boundary_near[OF that, of ?max] False back_to_boundary_latest[of _ ?max ?r]
      by (meson add_le_mono1 le_trans nat_le_linear)
    moreover have "utf8_chars (take ?n ?r)" if "utf8_chars ?r"
      using utf8_take[OF that back_to_boundary_boundary] .
    ultimately show ?thesis
      using n False by (simp add: sum)
  qed
  then show "length summary \<le> ?max" "\<exists>rest. ?r = summary @ rest \<and> (truncated \<longleftrightarrow> rest \<noteq> [])"
    "utf8_chars ?r \<Longrightarrow> utf8_chars summary"
    "utf8_chars ?r \<Longrightarrow> truncated \<Longrightarrow> ?max \<le> length summary + 3" by blast+
qed

section \<open>What the summary guarantees\<close>

text \<open>
  C20: the summary of an invocation input shown to the user is never longer than 4096 bytes, is
  a prefix of the rendered input, is marked truncated exactly when something is missing, and
  on well-formed UTF-8 it is cut between two characters as late as possible: at most three
  bytes below the bound. In particular the backward search for a boundary ends.
\<close>

theorem approval_summary_bounded:
  "case approval_input_summary x input of (summary, truncated) \<Rightarrow>
     length summary \<le> max_capability_approval_input_bytes \<and>
     (\<exists>rest. x_json_pretty x input = summary @ rest \<and> truncated = (rest \<noteq> []) \<and>
       (utf8_chars (x_json_pretty x input) \<longrightarrow>
         utf8_chars summary \<and>
         (if truncated then max_capability_approval_input_bytes else 0) \<le> length summary + 3))"
proof -
  obtain summary truncated where s: "approval_input_summary x input = (summary, truncated)" by force
  from approval_input_summary_facts[OF s] show ?thesis by (auto simp: s)
qed

lemma utf8_ascii: "utf8_chars (replicate n (CHR ''a''))"
  by (induction n) (simp_all add: utf8_continuations_def)

theorem approval_summary_bounded_witness:
  "utf8_chars (x_json_pretty sample_externals []) \<and>
   (case approval_input_summary sample_externals [] of (summary, truncated) \<Rightarrow>
      truncated \<and> utf8_chars summary \<and> 4093 \<le> length summary \<and> length summary \<le> 4096)"
  using approval_summary_bounded[of sample_externals "[]"] utf8_ascii[of 5000]
  by (auto simp: sample_externals_def approval_input_summary_def max_capability_approval_input_bytes_def Let_def)

end
