(* ===== verification/Broker.thy ===== *)
theory Broker
  imports Chrome
begin

text \<open>
  \<open>crates/kernel/src/services/broker.rs\<close>: issuing, checking and revoking grants, and secrets.
  \<open>check\<close> is characterised exactly: the grant it returns is the least one, by condition, issue
  time and id, among the covering grants that are neither revoked nor expired, and the reason
  of a denial says which of the three filters emptied the list. The locale \<open>grant_authority\<close>
  states what the action path relies on.
\<close>

datatype issue_result = Issued grant | IssueRefused

datatype grant_check = CheckAllowed grant | CheckApprovalRequired grant | CheckDenied denial_reason

record secret_resolver =
  sv_declared :: "secret_name btree_set"
  sv_secrets :: "(secret_name, string) btree_map"

definition secret_resolve :: "secret_resolver \<Rightarrow> secret_name \<Rightarrow> string kernel_result" where
  "secret_resolve resolver name =
     (if \<not> bt_contains (sv_declared resolver) name then Err (UndeclaredSecret name)
      else ok_or (UnknownSecret name) (bt_get (sv_secrets resolver) name))"

record broker =
  br_grants :: "(grant_id, grant) btree_map"
  br_revoked :: "grant_id btree_set"
  br_secrets :: "(secret_ref, string) btree_map"

definition broker_new :: broker where
  "broker_new = \<lparr>br_grants = bt_empty, br_revoked = bt_empty, br_secrets = bt_empty\<rparr>"

definition grant_of_request ::
    "datetime \<Rightarrow> string \<Rightarrow> app_id \<Rightarrow> grant_request \<Rightarrow> grant_origin \<Rightarrow> grant" where
  "grant_of_request now uuid holder request origin =
     \<lparr>gr_grant_id = new_grant_id uuid, gr_holder = holder, gr_scope = rq_scope request,
      gr_data_scope = rq_data_scope request, gr_condition = rq_condition request,
      gr_origin = origin, gr_issued_at = now,
      gr_expires_at = (case rq_duration request of
          NonExpiring \<Rightarrow> None
        | ExpiresAfter seconds \<Rightarrow> Some (now + duration_nanos seconds))\<rparr>"

text \<open>The error is the message of the \<open>expect\<close>, a panic of the source.\<close>

definition issue_with_decision ::
    "datetime \<Rightarrow> string \<Rightarrow> broker \<Rightarrow> app_id \<Rightarrow> grant_request \<Rightarrow> grant_origin \<Rightarrow> approval_decision
      \<Rightarrow> (issue_result \<times> broker, string) result" where
  "issue_with_decision now uuid b holder request origin decision =
     (if decision = DecisionDenied then Ok (IssueRefused, b)
      else let grant = grant_of_request now uuid holder request origin in
        case grant_validate grant of
          Err _ \<Rightarrow> Err ''validated grant request produced invalid grant''
        | Ok _ \<Rightarrow> Ok (Issued grant,
            b\<lparr>br_grants := bt_insert (gr_grant_id grant) grant (br_grants b)\<rparr>))"

definition prompt_of_request :: "app_id \<Rightarrow> string \<Rightarrow> grant_request \<Rightarrow> grant_issuance_prompt" where
  "prompt_of_request holder holder_display_name request =
     \<lparr>gp_app_id = holder, gp_app_display_name = holder_display_name, gp_scope = rq_scope request,
      gp_data_scope = rq_data_scope request, gp_condition = rq_condition request,
      gp_duration = rq_duration request, gp_reason = rq_reason request\<rparr>"

definition broker_issue ::
    "trusted_chrome \<Rightarrow> datetime \<Rightarrow> string \<Rightarrow> broker \<Rightarrow> app_id \<Rightarrow> string \<Rightarrow> grant_request \<Rightarrow> grant_origin
      \<Rightarrow> (issue_result \<times> broker, string) result" where
  "broker_issue chrome now uuid b holder holder_display_name request origin =
     (let decision = ch_confirm_grant chrome (prompt_of_request holder holder_display_name request)
      in issue_with_decision now uuid b holder request origin decision)"

definition broker_check ::
    "datetime \<Rightarrow> broker \<Rightarrow> app_id \<Rightarrow> capability_ref \<Rightarrow> data_scope \<Rightarrow> grant_check" where
  "broker_check now b holder capability requested =
     (let covering = filter (\<lambda>grant. gr_holder grant = holder
                         \<and> scope_covers (gr_scope grant) capability
                         \<and> ds_covers (gr_data_scope grant) requested) (bt_values (br_grants b))
      in if covering = [] then CheckDenied NoGrant
         else let live = filter (\<lambda>grant. \<not> bt_contains (br_revoked b) (gr_grant_id grant)) covering
         in if live = [] then CheckDenied Revoked
         else let current = sort_key (\<lambda>g. (gr_issued_at g, gr_grant_id g))
                              (filter (\<lambda>g. \<not> is_expired g now) live)
         in case current of
              [] \<Rightarrow> CheckDenied Expired
            | first # _ \<Rightarrow>
                (case List.find (\<lambda>g. gr_condition g = Silent) current of
                   Some grant \<Rightarrow> CheckAllowed grant
                 | None \<Rightarrow>
                (case List.find (\<lambda>g. gr_condition g = Notify) current of
                   Some grant \<Rightarrow> CheckAllowed grant
                 | None \<Rightarrow> CheckApprovalRequired first)))"

definition broker_revoke :: "broker \<Rightarrow> grant_id \<Rightarrow> broker kernel_result" where
  "broker_revoke b grant_id =
     (if \<not> bt_contains (br_grants b) grant_id then Err (UnknownGrant grant_id)
      else Ok (b\<lparr>br_revoked := bs_insert grant_id (br_revoked b)\<rparr>))"

definition revoke_where :: "(grant \<Rightarrow> bool) \<Rightarrow> broker \<Rightarrow> broker" where
  "revoke_where p b =
     b\<lparr>br_revoked := foldl (\<lambda>revoked (grant_id, grant).
         if p grant then bs_insert grant_id revoked else revoked)
       (br_revoked b) (bt_entries (br_grants b))\<rparr>"

definition revoke_all_for :: "broker \<Rightarrow> app_id \<Rightarrow> broker" where
  "revoke_all_for b holder = revoke_where (\<lambda>grant. gr_holder grant = holder) b"

definition revoke_all_over :: "broker \<Rightarrow> app_id \<Rightarrow> broker" where
  "revoke_all_over b provider = revoke_where (\<lambda>grant. scope_provider (gr_scope grant) = provider) b"

definition grant_ids_over_resource :: "broker \<Rightarrow> resource_id \<Rightarrow> grant_id list" where
  "grant_ids_over_resource b resource_id =
     map gr_grant_id (filter (\<lambda>grant. case gr_data_scope grant of
           Resources resource_ids \<Rightarrow> resource_id \<in> set resource_ids
         | _ \<Rightarrow> False) (bt_values (br_grants b)))"

definition grants_for :: "datetime \<Rightarrow> broker \<Rightarrow> app_id \<Rightarrow> grant list" where
  "grants_for now b holder =
     filter (\<lambda>grant. gr_holder grant = holder \<and> \<not> bt_contains (br_revoked b) (gr_grant_id grant)
       \<and> \<not> is_expired grant now) (bt_values (br_grants b))"

definition grant_statuses_for :: "datetime \<Rightarrow> broker \<Rightarrow> app_id \<Rightarrow> grant_status_view list" where
  "grant_statuses_for now b holder =
     map (\<lambda>grant. \<lparr>gsv_grant = grant, gsv_status =
         (if bt_contains (br_revoked b) (gr_grant_id grant) then StatusRevoked
          else if is_expired grant now then StatusExpired
          else StatusActive)\<rparr>)
       (filter (\<lambda>grant. gr_holder grant = holder) (bt_values (br_grants b)))"

definition durable_grants :: "broker \<Rightarrow> grant list" where
  "durable_grants b = bt_values (br_grants b)"

definition durable_revocations :: "broker \<Rightarrow> grant_id list" where
  "durable_revocations b = bs_elems (br_revoked b)"

definition restore_grant ::
    "(grant_id, grant) btree_map \<Rightarrow> grant \<Rightarrow> (grant_id, grant) btree_map kernel_result" where
  "restore_grant by_id grant =
     bind_r (grant_validate grant) (\<lambda>_.
       if bt_get by_id (gr_grant_id grant) = None
       then Ok (bt_insert (gr_grant_id grant) grant by_id)
       else Err (Durability ''duplicate grant id''))"

definition broker_restore :: "grant list \<Rightarrow> grant_id list \<Rightarrow> broker kernel_result" where
  "broker_restore grants revoked =
     bind_r (try_fold restore_grant bt_empty grants) (\<lambda>by_id.
       let revoked_set = bs_of_list revoked
       in if list_ex (\<lambda>grant_id. \<not> bt_contains by_id grant_id) (bs_elems revoked_set) then
            Err (Durability ''revocation references an unknown grant'')
          else Ok \<lparr>br_grants = by_id, br_revoked = revoked_set, br_secrets = bt_empty\<rparr>)"

definition broker_put_secret :: "broker \<Rightarrow> secret_ref \<Rightarrow> string \<Rightarrow> broker" where
  "broker_put_secret b secret_ref val = b\<lparr>br_secrets := bt_insert secret_ref val (br_secrets b)\<rparr>"

definition broker_clear_secret :: "broker \<Rightarrow> secret_ref \<Rightarrow> broker" where
  "broker_clear_secret b secret_ref = b\<lparr>br_secrets := bt_remove secret_ref (br_secrets b)\<rparr>"

definition clear_all_for :: "broker \<Rightarrow> app_id \<Rightarrow> broker" where
  "clear_all_for b owner = b\<lparr>br_secrets := bt_retain (\<lambda>r _. sr_owner r \<noteq> owner) (br_secrets b)\<rparr>"

definition secret_resolver_for :: "broker \<Rightarrow> app_id \<Rightarrow> secret_name list \<Rightarrow> secret_resolver" where
  "secret_resolver_for b owner declared =
     (let declared_set = bs_of_list declared
      in \<lparr>sv_declared = declared_set,
          sv_secrets = bt_of_list (map (\<lambda>(r, val). (sr_name r, val))
            (filter (\<lambda>(r, _). sr_owner r = owner \<and> bt_contains declared_set (sr_name r))
              (bt_entries (br_secrets b))))\<rparr>)"

section \<open>Invariant\<close>

definition broker_inv :: "broker \<Rightarrow> bool" where
  "broker_inv b \<longleftrightarrow>
     (\<forall>i g. bt_get (br_grants b) i = Some g \<longrightarrow> gr_grant_id g = i \<and> grant_validate g = Ok ()) \<and>
     (\<forall>i. bt_contains (br_revoked b) i \<longrightarrow> bt_contains (br_grants b) i)"

lemma broker_inv_new [simp]: "broker_inv broker_new"
  by (simp add: broker_inv_def broker_new_def)

lemma issue_never_panics:
  assumes "ds_validate (rq_data_scope request) = Ok ()"
  shows "\<exists>r b'. issue_with_decision now uuid b holder request origin decision = Ok (r, b')"
proof -
  have "grant_validate (grant_of_request now uuid holder request origin) = Ok ()"
    using assms by (auto simp: grant_validate_Ok_iff grant_of_request_def split: grant_duration.splits)
  then show ?thesis by (simp add: issue_with_decision_def Let_def)
qed

lemma issue_Ok_cases:
  assumes "issue_with_decision now uuid b holder request origin decision = Ok (r, b')"
  obtains "decision = DecisionDenied" "r = IssueRefused" "b' = b"
  | "decision = DecisionApproved" "r = Issued (grant_of_request now uuid holder request origin)"
    "grant_validate (grant_of_request now uuid holder request origin) = Ok ()"
    "b' = b\<lparr>br_grants := bt_insert (new_grant_id uuid)
        (grant_of_request now uuid holder request origin) (br_grants b)\<rparr>"
  using assms
  by (cases decision)
    (auto simp: issue_with_decision_def Let_def grant_of_request_def split: result.splits)

lemma issue_inv:
  assumes "broker_inv b" "issue_with_decision now uuid b holder request origin decision = Ok (r, b')"
  shows "broker_inv b'"
  using assms(2)
proof (cases rule: issue_Ok_cases)
  case 2
  moreover have "gr_grant_id (grant_of_request now uuid holder request origin) = new_grant_id uuid"
    by (simp add: grant_of_request_def)
  ultimately show ?thesis
    using assms(1) by (auto simp: broker_inv_def bt_get_insert split: if_splits)
qed (use assms in simp)

lemma revoke_inv: "broker_inv b \<Longrightarrow> broker_revoke b i = Ok b' \<Longrightarrow> broker_inv b'"
  by (auto simp: broker_inv_def broker_revoke_def split: if_splits)

lemma revoke_where_contains:
  "bt_contains (br_revoked (revoke_where p b)) i \<longleftrightarrow>
     bt_contains (br_revoked b) i \<or> (\<exists>g. bt_get (br_grants b) i = Some g \<and> p g)"
proof -
  have "bt_contains (foldl (\<lambda>revoked (i, g). if p g then bs_insert i revoked else revoked) s es) i \<longleftrightarrow>
      bt_contains s i \<or> (\<exists>g. (i, g) \<in> set es \<and> p g)" for s es
    by (induction es arbitrary: s) (auto split: if_splits)
  then show ?thesis by (simp add: revoke_where_def in_entries_iff)
qed

lemma revoke_where_frame [simp]:
  "br_grants (revoke_where p b) = br_grants b" "br_secrets (revoke_where p b) = br_secrets b"
  by (simp_all add: revoke_where_def)

lemma revoke_where_inv: "broker_inv b \<Longrightarrow> broker_inv (revoke_where p b)"
  by (auto simp: broker_inv_def revoke_where_contains bt_contains_iff[of "br_grants b"])

lemma secrets_inv [simp]: "broker_inv (b\<lparr>br_secrets := s\<rparr>) = broker_inv b"
  by (simp add: broker_inv_def)

lemma restore_grant_step:
  "restore_grant m g = bind_r (grant_validate g) (\<lambda>_.
     if bt_get m (gr_grant_id g) = None then Ok (bt_insert (gr_grant_id g) g m)
     else Err (Durability ''duplicate grant id''))"
  by (simp add: restore_grant_def)

lemma broker_restore_inv: "broker_restore grants revoked = Ok b \<Longrightarrow> broker_inv b"
  using btm.load_step_sound[of restore_grant, OF restore_grant_step, of bt_empty grants "br_grants b"]
  by (auto simp: broker_restore_def broker_inv_def bind_r_Ok_iff Let_def list_ex_iff split: if_splits)

lemma broker_roundtrip:
  assumes "broker_inv b"
  shows "broker_restore (durable_grants b) (durable_revocations b) = Ok (b\<lparr>br_secrets := bt_empty\<rparr>)"
proof -
  have "try_fold restore_grant bt_empty (map snd (bt_entries (br_grants b))) = Ok (br_grants b)"
    by (rule btm.load_roundtrip[OF restore_grant_step])
      (use assms in \<open>auto simp: broker_inv_def\<close>)
  with assms show ?thesis
    by (cases b) (auto simp: broker_restore_def durable_grants_def durable_revocations_def bt_values_def
        Let_def list_ex_iff broker_inv_def)
qed

section \<open>The decision of check\<close>

fun condition_rank :: "grant_condition \<Rightarrow> nat" where
  "condition_rank Silent = 0"
| "condition_rank Notify = 1"
| "condition_rank RequiresApproval = 2"

definition use_order :: "grant \<Rightarrow> nat \<times> datetime \<times> grant_id" where
  "use_order g = (condition_rank (gr_condition g), gr_issued_at g, gr_grant_id g)"

definition covers_request :: "app_id \<Rightarrow> capability_ref \<Rightarrow> data_scope \<Rightarrow> grant \<Rightarrow> bool" where
  "covers_request holder capability requested g \<longleftrightarrow>
     gr_holder g = holder \<and> scope_covers (gr_scope g) capability \<and>
     ds_covers (gr_data_scope g) requested"

definition known_grants :: "broker \<Rightarrow> grant set" where
  "known_grants b = {g. \<exists>i. bt_get (br_grants b) i = Some g}"

definition live_grants :: "broker \<Rightarrow> datetime \<Rightarrow> grant set" where
  "live_grants b now =
     {g\<in>known_grants b. \<not> bt_contains (br_revoked b) (gr_grant_id g) \<and> \<not> is_expired g now}"

lemma set_values: "set (bt_values (br_grants b)) = known_grants b"
  by (auto simp: in_values_iff known_grants_def)

definition check_candidates :: "datetime \<Rightarrow> broker \<Rightarrow> app_id \<Rightarrow> capability_ref \<Rightarrow> data_scope \<Rightarrow> grant list" where
  "check_candidates now b holder capability requested =
     sort_key (\<lambda>g. (gr_issued_at g, gr_grant_id g))
       (filter (\<lambda>g. \<not> is_expired g now)
         (filter (\<lambda>g. \<not> bt_contains (br_revoked b) (gr_grant_id g))
           (filter (covers_request holder capability requested) (bt_values (br_grants b)))))"

lemma set_check_candidates:
  "set (check_candidates now b h c d) = {g\<in>live_grants b now. covers_request h c d g}"
  by (auto simp: check_candidates_def live_grants_def set_values)

lemma sorted_check_candidates:
  "sorted (map (\<lambda>g. (gr_issued_at g, gr_grant_id g)) (check_candidates now b h c d))"
  by (simp add: check_candidates_def)

lemma check_unfold:
  "broker_check now b h c d =
     (if filter (covers_request h c d) (bt_values (br_grants b)) = [] then CheckDenied NoGrant
      else if filter (\<lambda>g. \<not> bt_contains (br_revoked b) (gr_grant_id g))
          (filter (covers_request h c d) (bt_values (br_grants b))) = [] then CheckDenied Revoked
      else case check_candidates now b h c d of
          [] \<Rightarrow> CheckDenied Expired
        | first # _ \<Rightarrow> (case List.find (\<lambda>g. gr_condition g = Silent) (check_candidates now b h c d) of
             Some g \<Rightarrow> CheckAllowed g
           | None \<Rightarrow> (case List.find (\<lambda>g. gr_condition g = Notify) (check_candidates now b h c d) of
               Some g \<Rightarrow> CheckAllowed g
             | None \<Rightarrow> CheckApprovalRequired first)))"
  unfolding broker_check_def check_candidates_def covers_request_def Let_def ..

lemma check_Denied_iff:
  "broker_check now b h c d = CheckDenied reason \<longleftrightarrow>
     \<not> (\<exists>g\<in>live_grants b now. covers_request h c d g) \<and>
     reason =
       (if \<not> (\<exists>g\<in>known_grants b. covers_request h c d g) then NoGrant
        else if \<forall>g\<in>known_grants b. covers_request h c d g \<longrightarrow> bt_contains (br_revoked b) (gr_grant_id g)
        then Revoked else Expired)"
proof -
  let ?cov = "filter (covers_request h c d) (bt_values (br_grants b))"
  let ?live = "filter (\<lambda>g. \<not> bt_contains (br_revoked b) (gr_grant_id g)) ?cov"
  have cov: "?cov = [] \<longleftrightarrow> \<not> (\<exists>g\<in>known_grants b. covers_request h c d g)"
    by (auto simp: filter_empty_conv set_values)
  have live: "?live = [] \<longleftrightarrow>
      (\<forall>g\<in>known_grants b. covers_request h c d g \<longrightarrow> bt_contains (br_revoked b) (gr_grant_id g))"
    by (auto simp: filter_empty_conv set_values)
  have cand: "check_candidates now b h c d = [] \<longleftrightarrow> \<not> (\<exists>g\<in>live_grants b now. covers_request h c d g)"
    using set_check_candidates[of now b h c d] by (metis (mono_tags, lifting) empty_Collect_eq set_empty2)
  have imp: "?cov = [] \<Longrightarrow> ?live = []" "?live = [] \<Longrightarrow> check_candidates now b h c d = []"
    by (simp_all add: check_candidates_def del: filter_filter)
  show ?thesis
    unfolding cov[symmetric] live[symmetric] cand[symmetric] check_unfold
    using imp
    by (cases "?cov = []"; cases "?live = []"; cases "check_candidates now b h c d")
      (simp_all split: option.splits add: eq_commute[of reason] del: filter_filter find.simps)
qed

lemma check_grant_minimal:
  assumes "broker_check now b h c d = CheckAllowed g \<or> broker_check now b h c d = CheckApprovalRequired g"
  shows "g \<in> live_grants b now" "covers_request h c d g"
    "\<And>g'. g' \<in> live_grants b now \<Longrightarrow> covers_request h c d g' \<Longrightarrow> use_order g \<le> use_order g'"
    "broker_check now b h c d =
       (if gr_condition g = RequiresApproval then CheckApprovalRequired g else CheckAllowed g)"
proof -
  let ?key = "\<lambda>g. (gr_issued_at g, gr_grant_id g)"
  let ?cs = "check_candidates now b h c d"
  note sorted = sorted_check_candidates[of now b h c d]
  have mem: "\<And>g'. g' \<in> set ?cs \<longleftrightarrow> g' \<in> live_grants b now \<and> covers_request h c d g'"
    by (simp add: set_check_candidates)
  have first_of: "g \<in> set ?cs \<and> gr_condition g = q \<and>
      (\<forall>g'\<in>set ?cs. gr_condition g' = q \<longrightarrow> ?key g \<le> ?key g')"
    if "List.find (\<lambda>g. gr_condition g = q) ?cs = Some g" for q
    using that find_SomeD[OF that] find_mapped_sorted_hd[OF sorted that] by auto
  have none: "\<forall>g'\<in>set ?cs. gr_condition g' \<noteq> q"
    if "List.find (\<lambda>g. gr_condition g = q) ?cs = None" for q
    using that by (simp add: find_None_all)
  consider
      (silent) "List.find (\<lambda>g. gr_condition g = Silent) ?cs = Some g"
        "broker_check now b h c d = CheckAllowed g"
    | (notify) "List.find (\<lambda>g. gr_condition g = Silent) ?cs = None"
        "List.find (\<lambda>g. gr_condition g = Notify) ?cs = Some g"
        "broker_check now b h c d = CheckAllowed g"
    | (approval) rest where "List.find (\<lambda>g. gr_condition g = Silent) ?cs = None"
        "List.find (\<lambda>g. gr_condition g = Notify) ?cs = None" "?cs = g # rest"
        "broker_check now b h c d = CheckApprovalRequired g"
    using assms by (auto simp: check_unfold split: if_splits list.splits option.splits)
  then have "g \<in> set ?cs \<and> (\<forall>g'\<in>set ?cs. use_order g \<le> use_order g') \<and>
    broker_check now b h c d =
       (if gr_condition g = RequiresApproval then CheckApprovalRequired g else CheckAllowed g)"
  proof cases
    case silent
    have "use_order g \<le> use_order g'" if "g' \<in> set ?cs" for g'
      using first_of[OF silent(1)] that
      by (cases "gr_condition g'") (auto simp: use_order_def)
    with first_of[OF silent(1)] silent(2) show ?thesis by auto
  next
    case notify
    have "use_order g \<le> use_order g'" if "g' \<in> set ?cs" for g'
      using first_of[OF notify(2)] none[OF notify(1)] that
      by (cases "gr_condition g'") (auto simp: use_order_def)
    with first_of[OF notify(2)] notify(3) show ?thesis by auto
  next
    case (approval rest)
    have all: "\<forall>g'\<in>set ?cs. gr_condition g' = RequiresApproval"
      using none[OF approval(1)] none[OF approval(2)] by (metis grant_condition.exhaust)
    have "\<forall>g'\<in>set ?cs. ?key g \<le> ?key g'"
      using sorted by (auto simp: approval(3))
    with all have "\<forall>g'\<in>set ?cs. use_order g \<le> use_order g'"
      by (auto simp: use_order_def approval(3))
    with all approval show ?thesis by auto
  qed
  then show "g \<in> live_grants b now" "covers_request h c d g"
    "\<And>g'. g' \<in> live_grants b now \<Longrightarrow> covers_request h c d g' \<Longrightarrow> use_order g \<le> use_order g'"
    "broker_check now b h c d =
       (if gr_condition g = RequiresApproval then CheckApprovalRequired g else CheckAllowed g)"
    by (auto simp: mem)
qed

text \<open>
  What the action path relies on: the decision returns a live covering grant, and denies only
  when there is none.
\<close>

locale grant_authority =
  fixes live :: "'b \<Rightarrow> datetime \<Rightarrow> grant set"
    and decide :: "datetime \<Rightarrow> 'b \<Rightarrow> app_id \<Rightarrow> capability_ref \<Rightarrow> data_scope \<Rightarrow> grant_check"
  assumes granted: "decide now b h c d = CheckAllowed g \<or> decide now b h c d = CheckApprovalRequired g \<Longrightarrow>
      g \<in> live b now \<and> covers_request h c d g \<and>
      decide now b h c d =
        (if gr_condition g = RequiresApproval then CheckApprovalRequired g else CheckAllowed g)"
    and denied: "decide now b h c d = CheckDenied reason \<Longrightarrow>
      g \<in> live b now \<Longrightarrow> \<not> covers_request h c d g"
begin

lemma denied_iff: "(\<exists>reason. decide now b h c d = CheckDenied reason) \<longleftrightarrow>
    (\<forall>g\<in>live b now. \<not> covers_request h c d g)"
  by (cases "decide now b h c d") (use granted denied in blast)+

lemma less_authority_denies:
  assumes "live b' now' \<subseteq> live b now" "decide now b h c d = CheckDenied reason"
  shows "\<exists>reason'. decide now' b' h c d = CheckDenied reason'"
  using assms denied_iff[of now b h c d] denied_iff[of now' b' h c d] by blast

lemma holder_without_grants:
  "(\<forall>g\<in>live b now. gr_holder g \<noteq> h) \<Longrightarrow> \<exists>reason. decide now b h c d = CheckDenied reason"
  by (auto simp: denied_iff covers_request_def)

lemma provider_without_grants:
  "(\<forall>g\<in>live b now. scope_provider (gr_scope g) \<noteq> cr_provider c) \<Longrightarrow>
     \<exists>reason. decide now b h c d = CheckDenied reason"
  by (auto simp: denied_iff covers_request_def dest: scope_covers_provider)

end

interpretation authority: grant_authority live_grants broker_check
proof
  fix now b h c d g reason
  { assume "broker_check now b h c d = CheckAllowed g \<or> broker_check now b h c d = CheckApprovalRequired g"
    from check_grant_minimal[OF this] show "g \<in> live_grants b now \<and> covers_request h c d g \<and>
      broker_check now b h c d =
        (if gr_condition g = RequiresApproval then CheckApprovalRequired g else CheckAllowed g)"
      by blast }
  { assume "broker_check now b h c d = CheckDenied reason" "g \<in> live_grants b now"
    then show "\<not> covers_request h c d g" by (auto simp: check_Denied_iff) }
qed

section \<open>Revocation and expiry only take authority away\<close>

lemma live_grants_later: "now \<le> later \<Longrightarrow> live_grants b later \<subseteq> live_grants b now"
  by (auto simp: live_grants_def dest: is_expired_mono)

lemma live_grants_revoke:
  "broker_revoke b i = Ok b' \<Longrightarrow> live_grants b' now = {g\<in>live_grants b now. gr_grant_id g \<noteq> i}"
  by (auto simp: broker_revoke_def live_grants_def known_grants_def split: if_splits)

lemma live_grants_revoke_where:
  assumes "broker_inv b"
  shows "live_grants (revoke_where p b) now = {g\<in>live_grants b now. \<not> p g}"
proof -
  have id: "bt_get (br_grants b) (gr_grant_id g) = Some g" if "bt_get (br_grants b) i = Some g" for i g
    using assms that by (auto simp: broker_inv_def)
  show ?thesis
    by (auto simp: live_grants_def known_grants_def revoke_where_contains dest: id)
qed

lemma live_grants_secrets [simp]: "live_grants (b\<lparr>br_secrets := s\<rparr>) now = live_grants b now"
  by (simp add: live_grants_def known_grants_def)

lemma grants_for_live:
  "g \<in> set (grants_for now b h) \<longleftrightarrow> g \<in> live_grants b now \<and> gr_holder g = h"
  by (auto simp: grants_for_def live_grants_def set_values)

lemma grant_statuses_active:
  assumes "v \<in> set (grant_statuses_for now b h)"
  shows "gsv_status v = StatusActive \<longleftrightarrow> gsv_grant v \<in> live_grants b now"
  using assms by (auto simp: grant_statuses_for_def live_grants_def set_values split: if_splits)

section \<open>Secrets\<close>

lemma secret_resolver_spec:
  "secret_resolve (secret_resolver_for b owner declared) name =
     (if name \<notin> set declared then Err (UndeclaredSecret name)
      else ok_or (UnknownSecret name) (bt_get (br_secrets b) (SecretRef owner name)))"
proof (cases "name \<in> set declared")
  case True
  let ?p = "\<lambda>(r, _). sr_owner r = owner \<and> bt_contains (bs_of_list declared) (sr_name r)"
  let ?es = "map (\<lambda>(r, v). (sr_name r, v)) (filter ?p (bt_entries (br_secrets b)))"
  have "inj_on sr_name (fst ` set (filter ?p (bt_entries (br_secrets b))))"
    by (auto simp: inj_on_def intro: secret_ref.expand)
  moreover have "distinct (map fst (filter ?p (bt_entries (br_secrets b))))"
    by (rule distinct_map_filter) simp
  ultimately have "distinct (map sr_name (map fst (filter ?p (bt_entries (br_secrets b)))))"
    by (subst distinct_map) simp
  then have dist: "distinct (map fst ?es)"
    by (simp add: comp_def split_def)
  have mem: "(name, v) \<in> set ?es \<longleftrightarrow> bt_get (br_secrets b) (SecretRef owner name) = Some v" for v
  proof
    assume "(name, v) \<in> set ?es"
    then obtain r where "bt_get (br_secrets b) r = Some v" "sr_owner r = owner" "sr_name r = name"
      by (auto simp: in_entries_iff)
    then show "bt_get (br_secrets b) (SecretRef owner name) = Some v" by (cases r) simp
  next
    assume "bt_get (br_secrets b) (SecretRef owner name) = Some v"
    then have "(SecretRef owner name, v) \<in> set (filter ?p (bt_entries (br_secrets b)))"
      using True by (simp add: in_entries_iff)
    then show "(name, v) \<in> set ?es" unfolding set_map by (rule rev_image_eqI) simp
  qed
  have "map_of (rev ?es) name = bt_get (br_secrets b) (SecretRef owner name)"
    unfolding map_of_rev_unique[OF dist]
    by (rule option_ext) (simp only: map_of_eq_Some_iff[OF dist] mem)
  with True show ?thesis
    by (simp add: secret_resolve_def secret_resolver_for_def Let_def bt_get_of_list del: rev_map)
qed (simp add: secret_resolve_def secret_resolver_for_def Let_def)

lemma cleared_secrets:
  "bt_get (br_secrets (clear_all_for b owner)) r =
     (if sr_owner r = owner then None else bt_get (br_secrets b) r)"
  by (auto simp: clear_all_for_def bt_get_retain split: option.splits)

section \<open>What the broker guarantees\<close>

text \<open>
  C18: a check decides by the grants that are live now, i.e. neither revoked nor expired, and
  cover the request of this holder for this capability and this data scope. It denies exactly
  when there is none, and then names the reason: no such grant was ever issued, every such
  grant is revoked, or one has expired. Otherwise it picks the grant that asks least of the
  user (silent before notify before approval, then oldest, then smallest id), and demands an
  approval exactly when that grant does.
\<close>

theorem check_decides:
  "(let usable = {g\<in>live_grants b now. covers_request h c d g};
        issued = {g\<in>known_grants b. covers_request h c d g} in
    case broker_check now b h c d of
      CheckDenied reason \<Rightarrow> usable = {} \<and>
        reason = (if issued = {} then NoGrant
                  else if issued \<subseteq> {g. bt_contains (br_revoked b) (gr_grant_id g)} then Revoked else Expired)
    | CheckAllowed g \<Rightarrow> is_arg_min use_order (\<lambda>g. g \<in> usable) g \<and> gr_condition g \<noteq> RequiresApproval
    | CheckApprovalRequired g \<Rightarrow> is_arg_min use_order (\<lambda>g. g \<in> usable) g \<and> gr_condition g = RequiresApproval)"
proof (cases "broker_check now b h c d")
  case (CheckDenied reason)
  from check_Denied_iff[THEN iffD1, OF this] show ?thesis
    by (auto simp: CheckDenied Let_def)
next
  case (CheckAllowed g)
  note min = check_grant_minimal[OF disjI1, OF CheckAllowed]
  from min show ?thesis by (force simp: CheckAllowed Let_def is_arg_min_linorder split: if_splits)
next
  case (CheckApprovalRequired g)
  note min = check_grant_minimal[OF disjI2, OF CheckApprovalRequired]
  from min show ?thesis by (force simp: CheckApprovalRequired Let_def is_arg_min_linorder split: if_splits)
qed

definition sample_grant :: "grant_id \<Rightarrow> app_id \<Rightarrow> grant_condition \<Rightarrow> grant" where
  "sample_grant i a cond =
     \<lparr>gr_grant_id = i, gr_holder = a, gr_scope = ExactCapability a ''save'', gr_data_scope = AllResources,
      gr_condition = cond, gr_origin = UserAdded, gr_issued_at = 1, gr_expires_at = None\<rparr>"

definition sample_broker :: broker where
  "sample_broker =
     \<lparr>br_grants = bt_of_list [(''g1'', sample_grant ''g1'' ''notes'' Silent),
        (''g2'', sample_grant ''g2'' ''mail'' Notify)],
      br_revoked = bt_empty, br_secrets = bt_of_list [(SecretRef ''notes'' ''token'', ''s'')]\<rparr>"

text \<open>
  C19: authority only shrinks without a new grant. After revoking a grant, every request that
  was denied stays denied, now and at any later time, and the revoked grant is never chosen again.
\<close>

theorem revocation_is_final:
  assumes "broker_revoke b i = Ok b'" "now \<le> later"
  shows "(\<forall>reason. broker_check now b h c d = CheckDenied reason \<longrightarrow>
           (\<exists>reason'. broker_check later b' h c d = CheckDenied reason')) \<and>
    (\<forall>g. broker_check later b' h c d = CheckAllowed g \<or> broker_check later b' h c d = CheckApprovalRequired g \<longrightarrow>
       gr_grant_id g \<noteq> i)"
proof -
  have live: "live_grants b' later = {g\<in>live_grants b later. gr_grant_id g \<noteq> i}"
    by (rule live_grants_revoke[OF assms(1)])
  then have "live_grants b' later \<subseteq> live_grants b now"
    using live_grants_later[OF assms(2), of b] by blast
  from authority.less_authority_denies[OF this] authority.granted[of later b' h c d] live
  show ?thesis by blast
qed

theorem revocation_is_final_witness:
  "\<exists>b'. broker_revoke sample_broker ''g1'' = Ok b' \<and>
     broker_check 5 sample_broker ''mail'' (CapabilityRef ''notes'' ''save'') ScopeNone = CheckDenied NoGrant \<and>
     (\<exists>reason'. broker_check 9 b' ''mail'' (CapabilityRef ''notes'' ''save'') ScopeNone = CheckDenied reason')"
proof -
  have "is_ok (broker_revoke sample_broker ''g1'')" by code_simp
  then obtain b' where b': "broker_revoke sample_broker ''g1'' = Ok b'" by (auto simp: is_ok_iff)
  have "broker_check 5 sample_broker ''mail'' (CapabilityRef ''notes'' ''save'') ScopeNone = CheckDenied NoGrant"
    by code_simp
  with b' revocation_is_final[OF b', of 5 9] show ?thesis by fastforce
qed

text \<open>
  A resolver handed to a handler gives a secret only if its name was declared, and then only
  the secret stored under its own app: whatever other apps store or clear has no influence on
  what it returns.
\<close>

theorem secrets_are_partitioned:
  "secret_resolve (secret_resolver_for b owner declared) name =
     (if name \<notin> set declared then Err (UndeclaredSecret name)
      else ok_or (UnknownSecret name) (bt_get (br_secrets b) (SecretRef owner name))) \<and>
   secret_resolve (secret_resolver_for (broker_put_secret b (SecretRef other n) v) owner declared) name =
     (if other = owner \<and> n = name \<and> name \<in> set declared then Ok v
      else secret_resolve (secret_resolver_for b owner declared) name) \<and>
   secret_resolve (secret_resolver_for (clear_all_for b other) owner declared) name =
     (if other = owner \<and> name \<in> set declared then Err (UnknownSecret name)
      else secret_resolve (secret_resolver_for b owner declared) name)"
  by (auto simp: secret_resolver_spec cleared_secrets broker_put_secret_def bt_get_insert)

end
