(* ===== verification/Artifacts.thy ===== *)
theory Artifacts
  imports Manifest
begin

text \<open>
  \<open>crates/kernel/src/services/artifacts.rs\<close>: the artifact store and the read-only snapshot a
  handler gets of the artifacts its invocation names. Shown: a snapshot holds exactly the
  named artifacts, following the page cursors enumerates the snapshot once and in order, and
  the store survives being written out and read back.
\<close>

definition max_artifact_snapshot_items :: nat where
  "max_artifact_snapshot_items = 50"

definition max_artifact_content_bytes :: nat where
  "max_artifact_content_bytes = 64 * 1024"

record artifact_snapshot_resolver =
  sn_artifacts :: "(artifact_id, artifact) btree_map"

record artifact_snapshot_summary =
  ss_artifact_id :: artifact_id
  ss_artifact_type :: artifact_type_name
  ss_title :: string
  ss_provenance :: provenance

record artifact_snapshot_page =
  pg_items :: "artifact_snapshot_summary list"
  pg_next_cursor :: "string option"

record artifact_snapshot =
  as_artifact_id :: artifact_id
  as_artifact_type :: artifact_type_name
  as_title :: string
  as_content :: json
  as_provenance :: provenance

record artifact_store =
  st_artifacts :: "(artifact_id, artifact) btree_map"

definition artifact_store_new :: artifact_store where
  "artifact_store_new = \<lparr>st_artifacts = bt_empty\<rparr>"

definition put_all :: "artifact_store \<Rightarrow> artifact list \<Rightarrow> artifact_store" where
  "put_all st artifacts =
     foldl (\<lambda>st a. st\<lparr>st_artifacts := bt_insert (at_artifact_id a) a (st_artifacts st)\<rparr>) st artifacts"

definition artifact_get :: "artifact_store \<Rightarrow> artifact_id \<Rightarrow> artifact kernel_result" where
  "artifact_get st artifact_id = ok_or (UnknownArtifact artifact_id) (bt_get (st_artifacts st) artifact_id)"

definition artifact_all :: "artifact_store \<Rightarrow> artifact list" where
  "artifact_all st = bt_values (st_artifacts st)"

definition snapshot_resolver_for :: "artifact_store \<Rightarrow> data_scope \<Rightarrow> artifact_snapshot_resolver" where
  "snapshot_resolver_for st data_scope =
     \<lparr>sn_artifacts = (case data_scope of
        Resources resource_ids \<Rightarrow>
          bt_of_list (List.map_filter (\<lambda>i. map_option (\<lambda>a. (i, a)) (bt_get (st_artifacts st) i)) resource_ids)
      | _ \<Rightarrow> bt_empty)\<rparr>"

definition restore_artifact ::
    "(artifact_id, artifact) btree_map \<Rightarrow> artifact \<Rightarrow> (artifact_id, artifact) btree_map kernel_result" where
  "restore_artifact m a =
     (if bt_contains m (at_artifact_id a) then
        Err (Durability (''duplicate artifact id '' @ quoted (at_artifact_id a)))
      else Ok (bt_insert (at_artifact_id a) a m))"

definition artifact_restore :: "artifact list \<Rightarrow> artifact_store kernel_result" where
  "artifact_restore artifacts =
     map_ok (\<lambda>m. \<lparr>st_artifacts = m\<rparr>) (try_fold restore_artifact bt_empty artifacts)"

text \<open>\<open>str::parse::<usize>\<close>: an optional plus sign and decimal digits whose value fits.\<close>

definition is_digit :: "char \<Rightarrow> bool" where
  "is_digit c = (48 \<le> (of_char c :: nat) \<and> (of_char c :: nat) \<le> 57)"

definition parse_usize :: "string \<Rightarrow> nat option" where
  "parse_usize s =
     (let digits = (case s of CHR ''+'' # d # ds \<Rightarrow> d # ds | _ \<Rightarrow> s);
          val = foldl (\<lambda>n c. n * 10 + (of_char c - 48)) 0 digits
      in if digits = [] \<or> \<not> list_all is_digit digits then None
         else if val < 2 ^ 64 then Some val else None)"

definition summary_of :: "artifact \<Rightarrow> artifact_snapshot_summary" where
  "summary_of a = \<lparr>ss_artifact_id = at_artifact_id a, ss_artifact_type = at_artifact_type a,
     ss_title = at_title a, ss_provenance = at_provenance a\<rparr>"

definition snapshot_items :: "artifact_snapshot_resolver \<Rightarrow> artifact_snapshot_summary list" where
  "snapshot_items resolver = sort_key ss_artifact_id (map summary_of (bt_values (sn_artifacts resolver)))"

definition snapshot_query ::
    "artifact_snapshot_resolver \<Rightarrow> string option \<Rightarrow> nat \<Rightarrow> artifact_snapshot_page kernel_result" where
  "snapshot_query resolver cursor limit =
     (if limit = 0 \<or> limit > max_artifact_snapshot_items then
        Err (Durability ''invalid artifact page size'')
      else let items = snapshot_items resolver in
        bind_r (case cursor of
            None \<Rightarrow> Ok 0
          | Some val \<Rightarrow>
              bind_r (ok_or (Durability ''invalid artifact page cursor'') (parse_usize val)) (\<lambda>parsed.
                if parsed > length items then Err (Durability ''invalid artifact page cursor'')
                else Ok parsed)) (\<lambda>start.
        let stop = min (start + limit) (length items)
        in Ok \<lparr>pg_items = take (stop - start) (drop start items),
               pg_next_cursor = (if stop < length items then Some (string_of_nat stop) else None)\<rparr>))"

definition snapshot_read ::
    "externals \<Rightarrow> artifact_snapshot_resolver \<Rightarrow> artifact_id \<Rightarrow> artifact_snapshot kernel_result" where
  "snapshot_read x resolver artifact_id =
     bind_r (ok_or (UnknownArtifact artifact_id) (bt_get (sn_artifacts resolver) artifact_id)) (\<lambda>a.
     bind_r (map_err Durability (x_json_bytes x (at_content a))) (\<lambda>content_bytes.
     if length content_bytes > max_artifact_content_bytes then
       Err (Durability ''artifact content exceeds snapshot bound'')
     else Ok \<lparr>as_artifact_id = at_artifact_id a, as_artifact_type = at_artifact_type a,
              as_title = at_title a, as_content = at_content a, as_provenance = at_provenance a\<rparr>))"

section \<open>The store\<close>

definition artifacts_inv :: "artifact_store \<Rightarrow> bool" where
  "artifacts_inv st \<longleftrightarrow> (\<forall>i a. bt_get (st_artifacts st) i = Some a \<longrightarrow> at_artifact_id a = i)"

lemma artifacts_inv_new [simp]: "artifacts_inv artifact_store_new"
  by (simp add: artifacts_inv_def artifact_store_new_def)

lemma put_all_insert_all:
  "st_artifacts (put_all st artifacts) =
     bt_insert_all (st_artifacts st) (map (\<lambda>a. (at_artifact_id a, a)) artifacts)"
  unfolding put_all_def
  by (induction artifacts arbitrary: st) simp_all

lemma put_all_Nil [simp]: "put_all st [] = st"
  by (simp add: put_all_def)

lemma put_all_inv: "artifacts_inv st \<Longrightarrow> artifacts_inv (put_all st artifacts)"
  by (auto simp: artifacts_inv_def put_all_insert_all bt_get_insert_all
      dest: map_of_SomeD split: option.splits)

lemma put_all_get:
  assumes "distinct (map at_artifact_id artifacts)"
  shows "bt_get (st_artifacts (put_all st artifacts)) i =
    (case List.find (\<lambda>a. at_artifact_id a = i) artifacts of
       Some a \<Rightarrow> Some a | None \<Rightarrow> bt_get (st_artifacts st) i)"
proof -
  have "map_of (map (\<lambda>a. (at_artifact_id a, a)) artifacts) i =
      List.find (\<lambda>a. at_artifact_id a = i) artifacts"
    by (induction artifacts) auto
  moreover have "distinct (map fst (map (\<lambda>a. (at_artifact_id a, a)) artifacts))"
    using assms by (simp add: comp_def)
  ultimately show ?thesis
    unfolding put_all_insert_all bt_get_insert_all by (simp only: map_of_rev_unique)
qed

lemma restore_artifact_step:
  "restore_artifact m a = bind_r (Ok ()) (\<lambda>_.
     if bt_get m (at_artifact_id a) = None then Ok (bt_insert (at_artifact_id a) a m)
     else Err (Durability (''duplicate artifact id '' @ quoted (at_artifact_id a))))"
  by (simp add: restore_artifact_def bt_contains_def)

lemma artifact_restore_inv: "artifact_restore artifacts = Ok st \<Longrightarrow> artifacts_inv st"
  using btm.load_step_sound[of restore_artifact, OF restore_artifact_step, of bt_empty artifacts "st_artifacts st"]
  by (auto simp: artifact_restore_def artifacts_inv_def)

lemma artifact_roundtrip:
  assumes "artifacts_inv st"
  shows "artifact_restore (artifact_all st) = Ok st"
proof -
  have "try_fold restore_artifact bt_empty (map snd (bt_entries (st_artifacts st))) = Ok (st_artifacts st)"
    by (rule btm.load_roundtrip[OF restore_artifact_step])
      (use assms in \<open>auto simp: artifacts_inv_def\<close>)
  then show ?thesis
    by (simp add: artifact_restore_def artifact_all_def bt_values_def)
qed

section \<open>Snapshots\<close>

lemma snapshot_get:
  "bt_get (sn_artifacts (snapshot_resolver_for st d)) i =
     (case d of Resources ids \<Rightarrow> if i \<in> set ids then bt_get (st_artifacts st) i else None | _ \<Rightarrow> None)"
proof -
  have "map_of (List.map_filter (\<lambda>i. map_option (\<lambda>a. (i, a)) (bt_get (st_artifacts st) i)) ids) i =
      (if i \<in> set ids then bt_get (st_artifacts st) i else None)" for ids
    by (induction ids) (auto simp: List.map_filter_simps split: option.splits)
  moreover have "rev (List.map_filter f ids) = List.map_filter f (rev ids)"
    for f :: "string \<Rightarrow> (string \<times> artifact) option" and ids
    by (simp add: List.map_filter_def rev_map rev_filter)
  ultimately show ?thesis
    by (cases d) (simp_all add: snapshot_resolver_for_def bt_get_of_list)
qed

lemma snapshot_read_scoped:
  assumes "snapshot_read x (snapshot_resolver_for st d) i = Ok s"
  obtains ids a where "d = Resources ids" "i \<in> set ids" "bt_get (st_artifacts st) i = Some a"
    "as_content s = at_content a" "as_provenance s = at_provenance a"
  using assms
  by (auto simp: snapshot_read_def bind_r_Ok_iff snapshot_get split: data_scope.splits if_splits)

section \<open>Paging\<close>

lemma digit_of: "n < 10 \<Longrightarrow> is_digit (char_of (48 + n)) \<and> (of_char (char_of (48 + n)) :: nat) = 48 + n"
  by (simp add: is_digit_def of_char_of)

lemma string_of_nat_digits:
  "string_of_nat n \<noteq> [] \<and> list_all is_digit (string_of_nat n) \<and>
     foldl (\<lambda>m c. m * 10 + (of_char c - 48)) 0 (string_of_nat n) = n"
proof (induction n rule: string_of_nat.induct)
  case (1 n)
  show ?case
  proof (cases "n < 10")
    case True
    then have "string_of_nat n = [char_of (48 + n)]"
      by (subst string_of_nat.simps) simp
    then show ?thesis using digit_of[OF True] by simp
  next
    case False
    have "n mod 10 < 10" by simp
    note d = digit_of[OF this]
    have s: "string_of_nat n = string_of_nat (n div 10) @ [char_of (48 + n mod 10)]"
      by (subst string_of_nat.simps) (simp add: False)
    show ?thesis using 1[OF False] d by (simp only: s foldl_append) simp
  qed
qed

lemma parse_string_of_nat: "n < 2 ^ 64 \<Longrightarrow> parse_usize (string_of_nat n) = Some n"
proof -
  assume n: "n < 2 ^ 64"
  note digits = string_of_nat_digits[of n]
  then have "\<not> (\<exists>ds. string_of_nat n = CHR ''+'' # ds)"
    by (auto simp: is_digit_def)
  then have "(case string_of_nat n of CHR ''+'' # d # ds \<Rightarrow> d # ds | _ \<Rightarrow> string_of_nat n) = string_of_nat n"
    by (auto split: list.splits char.splits bool.splits)
  with digits n show ?thesis unfolding parse_usize_def by simp
qed

text \<open>A client that follows the cursors, with fuel for the number of pages.\<close>

fun follow_pages ::
    "nat \<Rightarrow> artifact_snapshot_resolver \<Rightarrow> string option \<Rightarrow> nat \<Rightarrow> artifact_snapshot_summary list kernel_result option" where
  "follow_pages 0 resolver cursor limit = None"
| "follow_pages (Suc fuel) resolver cursor limit =
     (case snapshot_query resolver cursor limit of
        Err e \<Rightarrow> Some (Err e)
      | Ok page \<Rightarrow>
          (case pg_next_cursor page of
             None \<Rightarrow> Some (Ok (pg_items page))
           | Some next \<Rightarrow> map_option (map_ok (\<lambda>rest. pg_items page @ rest))
               (follow_pages fuel resolver (Some next) limit)))"

lemma snapshot_query_at:
  assumes "0 < limit" "limit \<le> max_artifact_snapshot_items" "start \<le> length (snapshot_items r)"
    "cursor = None \<and> start = 0 \<or> cursor = Some (string_of_nat start) \<and> start < 2 ^ 64"
  shows "snapshot_query r cursor limit =
    Ok \<lparr>pg_items = take limit (drop start (snapshot_items r)),
       pg_next_cursor = (if start + limit < length (snapshot_items r)
         then Some (string_of_nat (start + limit)) else None)\<rparr>"
  using assms
  by (auto simp: snapshot_query_def Let_def parse_string_of_nat min_def)

lemma follow_pages_from:
  assumes "0 < limit" "limit \<le> max_artifact_snapshot_items" "length (snapshot_items r) < 2 ^ 64"
  shows "start \<le> length (snapshot_items r) \<Longrightarrow>
    cursor = None \<and> start = 0 \<or> cursor = Some (string_of_nat start) \<Longrightarrow>
    length (snapshot_items r) - start < fuel \<Longrightarrow>
    follow_pages fuel r cursor limit = Some (Ok (drop start (snapshot_items r)))"
proof (induction fuel arbitrary: start cursor)
  case (Suc fuel)
  let ?items = "snapshot_items r"
  from Suc.prems assms have q: "snapshot_query r cursor limit =
    Ok \<lparr>pg_items = take limit (drop start ?items),
       pg_next_cursor = (if start + limit < length ?items
         then Some (string_of_nat (start + limit)) else None)\<rparr>"
    by (intro snapshot_query_at) auto
  show ?case
  proof (cases "start + limit < length ?items")
    case True
    have "follow_pages fuel r (Some (string_of_nat (start + limit))) limit =
        Some (Ok (drop (start + limit) ?items))"
      using Suc.prems True assms(1) by (intro Suc.IH) auto
    moreover have "take limit (drop start ?items) @ drop (start + limit) ?items = drop start ?items"
      by (metis append_take_drop_id drop_drop add.commute)
    ultimately show ?thesis using True by (simp add: q)
  next
    case False
    then show ?thesis by (simp add: q)
  qed
qed simp

section \<open>What a snapshot guarantees\<close>

text \<open>
  C21: a client that starts without a cursor and follows the cursors it is given receives every
  artifact of its snapshot exactly once, in order of the ids, whatever legal page size it asks
  for; with one page per artifact as fuel the iteration ends.
\<close>

theorem pages_enumerate:
  assumes "0 < limit" "limit \<le> max_artifact_snapshot_items" "length (snapshot_items r) < 2 ^ 64"
  shows "follow_pages (Suc (length (snapshot_items r))) r None limit = Some (Ok (snapshot_items r)) \<and>
    sorted (map ss_artifact_id (snapshot_items r))"
proof
  show "follow_pages (Suc (length (snapshot_items r))) r None limit = Some (Ok (snapshot_items r))"
    using follow_pages_from[OF assms, of 0 None "Suc (length (snapshot_items r))"]
    by (simp del: follow_pages.simps)
qed (simp add: snapshot_items_def)

definition sample_artifact :: "artifact_id \<Rightarrow> artifact" where
  "sample_artifact i =
     \<lparr>at_artifact_id = i, at_artifact_type = ''note'', at_title = ''t'', at_content = JNull,
      at_provenance = \<lparr>pv_run_id = ''r'', pv_capability = CapabilityRef ''notes'' ''save'',
        pv_grant_id = ''g1'', pv_produced_by = ''notes'', pv_recorded_at = 1\<rparr>\<rparr>"

definition sample_snapshot :: artifact_snapshot_resolver where
  "sample_snapshot =
     snapshot_resolver_for (put_all artifact_store_new (map sample_artifact [''b'', ''a'', ''c'']))
       (Resources [''a'', ''b'', ''c''])"

theorem pages_enumerate_witness:
  "length (snapshot_items sample_snapshot) = 3 \<and>
   follow_pages (Suc 3) sample_snapshot None 2 = Some (Ok (snapshot_items sample_snapshot))"
proof -
  have n: "length (snapshot_items sample_snapshot) = 3" by code_simp
  have "2 \<le> max_artifact_snapshot_items" by (simp add: max_artifact_snapshot_items_def)
  from pages_enumerate[OF _ this, of sample_snapshot] n show ?thesis by (simp del: follow_pages.simps)
qed

text \<open>
  C22: a snapshot lets a handler read exactly the artifacts its authorized data scope names and
  the store holds; a scope of no resources or of all resources exposes none.
\<close>

theorem snapshot_exposes_scope:
  "snapshot_read x (snapshot_resolver_for st d) i =
     (case d of
        Resources ids \<Rightarrow> if i \<in> set ids then snapshot_read x \<lparr>sn_artifacts = st_artifacts st\<rparr> i
                         else Err (UnknownArtifact i)
      | _ \<Rightarrow> Err (UnknownArtifact i))"
  by (auto simp: snapshot_read_def snapshot_get split: data_scope.splits)

end
