(* ===== verification/Invocation.thy ===== *)
theory Invocation
  imports Broker Artifacts
begin

text \<open>
  \<open>crates/kernel/src/invocation.rs\<close>: what passes between the kernel and the code of a provider.
  A handler is a function from the validated input and its context to what it returned (or the
  text of its panic) and whether it asked for its own cancellation. An \<open>Arc<AtomicBool>\<close> is a
  cell of a store of flags, named by the id of the invocation that owns it; a monotonic
  \<open>Instant\<close> is a number of nanoseconds and \<open>duration_since\<close> saturates at zero.
\<close>

type_synonym instant = int
type_synonym cancel_flags = "u64 \<Rightarrow> bool"

record cancellation_handle =
  ca_cell :: u64
  ca_deadline :: instant

definition cancel :: "cancellation_handle \<Rightarrow> cancel_flags \<Rightarrow> cancel_flags" where
  "cancel handle flags = flags(ca_cell handle := True)"

definition is_cancelled :: "instant \<Rightarrow> cancellation_handle \<Rightarrow> cancel_flags \<Rightarrow> bool \<times> cancel_flags" where
  "is_cancelled now handle flags =
     (let flags = (if now \<ge> ca_deadline handle then cancel handle flags else flags)
      in (flags (ca_cell handle), flags))"

section \<open>Progress\<close>

record progress_reporter =
  pr_report :: "json \<Rightarrow> (unit, unit) result"
  pr_cancellation :: "cancellation_handle option"

datatype progress_report_status = Emitted | Invalid | Oversized | ConsumerGone

definition max_progress_event_bytes :: nat where
  "max_progress_event_bytes = 64 * 1024"

definition max_progress_kind_bytes :: nat where
  "max_progress_kind_bytes = 64"

definition min_progress_interval :: int where
  "min_progress_interval = 8333000"

definition default_reporter :: progress_reporter where
  "default_reporter = \<lparr>pr_report = (\<lambda>_. Ok ()), pr_cancellation = None\<rparr>"

definition with_cancellation :: "progress_reporter \<Rightarrow> cancellation_handle \<Rightarrow> progress_reporter" where
  "with_cancellation reporter handle = reporter\<lparr>pr_cancellation := Some handle\<rparr>"

fun progress_kind :: "json \<Rightarrow> string option" where
  "progress_kind (JObject members) = (case map_of members ''kind'' of Some (JString s) \<Rightarrow> Some s | _ \<Rightarrow> None)"
| "progress_kind _ = None"

fun is_object :: "json \<Rightarrow> bool" where
  "is_object (JObject _) = True"
| "is_object _ = False"

text \<open>
  The state is the last emission and the flags. \<open>now\<close> is the clock read before the sleep and
  \<open>woken\<close> the one read after it; the second component is how long the thread sleeps.
\<close>

definition progress_report ::
    "externals \<Rightarrow> progress_reporter \<Rightarrow> instant \<Rightarrow> instant \<Rightarrow> json \<Rightarrow> instant option \<Rightarrow> cancel_flags
      \<Rightarrow> progress_report_status \<times> int \<times> instant option \<times> cancel_flags" where
  "progress_report x reporter now woken val last_emitted flags =
     (let valid_kind = (case progress_kind val of
            None \<Rightarrow> False
          | Some kind \<Rightarrow> kind \<noteq> [] \<and> length kind \<le> max_progress_kind_bytes)
      in if \<not> is_object val \<or> \<not> valid_kind then (Invalid, 0, last_emitted, flags)
         else if (case x_json_bytes x val of
                    Ok bytes \<Rightarrow> length bytes > max_progress_event_bytes
                  | Err _ \<Rightarrow> True) then (Oversized, 0, last_emitted, flags)
         else let sleep = (case last_emitted of
                      None \<Rightarrow> 0
                    | Some prev \<Rightarrow>
                        let elapsed = max 0 (now - prev) in
                        if elapsed \<le> min_progress_interval
                        then min_progress_interval - elapsed else 0)
              in case pr_report reporter val of
                   Err _ \<Rightarrow> (ConsumerGone, sleep, Some woken,
                     (case pr_cancellation reporter of
                        Some handle \<Rightarrow> cancel handle flags
                      | None \<Rightarrow> flags))
                 | Ok _ \<Rightarrow> (Emitted, sleep, Some woken, flags))"

section \<open>Handlers and results\<close>

record invocation_context =
  ic_run_id :: run_id
  ic_invoked_by :: app_id
  ic_invoked_by_version :: string
  ic_invoked_by_content_hash :: string
  ic_authorized_data_scope :: data_scope
  ic_secrets :: secret_resolver
  ic_artifacts :: artifact_snapshot_resolver
  ic_cancellation :: cancellation_handle
  ic_progress :: progress_reporter

record capability_outcome =
  oc_result :: json
  oc_artifacts :: "artifact_draft list"

record invocation_request =
  ir_input :: json_object
  ir_data_scope :: data_scope

datatype handler_run =
    HandlerReturned "(capability_outcome, string) result"
  | HandlerPanicked string

type_synonym capability_handler = "json_object \<Rightarrow> invocation_context \<Rightarrow> handler_run \<times> bool"

datatype refusal_reason =
  RefusedNoGrant | RefusedGrantExpired | RefusedGrantRevoked | RefusedApprovalDenied | RefusedCancelled

datatype invocation_result =
    InvocationCompleted json "artifact list"
  | InvocationRefusedResult refusal_reason
  | InvocationFailed string

fun refusal_for :: "denial_reason \<Rightarrow> refusal_reason" where
  "refusal_for NoGrant = RefusedNoGrant"
| "refusal_for Expired = RefusedGrantExpired"
| "refusal_for Revoked = RefusedGrantRevoked"

section \<open>Tokens of the phases\<close>

record prepared_invocation =
  pi_id :: u64
  pi_approval :: "capability_approval_prompt option"
  pi_chrome :: trusted_chrome

record approval_result =
  apr_id :: u64
  apr_decision :: "approval_decision option"

record authorized_invocation =
  az_id :: u64
  az_handler :: capability_handler
  az_input :: json_object
  az_context :: invocation_context

record executed_invocation =
  ex_id :: u64
  ex_outcome :: "(capability_outcome, string) result option"
  ex_panic :: "string option"
  ex_cancelled_before_dispatch :: bool

definition await_approval :: "prepared_invocation \<Rightarrow> approval_result" where
  "await_approval token =
     \<lparr>apr_id = pi_id token,
      apr_decision = map_option (ch_approve_capability (pi_chrome token)) (pi_approval token)\<rparr>"

definition execute_with_progress ::
    "instant \<Rightarrow> progress_reporter \<Rightarrow> authorized_invocation \<Rightarrow> cancel_flags
      \<Rightarrow> executed_invocation \<times> cancel_flags" where
  "execute_with_progress now progress token flags =
     (let context = (az_context token)\<lparr>ic_progress :=
            with_cancellation progress (ic_cancellation (az_context token))\<rparr>;
          (cancelled, flags) = is_cancelled now (ic_cancellation context) flags
      in if cancelled then
           (\<lparr>ex_id = az_id token, ex_outcome = None, ex_panic = None,
             ex_cancelled_before_dispatch = True\<rparr>, flags)
         else let (run, cancels) = az_handler token (az_input token) context;
                  flags = (if cancels then cancel (ic_cancellation context) flags else flags)
              in case run of
                   HandlerReturned outcome \<Rightarrow>
                     (\<lparr>ex_id = az_id token, ex_outcome = Some outcome, ex_panic = None,
                       ex_cancelled_before_dispatch = False\<rparr>, flags)
                 | HandlerPanicked message \<Rightarrow>
                     (\<lparr>ex_id = az_id token, ex_outcome = None,
                       ex_panic = Some (''handler panicked: '' @ message),
                       ex_cancelled_before_dispatch = False\<rparr>, flags))"

definition execute :: "instant \<Rightarrow> authorized_invocation \<Rightarrow> cancel_flags \<Rightarrow> executed_invocation \<times> cancel_flags" where
  "execute now token flags = execute_with_progress now default_reporter token flags"

section \<open>Facts\<close>

text \<open>A token that comes from execution always carries what finalization asks of it.\<close>

definition executed_ok :: "executed_invocation \<Rightarrow> bool" where
  "executed_ok e \<longleftrightarrow> ex_cancelled_before_dispatch e \<or> ex_panic e \<noteq> None \<or> ex_outcome e \<noteq> None"

lemma execute_ok: "execute_with_progress now p t flags = (e, flags') \<Longrightarrow> executed_ok e \<and> ex_id e = az_id t"
  by (auto simp: execute_with_progress_def executed_ok_def Let_def
      split: prod.splits if_splits handler_run.splits)

lemma execute_not_dispatched:
  assumes "flags (ca_cell (ic_cancellation (az_context t))) \<or> ca_deadline (ic_cancellation (az_context t)) \<le> now"
    and "execute_with_progress now p t flags = (e, flags')"
  shows "ex_cancelled_before_dispatch e" "ex_outcome e = None" "ex_panic e = None"
  using assms by (auto simp: execute_with_progress_def is_cancelled_def cancel_def Let_def split: if_splits)

text \<open>Emissions of one reporter are at least the minimal interval apart.\<close>

lemma progress_interval:
  assumes "progress_report x r now woken v (Some prev) flags = (status, slept, Some emitted, flags')"
    and "status = Emitted \<or> status = ConsumerGone"
    and "prev \<le> now" and "now + slept \<le> woken"
  shows "prev + min_progress_interval \<le> emitted"
  using assms
  by (auto simp: progress_report_def Let_def split: if_splits result.splits option.splits)

lemma progress_rejected:
  "progress_report x r now woken v prev flags = (status, slept, prev', flags') \<Longrightarrow>
     status = Invalid \<or> status = Oversized \<Longrightarrow> slept = 0 \<and> prev' = prev \<and> flags' = flags"
  by (auto simp: progress_report_def Let_def split: if_splits result.splits option.splits)

end
