(* ===== verification/Ledger.thy ===== *)
theory Ledger
  imports Manifest
begin

text \<open>
  \<open>crates/kernel/src/services/ledger.rs\<close>: the append-only run ledger. Definitions of the event
  log, its index of runs, single and batched append, the read model of a run, the replay of
  outstanding actions, and the reconstruction from durable records. The clock reading is the
  argument \<open>now\<close>.
\<close>

section \<open>Events and records\<close>

datatype ledger_event =
    RunStarted (ev_run_id: run_id) initiator string
  | CapabilityInvoked (ev_run_id: run_id) capability_ref grant_id string data_scope
  | CapabilityCompleted (ev_run_id: run_id) capability_ref grant_id string data_scope
  | CapabilityFailed (ev_run_id: run_id) capability_ref grant_id string data_scope
  | InvocationRefused (ev_run_id: run_id) capability_ref denial_reason data_scope
  | InvocationCancelled (ev_run_id: run_id) capability_ref data_scope
  | ApprovalRequested (ev_run_id: run_id) capability_ref grant_id data_scope
  | ApprovalGranted (ev_run_id: run_id) capability_ref grant_id data_scope
  | ApprovalDenied (ev_run_id: run_id) capability_ref grant_id data_scope
  | ArtifactProduced (ev_run_id: run_id) artifact_id artifact_type_name
  | RunEnded (ev_run_id: run_id) run_terminal_state

fun event_kind :: "ledger_event \<Rightarrow> string" where
  "event_kind (RunStarted _ _ _) = ''run-started''"
| "event_kind (CapabilityInvoked _ _ _ _ _) = ''capability-invoked''"
| "event_kind (CapabilityCompleted _ _ _ _ _) = ''capability-completed''"
| "event_kind (CapabilityFailed _ _ _ _ _) = ''capability-failed''"
| "event_kind (InvocationRefused _ _ _ _) = ''invocation-refused''"
| "event_kind (InvocationCancelled _ _ _) = ''invocation-cancelled''"
| "event_kind (ApprovalRequested _ _ _ _) = ''approval-requested''"
| "event_kind (ApprovalGranted _ _ _ _) = ''approval-granted''"
| "event_kind (ApprovalDenied _ _ _ _) = ''approval-denied''"
| "event_kind (ArtifactProduced _ _ _) = ''artifact-produced''"
| "event_kind (RunEnded _ _) = ''run-ended''"

definition all_kinds :: "string list" where
  "all_kinds =
     [''run-started'', ''capability-invoked'', ''capability-completed'', ''capability-failed'',
      ''invocation-refused'', ''invocation-cancelled'', ''approval-requested'',
      ''approval-granted'', ''approval-denied'', ''artifact-produced'', ''run-ended'']"

definition event_topic_of :: "ledger_event \<Rightarrow> event_topic" where
  "event_topic_of event = event_kind event"

record ledger_record =
  lr_sequence :: u64
  lr_recorded_at :: datetime
  lr_event :: ledger_event

record run_index_entry =
  ri_initiating_app :: app_id
  ri_active :: bool

type_synonym run_index = "(run_id, run_index_entry) btree_map"

record run_ledger =
  lg_records :: "ledger_record list"
  lg_runs :: run_index

definition ledger_new :: run_ledger where
  "ledger_new = \<lparr>lg_records = [], lg_runs = bt_empty\<rparr>"

section \<open>Appending\<close>

definition validate_append :: "run_index \<Rightarrow> ledger_event \<Rightarrow> unit kernel_result" where
  "validate_append runs event = (case event of
       RunStarted run_id _ _ \<Rightarrow>
         if bt_contains runs run_id then Err (RunAlreadyStarted run_id) else Ok ()
     | _ \<Rightarrow> (case bt_get runs (ev_run_id event) of
           None \<Rightarrow> Err (UnknownRun (ev_run_id event))
         | Some state \<Rightarrow>
             if \<not> ri_active state then Err (RunAlreadyEnded (ev_run_id event)) else Ok ()))"

text \<open>
  \<open>index_event\<close> runs after \<open>validate_append\<close>, so the entry of an ending run is present: the
  \<open>expect\<close> of the source, the branch \<open>None\<close> here, is not reached.
\<close>

definition index_event :: "run_index \<Rightarrow> ledger_event \<Rightarrow> run_index" where
  "index_event runs event = (case event of
       RunStarted run_id initiator _ \<Rightarrow>
         bt_insert run_id
           \<lparr>ri_initiating_app = initiator_app_id initiator, ri_active = True\<rparr> runs
     | RunEnded run_id _ \<Rightarrow>
         (case bt_get runs run_id of
            Some state \<Rightarrow> bt_insert run_id (state\<lparr>ri_active := False\<rparr>) runs
          | None \<Rightarrow> runs)
     | _ \<Rightarrow> runs)"

definition ledger_append ::
    "datetime \<Rightarrow> run_ledger \<Rightarrow> ledger_event \<Rightarrow> (ledger_record \<times> run_ledger) kernel_result" where
  "ledger_append now l event =
     bind_r (validate_append (lg_runs l) event) (\<lambda>_.
       let record = \<lparr>lr_sequence = of_nat (length (lg_records l)), lr_recorded_at = now,
                     lr_event = event\<rparr>
       in Ok (record, l\<lparr>lg_records := lg_records l @ [record],
                        lg_runs := index_event (lg_runs l) event\<rparr>))"

definition validate_batch_append ::
    "run_index \<Rightarrow> run_index \<Rightarrow> ledger_event \<Rightarrow> unit kernel_result" where
  "validate_batch_append runs staged_runs event =
     (if bt_contains staged_runs (ev_run_id event) then validate_append staged_runs event
      else validate_append runs event)"

fun append_batch_loop ::
    "datetime \<Rightarrow> run_ledger \<Rightarrow> run_index \<Rightarrow> ledger_record list \<Rightarrow> ledger_event list
      \<Rightarrow> (run_index \<times> ledger_record list) kernel_result" where
  "append_batch_loop now l staged_runs records [] = Ok (staged_runs, records)"
| "append_batch_loop now l staged_runs records (event # events) =
     bind_r (validate_batch_append (lg_runs l) staged_runs event) (\<lambda>_.
       let staged_runs =
             (if \<not> bt_contains staged_runs (ev_run_id event)
              then (case bt_get (lg_runs l) (ev_run_id event) of
                      Some state \<Rightarrow> bt_insert (ev_run_id event) state staged_runs
                    | None \<Rightarrow> staged_runs)
              else staged_runs);
           record = \<lparr>lr_sequence = of_nat (length (lg_records l) + length records),
                     lr_recorded_at = now, lr_event = event\<rparr>
       in append_batch_loop now l (index_event staged_runs event) (records @ [record]) events)"

definition append_batch ::
    "datetime \<Rightarrow> run_ledger \<Rightarrow> ledger_event list \<Rightarrow> (ledger_record list \<times> run_ledger) kernel_result" where
  "append_batch now l events =
     bind_r (append_batch_loop now l bt_empty [] events) (\<lambda>(staged_runs, records).
       Ok (records, l\<lparr>lg_runs := bt_insert_all (lg_runs l) (bt_entries staged_runs),
                      lg_records := lg_records l @ records\<rparr>))"

section \<open>Queries and the read model\<close>

definition records_for_run :: "run_ledger \<Rightarrow> run_id \<Rightarrow> ledger_record list" where
  "records_for_run l run_id = filter (\<lambda>record. ev_run_id (lr_event record) = run_id) (lg_records l)"

definition active_runs_for_app :: "run_ledger \<Rightarrow> app_id \<Rightarrow> run_id list" where
  "active_runs_for_app l app_id =
     map fst (filter (\<lambda>(_, state). ri_active state \<and> ri_initiating_app state = app_id)
       (bt_entries (lg_runs l)))"

definition active_run_ids :: "run_ledger \<Rightarrow> run_id list" where
  "active_run_ids l = map fst (filter (\<lambda>(_, state). ri_active state) (bt_entries (lg_runs l)))"

fun find_start :: "run_id \<Rightarrow> ledger_record list \<Rightarrow> (initiator \<times> string) option" where
  "find_start run_id [] = None"
| "find_start run_id (record # records) = (case lr_event record of
       RunStarted started initiator goal \<Rightarrow>
         if started = run_id then Some (initiator, goal) else find_start run_id records
     | _ \<Rightarrow> find_start run_id records)"

fun view_event :: "run_view \<Rightarrow> ledger_event \<Rightarrow> run_view" where
  "view_event view (CapabilityInvoked _ _ grant_id _ _) =
     view\<lparr>rv_grants_exercised := rv_grants_exercised view @ [grant_id]\<rparr>"
| "view_event view (CapabilityCompleted _ capability grant_id _ data_scope) =
     view\<lparr>rv_invocations := rv_invocations view @ [RecCompleted capability grant_id data_scope]\<rparr>"
| "view_event view (CapabilityFailed _ capability grant_id _ data_scope) =
     view\<lparr>rv_invocations := rv_invocations view @ [RecFailed capability grant_id data_scope]\<rparr>"
| "view_event view (InvocationRefused _ capability reason data_scope) =
     view\<lparr>rv_invocations := rv_invocations view @ [RecRefused capability reason data_scope]\<rparr>"
| "view_event view (InvocationCancelled _ capability data_scope) =
     view\<lparr>rv_invocations := rv_invocations view @ [RecCancelled capability data_scope]\<rparr>"
| "view_event view (ApprovalGranted _ capability grant_id data_scope) =
     view\<lparr>rv_approvals := rv_approvals view @
       [\<lparr>ar_capability = capability, ar_grant_id = grant_id, ar_approved = True,
         ar_data_scope = data_scope\<rparr>]\<rparr>"
| "view_event view (ApprovalDenied _ capability grant_id data_scope) =
     view\<lparr>rv_approvals := rv_approvals view @
       [\<lparr>ar_capability = capability, ar_grant_id = grant_id, ar_approved = False,
         ar_data_scope = data_scope\<rparr>]\<rparr>"
| "view_event view (ArtifactProduced _ artifact_id _) =
     view\<lparr>rv_artifacts_produced := rv_artifacts_produced view @ [artifact_id]\<rparr>"
| "view_event view (RunEnded _ terminal_state) = view\<lparr>rv_terminal_state := Some terminal_state\<rparr>"
| "view_event view (RunStarted _ _ _) = view"
| "view_event view (ApprovalRequested _ _ _ _) = view"

definition ledger_run_view :: "run_ledger \<Rightarrow> run_id \<Rightarrow> run_view kernel_result" where
  "ledger_run_view l run_id =
     bind_r (ok_or (UnknownRun run_id) (find_start run_id (lg_records l))) (\<lambda>(initiator, goal).
       Ok (foldl (\<lambda>view record. view_event view (lr_event record))
         \<lparr>rv_run_id = run_id, rv_initiator = initiator, rv_goal = goal, rv_grants_exercised = [],
          rv_invocations = [], rv_approvals = [], rv_artifacts_produced = [],
          rv_terminal_state = None\<rparr>
         (records_for_run l run_id)))"

section \<open>Replay of outstanding actions\<close>

record approval_key =
  ak_capability :: capability_ref
  ak_grant_id :: grant_id
  ak_data_scope :: data_scope

record invocation_key =
  ik_capability :: capability_ref
  ik_grant_id :: grant_id
  ik_data_scope :: data_scope

record outstanding_actions =
  oa_requested_approvals :: "approval_key list"
  oa_granted_approvals :: "approval_key list"
  oa_invocations :: "invocation_key list"

definition no_actions :: outstanding_actions where
  "no_actions = \<lparr>oa_requested_approvals = [], oa_granted_approvals = [], oa_invocations = []\<rparr>"

definition remove_exact :: "'a list \<Rightarrow> 'a \<Rightarrow> string \<Rightarrow> 'a list kernel_result" where
  "remove_exact vals expected message =
     (case remove_first (\<lambda>candidate. candidate = expected) vals of
        Some rest \<Rightarrow> Ok rest
      | None \<Rightarrow> Err (Durability message))"

definition remove_by_capability_scope ::
    "invocation_key list \<Rightarrow> capability_ref \<Rightarrow> data_scope \<Rightarrow> invocation_key list option" where
  "remove_by_capability_scope vals capability data_scope =
     remove_first (\<lambda>k. ik_capability k = capability \<and> ik_data_scope k = data_scope) vals"

definition remove_approval_by_capability_scope ::
    "approval_key list \<Rightarrow> capability_ref \<Rightarrow> data_scope \<Rightarrow> approval_key list option" where
  "remove_approval_by_capability_scope vals capability data_scope =
     remove_first (\<lambda>k. ak_capability k = capability \<and> ak_data_scope k = data_scope) vals"

text \<open>
  The first of invocations, granted approvals and requested approvals that holds an action on
  the capability and scope loses it; \<open>None\<close> when none does.
\<close>

definition close_action ::
    "outstanding_actions \<Rightarrow> capability_ref \<Rightarrow> data_scope \<Rightarrow> outstanding_actions option" where
  "close_action actions capability data_scope =
     (case remove_by_capability_scope (oa_invocations actions) capability data_scope of
        Some rest \<Rightarrow> Some (actions\<lparr>oa_invocations := rest\<rparr>)
      | None \<Rightarrow>
     (case remove_approval_by_capability_scope (oa_granted_approvals actions) capability data_scope of
        Some rest \<Rightarrow> Some (actions\<lparr>oa_granted_approvals := rest\<rparr>)
      | None \<Rightarrow>
     (case remove_approval_by_capability_scope (oa_requested_approvals actions) capability data_scope of
        Some rest \<Rightarrow> Some (actions\<lparr>oa_requested_approvals := rest\<rparr>)
      | None \<Rightarrow> None)))"

fun replay_event :: "outstanding_actions \<Rightarrow> ledger_event \<Rightarrow> outstanding_actions kernel_result" where
  "replay_event actions (RunStarted _ _ _) = Ok actions"
| "replay_event actions (ArtifactProduced _ _ _) = Ok actions"
| "replay_event actions (ApprovalRequested _ capability grant_id data_scope) =
     Ok (actions\<lparr>oa_requested_approvals := oa_requested_approvals actions @
       [\<lparr>ak_capability = capability, ak_grant_id = grant_id, ak_data_scope = data_scope\<rparr>]\<rparr>)"
| "replay_event actions (ApprovalGranted _ capability grant_id data_scope) =
     (let key = \<lparr>ak_capability = capability, ak_grant_id = grant_id, ak_data_scope = data_scope\<rparr>
      in bind_r (remove_exact (oa_requested_approvals actions) key
           ''approval grant has no matching request'') (\<lambda>rest.
         Ok (actions\<lparr>oa_requested_approvals := rest,
                     oa_granted_approvals := oa_granted_approvals actions @ [key]\<rparr>)))"
| "replay_event actions (ApprovalDenied _ capability grant_id data_scope) =
     bind_r (remove_exact (oa_requested_approvals actions)
         \<lparr>ak_capability = capability, ak_grant_id = grant_id, ak_data_scope = data_scope\<rparr>
         ''approval denial has no matching request'') (\<lambda>rest.
       Ok (actions\<lparr>oa_requested_approvals := rest\<rparr>))"
| "replay_event actions (CapabilityInvoked _ capability grant_id _ data_scope) =
     (let approval = \<lparr>ak_capability = capability, ak_grant_id = grant_id, ak_data_scope = data_scope\<rparr>;
          granted = (case remove_first (\<lambda>candidate. candidate = approval)
                            (oa_granted_approvals actions) of
                       Some rest \<Rightarrow> rest
                     | None \<Rightarrow> oa_granted_approvals actions)
      in Ok (actions\<lparr>oa_granted_approvals := granted,
                     oa_invocations := oa_invocations actions @
                       [\<lparr>ik_capability = capability, ik_grant_id = grant_id,
                         ik_data_scope = data_scope\<rparr>]\<rparr>))"
| "replay_event actions (CapabilityCompleted _ capability grant_id _ data_scope) =
     bind_r (remove_exact (oa_invocations actions)
         \<lparr>ik_capability = capability, ik_grant_id = grant_id, ik_data_scope = data_scope\<rparr>
         ''invocation outcome has no matching invocation'') (\<lambda>rest.
       Ok (actions\<lparr>oa_invocations := rest\<rparr>))"
| "replay_event actions (CapabilityFailed _ capability grant_id _ data_scope) =
     bind_r (remove_exact (oa_invocations actions)
         \<lparr>ik_capability = capability, ik_grant_id = grant_id, ik_data_scope = data_scope\<rparr>
         ''invocation outcome has no matching invocation'') (\<lambda>rest.
       Ok (actions\<lparr>oa_invocations := rest\<rparr>))"
| "replay_event actions (InvocationCancelled run_id capability data_scope) =
     (case close_action actions capability data_scope of
        Some actions' \<Rightarrow> Ok actions'
      | None \<Rightarrow> Err (Durability (''invocation cancellation in run '' @ quoted run_id @
                  '' has no pending action'')))"
| "replay_event actions (InvocationRefused _ capability _ data_scope) =
     (case close_action actions capability data_scope of
        Some actions' \<Rightarrow> Ok actions'
      | None \<Rightarrow> Ok actions)"
| "replay_event actions (RunEnded run_id _) =
     (if oa_requested_approvals actions \<noteq> [] \<or> oa_granted_approvals actions \<noteq> []
         \<or> oa_invocations actions \<noteq> []
      then Err (Durability (''run '' @ quoted run_id @ '' ended with pending capability work''))
      else Ok actions)"

type_synonym outstanding_map = "(run_id, outstanding_actions) btree_map"

definition actions_of :: "outstanding_map \<Rightarrow> run_id \<Rightarrow> outstanding_actions" where
  "actions_of by_run run_id = (case bt_get by_run run_id of Some actions \<Rightarrow> actions | None \<Rightarrow> no_actions)"

definition replay_record :: "outstanding_map \<Rightarrow> ledger_record \<Rightarrow> outstanding_map kernel_result" where
  "replay_record by_run record =
     (let run_id = ev_run_id (lr_event record)
      in bind_r (replay_event (actions_of by_run run_id) (lr_event record)) (\<lambda>actions.
           Ok (bt_insert run_id actions by_run)))"

definition replay_action_state :: "ledger_record list \<Rightarrow> outstanding_map kernel_result" where
  "replay_action_state records = try_fold replay_record bt_empty records"

definition cancellation_events_of :: "run_id \<Rightarrow> outstanding_actions \<Rightarrow> ledger_event list" where
  "cancellation_events_of run_id actions =
     map (\<lambda>approval. InvocationCancelled run_id (ak_capability approval) (ak_data_scope approval))
       (oa_requested_approvals actions @ oa_granted_approvals actions) @
     map (\<lambda>invocation. InvocationCancelled run_id (ik_capability invocation) (ik_data_scope invocation))
       (oa_invocations actions)"

definition incomplete_invocation_cancellations :: "run_ledger \<Rightarrow> ledger_event list kernel_result" where
  "incomplete_invocation_cancellations l =
     bind_r (replay_action_state (lg_records l)) (\<lambda>outstanding.
       Ok (concat (map (\<lambda>(run_id, actions). cancellation_events_of run_id actions)
         (bt_entries outstanding))))"

section \<open>Reconstruction from durable records\<close>

definition check_child_attribution :: "run_index \<Rightarrow> ledger_event \<Rightarrow> unit kernel_result" where
  "check_child_attribution runs event = (case event of
       RunStarted _ (InitiatorRun app_id parent_run_id) _ \<Rightarrow>
         (case bt_get runs parent_run_id of
            None \<Rightarrow> Err (Durability
              (''child run references unknown parent '' @ quoted parent_run_id))
          | Some parent \<Rightarrow>
              if \<not> ri_active parent then
                Err (Durability (''child run references ended parent '' @ quoted parent_run_id))
              else if ri_initiating_app parent \<noteq> app_id then
                Err (Durability (''child run attribution '' @ quoted app_id @
                  '' disagrees with parent '' @ quoted parent_run_id))
              else Ok ())
     | _ \<Rightarrow> Ok ())"

definition restore_record ::
    "datetime \<Rightarrow> nat \<times> run_ledger \<Rightarrow> ledger_record \<Rightarrow> (nat \<times> run_ledger) kernel_result" where
  "restore_record now acc record =
     (let (expected, validator) = acc in
      if lr_sequence record \<noteq> of_nat expected then
        Err (Durability (''ledger sequence '' @ string_of_nat (unat (lr_sequence record)) @
          '' is not contiguous at '' @ string_of_nat expected))
      else bind_r (check_child_attribution (lg_runs validator) (lr_event record)) (\<lambda>_.
           bind_r (ledger_append now validator (lr_event record)) (\<lambda>(_, validator).
           Ok (Suc expected, validator))))"

definition ledger_restore :: "datetime \<Rightarrow> ledger_record list \<Rightarrow> run_ledger kernel_result" where
  "ledger_restore now records =
     bind_r (try_fold (restore_record now) (0, ledger_new) records) (\<lambda>(_, validator).
     bind_r (replay_action_state records) (\<lambda>_.
     Ok (validator\<lparr>lg_records := records\<rparr>)))"

definition payload_sha256 :: "externals \<Rightarrow> json \<Rightarrow> string kernel_result" where
  "payload_sha256 x payload =
     bind_r (map_err (\<lambda>error. Durability (''serialize ledger payload failed: '' @ error))
              (x_json_bytes x payload)) (\<lambda>bytes.
     Ok (x_sha256_hex x bytes))"

end
