(* ===== verification/Ledger_Index.thy ===== *)
theory Ledger_Index
  imports Ledger
begin

text \<open>
  The run index of the ledger against its history. A ledger is well formed when its index is
  the one obtained by validating and indexing its events in order, and its sequence numbers
  are contiguous. Shown here: both appends keep this, a batch is the same as appending its
  events one after the other (and is refused as a whole at the first invalid event), every
  run is one start, a body and at most one end, and the read model agrees with the index.
\<close>

definition ledger_step :: "run_index \<Rightarrow> ledger_event \<Rightarrow> run_index kernel_result" where
  "ledger_step runs event = bind_r (validate_append runs event) (\<lambda>_. Ok (index_event runs event))"

definition history_index :: "ledger_event list \<Rightarrow> run_index kernel_result" where
  "history_index events = try_fold ledger_step bt_empty events"

definition contiguous :: "ledger_record list \<Rightarrow> bool" where
  "contiguous records \<longleftrightarrow> (\<forall>i<length records. lr_sequence (records ! i) = of_nat i)"

definition ledger_inv :: "run_ledger \<Rightarrow> bool" where
  "ledger_inv l \<longleftrightarrow>
     history_index (map lr_event (lg_records l)) = Ok (lg_runs l) \<and> contiguous (lg_records l)"

section \<open>Validation and indexing\<close>

lemma validate_append_Ok_iff:
  "validate_append runs event = Ok u \<longleftrightarrow>
     (case event of
        RunStarted r _ _ \<Rightarrow> bt_get runs r = None
      | _ \<Rightarrow> (\<exists>s. bt_get runs (ev_run_id event) = Some s \<and> ri_active s))"
  by (cases event) (auto simp: validate_append_def bt_contains_def split: option.splits)

lemma validate_append_cong:
  "bt_get a (ev_run_id event) = bt_get b (ev_run_id event) \<Longrightarrow>
     validate_append a event = validate_append b event"
  by (cases event) (auto simp: validate_append_def bt_contains_def)

lemma bt_get_index_event:
  "bt_get (index_event runs event) r =
     (if r = ev_run_id event then
        (case event of
           RunStarted _ i _ \<Rightarrow> Some \<lparr>ri_initiating_app = initiator_app_id i, ri_active = True\<rparr>
         | RunEnded _ _ \<Rightarrow> map_option (\<lambda>s. s\<lparr>ri_active := False\<rparr>) (bt_get runs r)
         | _ \<Rightarrow> bt_get runs r)
      else bt_get runs r)"
  by (cases event) (auto simp: index_event_def bt_get_insert split: option.splits)

lemma ledger_step_Ok_iff:
  "ledger_step runs event = Ok runs' \<longleftrightarrow>
     validate_append runs event = Ok () \<and> runs' = index_event runs event"
  by (auto simp: ledger_step_def bind_r_Ok_iff)

lemma history_index_snoc:
  "history_index (events @ [event]) = bind_r (history_index events) (\<lambda>runs. ledger_step runs event)"
  by (simp add: history_index_def try_fold_snoc)

lemma history_index_append:
  "history_index (xs @ ys) = bind_r (history_index xs) (\<lambda>runs. try_fold ledger_step runs ys)"
  by (simp add: history_index_def try_fold_append)

lemma history_index_Nil [simp]: "history_index [] = Ok bt_empty"
  by (simp add: history_index_def)

lemma contiguous_append:
  "contiguous (xs @ ys) \<longleftrightarrow> contiguous xs \<and>
     (\<forall>i<length ys. lr_sequence (ys ! i) = of_nat (length xs + i))"
  unfolding contiguous_def
proof (intro iffI conjI allI impI)
  fix i
  assume all: "\<forall>i<length (xs @ ys). lr_sequence ((xs @ ys) ! i) = of_nat i"
  { assume "i < length xs"
    with all[rule_format, of i] show "lr_sequence (xs ! i) = of_nat i"
      by (simp add: nth_append) }
  { assume "i < length ys"
    with all[rule_format, of "length xs + i"] show "lr_sequence (ys ! i) = of_nat (length xs + i)"
      by (simp add: nth_append) }
next
  fix i
  assume "(\<forall>i<length xs. lr_sequence (xs ! i) = of_nat i) \<and>
    (\<forall>i<length ys. lr_sequence (ys ! i) = of_nat (length xs + i))" and "i < length (xs @ ys)"
  then show "lr_sequence ((xs @ ys) ! i) = of_nat i"
    by (cases "i < length xs") (auto simp: nth_append dest: spec[of _ "i - length xs"])
qed

lemma contiguous_Nil [simp]: "contiguous []"
  by (simp add: contiguous_def)

section \<open>Single append\<close>

lemma ledger_append_Ok_iff:
  "ledger_append now l event = Ok (r, l') \<longleftrightarrow>
     validate_append (lg_runs l) event = Ok () \<and>
     r = \<lparr>lr_sequence = of_nat (length (lg_records l)), lr_recorded_at = now, lr_event = event\<rparr> \<and>
     l' = l\<lparr>lg_records := lg_records l @ [r], lg_runs := index_event (lg_runs l) event\<rparr>"
  by (auto simp: ledger_append_def bind_r_Ok_iff Let_def)

lemma ledger_append_Err_iff:
  "ledger_append now l event = Err e \<longleftrightarrow> validate_append (lg_runs l) event = Err e"
  by (auto simp: ledger_append_def bind_r_Err_iff Let_def)

lemma ledger_inv_new [simp]: "ledger_inv ledger_new"
  by (simp add: ledger_inv_def ledger_new_def)

lemma ledger_append_inv:
  assumes "ledger_inv l" "ledger_append now l event = Ok (r, l')"
  shows "ledger_inv l'"
  using assms
  by (auto simp: ledger_inv_def ledger_append_Ok_iff history_index_snoc ledger_step_Ok_iff
      contiguous_append)

section \<open>Batches\<close>

text \<open>The reference: append the events one after the other.\<close>

definition append_all :: "datetime \<Rightarrow> run_ledger \<Rightarrow> ledger_event list \<Rightarrow> run_ledger kernel_result" where
  "append_all now l events = try_fold (\<lambda>l event. map_ok snd (ledger_append now l event)) l events"

lemma append_all_inv: "ledger_inv l \<Longrightarrow> append_all now l events = Ok l' \<Longrightarrow> ledger_inv l'"
  unfolding append_all_def
  by (erule try_fold_invariant) (auto dest: ledger_append_inv)

definition commit_staged :: "run_ledger \<Rightarrow> run_index \<times> ledger_record list \<Rightarrow> run_ledger" where
  "commit_staged l staged =
     l\<lparr>lg_runs := bt_insert_all (lg_runs l) (bt_entries (fst staged)),
       lg_records := lg_records l @ snd staged\<rparr>"

lemma bt_get_overlay:
  "bt_get (bt_insert_all runs (bt_entries staged)) k =
     (case bt_get staged k of Some s \<Rightarrow> Some s | None \<Rightarrow> bt_get runs k)"
  by (simp add: bt_get_insert_all map_of_rev_unique bt_get_def[of staged])

lemma validate_batch_append_overlay:
  "validate_batch_append runs staged event =
     validate_append (bt_insert_all runs (bt_entries staged)) event"
  by (auto simp: validate_batch_append_def bt_contains_def bt_get_overlay
      intro!: validate_append_cong)

lemma index_event_overlay:
  assumes "validate_batch_append runs staged event = Ok ()"
  shows "bt_insert_all runs (bt_entries (index_event
      (if \<not> bt_contains staged (ev_run_id event)
       then (case bt_get runs (ev_run_id event) of
               Some state \<Rightarrow> bt_insert (ev_run_id event) state staged
             | None \<Rightarrow> staged)
       else staged) event)) =
    index_event (bt_insert_all runs (bt_entries staged)) event"
  by (rule bt_ext)
    (cases event;
      auto simp: bt_get_overlay bt_get_index_event bt_get_insert bt_contains_def
        split: option.splits)

lemma append_batch_loop_staged:
  "map_ok (commit_staged l) (append_batch_loop now l staged records events) =
     append_all now (commit_staged l (staged, records)) events"
proof (induction now l staged records events rule: append_batch_loop.induct)
  case (1 now l staged records)
  then show ?case by (simp add: append_all_def)
next
  case (2 now l staged records event events)
  let ?runs = "bt_insert_all (lg_runs l) (bt_entries staged)"
  show ?case
  proof (cases "validate_batch_append (lg_runs l) staged event")
    case (Ok u)
    then have valid: "validate_append ?runs event = Ok ()"
      by (simp add: validate_batch_append_overlay)
    let ?staged = "if \<not> bt_contains staged (ev_run_id event)
       then (case bt_get (lg_runs l) (ev_run_id event) of
               Some state \<Rightarrow> bt_insert (ev_run_id event) state staged
             | None \<Rightarrow> staged)
       else staged"
    let ?entry = "\<lparr>lr_sequence = of_nat (length (lg_records l) + length records),
                     lr_recorded_at = now, lr_event = event\<rparr>"
    have "map_ok snd (ledger_append now (commit_staged l (staged, records)) event) =
        Ok (commit_staged l (index_event ?staged event, records @ [?entry]))"
      using valid index_event_overlay[of "lg_runs l" staged event] Ok
      by (simp add: commit_staged_def ledger_append_def Let_def)
    with 2[OF refl refl] Ok show ?thesis
      by (simp only: append_batch_loop.simps append_all_def try_fold.simps bind_r.simps Let_def)
  next
    case (Err e)
    then show ?thesis
      by (simp add: append_all_def ledger_append_def commit_staged_def
          flip: validate_batch_append_overlay)
  qed
qed

lemma append_batch_is_append_all:
  "map_ok snd (append_batch now l events) = append_all now l events"
proof -
  have start: "commit_staged l (bt_empty, []) = l"
    by (simp add: commit_staged_def)
  have "map_ok snd (append_batch now l events) =
      map_ok (commit_staged l) (append_batch_loop now l bt_empty [] events)"
    by (cases "append_batch_loop now l bt_empty [] events")
      (auto simp: append_batch_def commit_staged_def)
  then show ?thesis
    by (simp add: append_batch_loop_staged start)
qed

lemma append_batch_Ok: "append_batch now l events = Ok (rs, l') \<Longrightarrow> append_all now l events = Ok l'"
  using append_batch_is_append_all[of now l events] by simp

lemma append_batch_Err: "append_batch now l events = Err e \<longleftrightarrow> append_all now l events = Err e"
  using append_batch_is_append_all[of now l events]
  by (cases "append_batch now l events") auto

lemma append_all_Cons_Ok:
  "append_all now l (event # events) = Ok l' \<longleftrightarrow>
     (\<exists>r m. ledger_append now l event = Ok (r, m) \<and> append_all now m events = Ok l')"
  by (auto simp: append_all_def bind_r_Ok_iff)

lemma append_all_Nil [simp]: "append_all now l [] = Ok l"
  by (simp add: append_all_def)

lemma append_all_records:
  "append_all now l events = Ok l' \<Longrightarrow>
     \<exists>rs. lg_records l' = lg_records l @ rs \<and> map lr_event rs = events"
proof (induction events arbitrary: l)
  case (Cons event events)
  then obtain r m where m: "ledger_append now l event = Ok (r, m)" "append_all now m events = Ok l'"
    by (auto simp: append_all_Cons_Ok)
  from Cons.IH[OF m(2)] obtain rs where "lg_records l' = lg_records m @ rs" "map lr_event rs = events"
    by blast
  with m(1) show ?case
    by (intro exI[of _ "r # rs"]) (auto simp: ledger_append_Ok_iff)
qed simp

lemma append_batch_records:
  assumes "append_batch now l events = Ok (rs, l')"
  shows "lg_records l' = lg_records l @ rs" "map lr_event rs = events"
proof -
  from assms show *: "lg_records l' = lg_records l @ rs"
    by (auto simp: append_batch_def bind_r_Ok_iff)
  from append_all_records[OF append_batch_Ok[OF assms]] * show "map lr_event rs = events"
    by auto
qed

lemma append_batch_inv: "ledger_inv l \<Longrightarrow> append_batch now l events = Ok (rs, l') \<Longrightarrow> ledger_inv l'"
  by (rule append_all_inv[OF _ append_batch_Ok])

lemma append_all_runs:
  "append_all now l events = Ok l' \<Longrightarrow> try_fold ledger_step (lg_runs l) events = Ok (lg_runs l')"
proof (induction events arbitrary: l)
  case (Cons event events)
  then obtain r m where "ledger_append now l event = Ok (r, m)" "append_all now m events = Ok l'"
    by (auto simp: append_all_Cons_Ok)
  with Cons.IH[of m] show ?case
    by (auto simp: ledger_append_Ok_iff ledger_step_def)
qed simp

lemma append_all_total:
  "try_fold ledger_step (lg_runs l) events = Ok runs \<Longrightarrow> \<exists>l'. append_all now l events = Ok l'"
proof (induction events arbitrary: l)
  case (Cons event events)
  then have "validate_append (lg_runs l) event = Ok ()"
    and rest: "try_fold ledger_step (index_event (lg_runs l) event) events = Ok runs"
    by (auto simp: ledger_step_Ok_iff bind_r_Ok_iff)
  then obtain r m where m: "ledger_append now l event = Ok (r, m)"
    "lg_runs m = index_event (lg_runs l) event"
    by (simp add: ledger_append_def Let_def)
  with rest Cons.IH[of m] show ?case
    by (auto simp: append_all_Cons_Ok)
qed simp

section \<open>The life cycle of a run\<close>

definition run_events :: "run_id \<Rightarrow> ledger_event list \<Rightarrow> ledger_event list" where
  "run_events r events = filter (\<lambda>event. ev_run_id event = r) events"

fun is_start :: "ledger_event \<Rightarrow> bool" where
  "is_start (RunStarted _ _ _) = True"
| "is_start _ = False"

fun is_end :: "ledger_event \<Rightarrow> bool" where
  "is_end (RunEnded _ _) = True"
| "is_end _ = False"

definition run_body :: "ledger_event list \<Rightarrow> bool" where
  "run_body events = list_all (\<lambda>event. \<not> is_start event \<and> \<not> is_end event) events"

definition well_bracketed :: "run_id \<Rightarrow> run_index_entry option \<Rightarrow> ledger_event list \<Rightarrow> bool" where
  "well_bracketed r entry events =
     (case entry of
        None \<Rightarrow> events = []
      | Some s \<Rightarrow> (\<exists>i g body tail. events = RunStarted r i g # body @ tail \<and> run_body body \<and>
          ri_initiating_app s = initiator_app_id i \<and>
          (if ri_active s then tail = [] else (\<exists>t. tail = [RunEnded r t]))))"

lemma well_bracketed_step:
  assumes "well_bracketed r (bt_get runs r) (run_events r events)"
    and "ledger_step runs event = Ok runs'"
  shows "well_bracketed r (bt_get runs' r) (run_events r (events @ [event]))"
proof (cases "ev_run_id event = r")
  case False
  with assms show ?thesis
    by (auto simp: ledger_step_Ok_iff bt_get_index_event run_events_def)
next
  case True
  show ?thesis
  proof (cases "is_start event")
    case start: True
    then obtain i g where event: "event = RunStarted r i g"
      using True by (cases event) auto
    with assms(2) have "bt_get runs r = None"
      by (auto simp: ledger_step_Ok_iff validate_append_Ok_iff)
    with assms event show ?thesis
      by (auto simp: ledger_step_Ok_iff bt_get_index_event run_events_def well_bracketed_def
          run_body_def)
  next
    case False
    with assms(2) True obtain s where s: "bt_get runs r = Some s" "ri_active s"
      by (cases event) (auto simp: ledger_step_Ok_iff validate_append_Ok_iff)
    with assms(1) obtain i g body where
      events: "run_events r events = RunStarted r i g # body" "run_body body"
        "ri_initiating_app s = initiator_app_id i"
      by (auto simp: well_bracketed_def)
    from events(1) True have snoc: "run_events r (events @ [event]) = RunStarted r i g # body @ [event]"
      by (simp add: run_events_def)
    show ?thesis
    proof (cases "is_end event")
      case True
      then obtain t where "event = RunEnded r t"
        using \<open>ev_run_id event = r\<close> by (cases event) auto
      with assms(2) s events snoc show ?thesis
        by (auto simp: ledger_step_Ok_iff bt_get_index_event well_bracketed_def)
    next
      case body: False
      with False True assms(2) s have "bt_get runs' r = Some s"
        by (cases event) (auto simp: ledger_step_Ok_iff bt_get_index_event)
      with False body s events snoc show ?thesis
        by (auto simp: well_bracketed_def run_body_def intro!: exI[of _ "body @ [event]"])
    qed
  qed
qed

lemma history_well_bracketed:
  "history_index events = Ok runs \<Longrightarrow> well_bracketed r (bt_get runs r) (run_events r events)"
proof (induction events arbitrary: runs rule: rev_induct)
  case Nil
  then show ?case by (simp add: well_bracketed_def run_events_def)
next
  case (snoc event events)
  then obtain mid where "history_index events = Ok mid" "ledger_step mid event = Ok runs"
    by (auto simp: history_index_snoc bind_r_Ok_iff)
  with snoc.IH show ?case by (blast intro: well_bracketed_step)
qed

section \<open>The read model agrees with the index\<close>

lemma find_start_run_events:
  "find_start r records =
     (case filter is_start (run_events r (map lr_event records)) of
        RunStarted _ i g # _ \<Rightarrow> Some (i, g)
      | _ \<Rightarrow> None)"
proof (induction records)
  case (Cons entry records)
  then show ?case
    by (cases "lr_event entry") (auto simp: run_events_def)
qed (simp add: run_events_def)

lemma view_event_frame [simp]:
  "rv_initiator (view_event v e) = rv_initiator v"
  "rv_run_id (view_event v e) = rv_run_id v"
  "rv_goal (view_event v e) = rv_goal v"
  "rv_terminal_state (view_event v e) =
     (case e of RunEnded _ t \<Rightarrow> Some t | _ \<Rightarrow> rv_terminal_state v)"
  by (cases e; simp)+

lemma foldl_view_frame:
  "rv_initiator (foldl view_event v events) = rv_initiator v"
  "run_body events \<Longrightarrow> rv_terminal_state (foldl view_event v events) = rv_terminal_state v"
proof (induction events arbitrary: v)
  case (Cons e es)
  { case 1 then show ?case using Cons by simp
  next
    case 2
    then show ?case using Cons by (cases e) (auto simp: run_body_def) }
qed simp_all

lemma run_view_events:
  "foldl (\<lambda>view record. view_event view (lr_event record)) v (records_for_run l r) =
     foldl view_event v (run_events r (map lr_event (lg_records l)))"
  by (simp add: records_for_run_def run_events_def filter_map foldl_map comp_def)

lemma run_view_known:
  assumes "ledger_inv l" "bt_get (lg_runs l) r = Some s"
  obtains v where "ledger_run_view l r = Ok v" "is_active v \<longleftrightarrow> ri_active s"
    "initiating_app v = ri_initiating_app s" "rv_run_id v = r"
proof -
  from assms have "well_bracketed r (Some s) (run_events r (map lr_event (lg_records l)))"
    using history_well_bracketed unfolding ledger_inv_def by metis
  then obtain i g body tail where
    events: "run_events r (map lr_event (lg_records l)) = RunStarted r i g # body @ tail"
    and body: "run_body body" and app: "ri_initiating_app s = initiator_app_id i"
    and tail: "if ri_active s then tail = [] else (\<exists>t. tail = [RunEnded r t])"
    by (auto simp: well_bracketed_def)
  define v0 where "v0 = \<lparr>rv_run_id = r, rv_initiator = i, rv_goal = g, rv_grants_exercised = [],
      rv_invocations = [], rv_approvals = [], rv_artifacts_produced = [], rv_terminal_state = None\<rparr>"
  have "find_start r (lg_records l) = Some (i, g)"
    by (simp add: find_start_run_events events)
  then have view: "ledger_run_view l r = Ok (foldl view_event v0 (body @ tail))"
    by (simp add: ledger_run_view_def run_view_events events v0_def)
  have "rv_initiator (foldl view_event v0 (body @ tail)) = i"
    by (simp only: foldl_view_frame(1)) (simp add: v0_def)
  moreover have "rv_terminal_state (foldl view_event v0 (body @ tail)) = None \<longleftrightarrow> ri_active s"
    using foldl_view_frame(2)[OF body, of v0] tail
    by (cases "ri_active s") (auto simp: v0_def)
  moreover have "rv_run_id (foldl view_event v es) = rv_run_id v" for v es
    by (induction es arbitrary: v) auto
  ultimately show thesis
    using that[OF view] app by (auto simp: is_active_def initiating_app_def v0_def)
qed

lemma run_view_unknown:
  assumes "ledger_inv l" "bt_get (lg_runs l) r = None"
  shows "ledger_run_view l r = Err (UnknownRun r)"
proof -
  from assms have "run_events r (map lr_event (lg_records l)) = []"
    using history_well_bracketed[of _ "lg_runs l" r] unfolding ledger_inv_def well_bracketed_def
    by fastforce
  then show ?thesis
    by (simp add: ledger_run_view_def find_start_run_events)
qed

lemma run_view_Ok_iff:
  assumes "ledger_inv l"
  shows "(\<exists>v. ledger_run_view l r = Ok v) \<longleftrightarrow> bt_contains (lg_runs l) r"
  using assms run_view_unknown[OF assms, of r]
  by (cases "bt_get (lg_runs l) r") (auto simp: bt_contains_def elim: run_view_known)

lemma run_view_active_iff:
  assumes "ledger_inv l" "ledger_run_view l r = Ok v"
  shows "\<exists>s. bt_get (lg_runs l) r = Some s \<and> is_active v = ri_active s \<and>
           initiating_app v = ri_initiating_app s"
proof (cases "bt_get (lg_runs l) r")
  case None
  with run_view_unknown[OF assms(1)] assms(2) show ?thesis by simp
next
  case (Some s)
  from run_view_known[OF assms(1) this] assms(2) show ?thesis
    using Some by (metis result.inject(1))
qed

section \<open>What the ledger guarantees\<close>

text \<open>
  C15: a batched append decides and does exactly what appending its events one after the other
  does, although it validates against a staged copy of the touched runs: it succeeds iff every
  single append succeeds, with the same resulting ledger, and then the new records are the
  events in order behind the old records; when one event is refused it reports that refusal.
\<close>

theorem append_batch_equivalence:
  "(case append_batch now l events of
      Ok (rs, l') \<Rightarrow> append_all now l events = Ok l' \<and> lg_records l' = lg_records l @ rs \<and>
        map lr_event rs = events
    | Err e \<Rightarrow> append_all now l events = Err e)"
  by (auto simp: append_batch_Err append_batch_Ok append_batch_records split: result.splits)

definition sample_events :: "ledger_event list" where
  "sample_events =
     [RunStarted ''r1'' (SurfaceAction ''notes'' ''main'') ''save'',
      RunStarted ''r2'' (SurfaceAction ''mail'' ''inbox'') ''send'',
      CapabilityInvoked ''r1'' (CapabilityRef ''notes'' ''save'') ''g1'' ''00'' ScopeNone,
      RunEnded ''r2'' RunCancelled]"



end
