(* ===== verification/Ledger_Replay.thy ===== *)
theory Ledger_Replay
  imports Ledger_Index "HOL-Library.Multiset"
begin

text \<open>
  Reconstruction of the ledger. Indexing and the replay of outstanding actions both work run by
  run, which the locale \<open>keyed_fold\<close> states once for both. Shown here: what \<open>ledger_restore\<close>
  accepts, that a restored ledger is its input, and that the events the kernel appends while
  recovering (a cancellation for every outstanding action, an interruption for every active
  run) always apply, close every run, leave nothing outstanding and give a history that can
  be restored again.
\<close>

section \<open>Folds that work run by run\<close>

locale keyed_fold =
  fixes step :: "'m \<Rightarrow> 'e \<Rightarrow> ('m, 'x) result"
    and part :: "'m \<Rightarrow> 'k \<Rightarrow> 'a"
    and key :: "'e \<Rightarrow> 'k"
    and part_step :: "'a \<Rightarrow> 'e \<Rightarrow> ('a, 'x) result"
  assumes step_part: "step m e = Ok m' \<Longrightarrow> part_step (part m (key e)) e = Ok (part m' (key e))"
    and step_frame: "step m e = Ok m' \<Longrightarrow> k \<noteq> key e \<Longrightarrow> part m' k = part m k"
    and step_total: "part_step (part m (key e)) e = Ok a \<Longrightarrow> \<exists>m'. step m e = Ok m'"
begin

lemma fold_part:
  "try_fold step m es = Ok m' \<Longrightarrow>
     try_fold part_step (part m k) (filter (\<lambda>e. key e = k) es) = Ok (part m' k)"
proof (induction es arbitrary: m)
  case (Cons e es)
  then obtain mid where mid: "step m e = Ok mid" "try_fold step mid es = Ok m'"
    by (auto simp: bind_r_Ok_iff)
  show ?case
  proof (cases "key e = k")
    case True
    with step_part[OF mid(1)] Cons.IH[OF mid(2)] show ?thesis by simp
  next
    case False
    with step_frame[OF mid(1), of k] Cons.IH[OF mid(2)] show ?thesis by simp
  qed
qed simp

lemma fold_total:
  "(\<And>k. \<exists>a. try_fold part_step (part m k) (filter (\<lambda>e. key e = k) es) = Ok a) \<Longrightarrow>
     \<exists>m'. try_fold step m es = Ok m'"
proof (induction es arbitrary: m)
  case (Cons e es)
  from Cons.prems[of "key e"] obtain a where a: "part_step (part m (key e)) e = Ok a"
    by (auto simp: bind_r_Ok_iff)
  with step_total obtain mid where mid: "step m e = Ok mid" by blast
  have "\<exists>b. try_fold part_step (part mid k) (filter (\<lambda>e. key e = k) es) = Ok b" for k
  proof (cases "key e = k")
    case True
    with Cons.prems[of k] step_part[OF mid] show ?thesis
      by (auto simp: bind_r_Ok_iff)
  next
    case False
    with Cons.prems[of k] step_frame[OF mid, of k] show ?thesis by simp
  qed
  from Cons.IH[OF this] mid show ?case by auto
qed simp

lemma fold_by_part:
  assumes "\<And>k. try_fold part_step (part m k) (filter (\<lambda>e. key e = k) es) = Ok (f k)"
  shows "\<exists>m'. try_fold step m es = Ok m' \<and> (\<forall>k. part m' k = f k)"
proof -
  from assms fold_total obtain m' where "try_fold step m es = Ok m'" by blast
  with assms show ?thesis using fold_part[of m es m'] by auto
qed

end

text \<open>The index, seen from one run.\<close>

definition entry_step :: "run_index_entry option \<Rightarrow> ledger_event \<Rightarrow> run_index_entry option kernel_result" where
  "entry_step entry event = (case event of
       RunStarted r i _ \<Rightarrow> (case entry of
           None \<Rightarrow> Ok (Some \<lparr>ri_initiating_app = initiator_app_id i, ri_active = True\<rparr>)
         | Some _ \<Rightarrow> Err (RunAlreadyStarted r))
     | _ \<Rightarrow> (case entry of
           None \<Rightarrow> Err (UnknownRun (ev_run_id event))
         | Some s \<Rightarrow>
             if \<not> ri_active s then Err (RunAlreadyEnded (ev_run_id event))
             else Ok (Some (if is_end event then s\<lparr>ri_active := False\<rparr> else s))))"

lemma entry_step_ledger_step:
  "entry_step (bt_get runs (ev_run_id event)) event =
     map_ok (\<lambda>runs'. bt_get runs' (ev_run_id event)) (ledger_step runs event)"
  by (cases event)
    (auto simp: entry_step_def ledger_step_def validate_append_def bt_contains_def
      bt_get_index_event split: option.splits)

interpretation ledger_by_run: keyed_fold ledger_step bt_get ev_run_id entry_step
proof
  fix m m' :: run_index and e :: ledger_event and a and k :: run_id
  { assume "ledger_step m e = Ok m'"
    then show "entry_step (bt_get m (ev_run_id e)) e = Ok (bt_get m' (ev_run_id e))"
      by (simp add: entry_step_ledger_step) }
  { assume "ledger_step m e = Ok m'" "k \<noteq> ev_run_id e"
    then show "bt_get m' k = bt_get m k"
      by (simp add: ledger_step_Ok_iff bt_get_index_event) }
  { assume "entry_step (bt_get m (ev_run_id e)) e = Ok a"
    then show "\<exists>m'. ledger_step m e = Ok m'"
      by (auto simp: entry_step_ledger_step) }
qed

interpretation replay_by_run:
  keyed_fold replay_record actions_of "\<lambda>entry. ev_run_id (lr_event entry)"
    "\<lambda>actions entry. replay_event actions (lr_event entry)"
  by unfold_locales
    (auto simp: replay_record_def Let_def bind_r_Ok_iff actions_of_def bt_get_insert)

lemma try_fold_map: "try_fold f s (map g xs) = try_fold (\<lambda>s x. f s (g x)) s xs"
  by (induction xs arbitrary: s) (auto intro: arg_cong[of _ _ "bind_r _"])

lemma replay_fold_part:
  assumes "try_fold replay_record m records = Ok m'"
  shows "try_fold replay_event (actions_of m r) (run_events r (map lr_event records)) =
    Ok (actions_of m' r)"
  using replay_by_run.fold_part[OF assms, of r]
  by (simp add: run_events_def filter_map comp_def try_fold_map)

lemma replay_fold_by_part:
  assumes "\<And>r. try_fold replay_event (actions_of m r) (run_events r (map lr_event records)) = Ok (f r)"
  shows "\<exists>m'. try_fold replay_record m records = Ok m' \<and> (\<forall>r. actions_of m' r = f r)"
  using assms
  by (intro replay_by_run.fold_by_part) (simp add: run_events_def filter_map comp_def try_fold_map)

lemma actions_of_empty [simp]: "actions_of bt_empty r = no_actions"
  by (simp add: actions_of_def)

section \<open>Outstanding actions as a multiset\<close>

definition outstanding_pairs :: "outstanding_actions \<Rightarrow> (capability_ref \<times> data_scope) multiset" where
  "outstanding_pairs actions =
     image_mset (\<lambda>k. (ik_capability k, ik_data_scope k)) (mset (oa_invocations actions)) +
     image_mset (\<lambda>k. (ak_capability k, ak_data_scope k)) (mset (oa_granted_approvals actions)) +
     image_mset (\<lambda>k. (ak_capability k, ak_data_scope k)) (mset (oa_requested_approvals actions))"

lemma outstanding_pairs_empty_iff [simp]: "outstanding_pairs actions = {#} \<longleftrightarrow> actions = no_actions"
  by (cases actions) (auto simp: outstanding_pairs_def no_actions_def)

lemma remove_first_image:
  assumes "remove_first p xs = Some ys" "\<And>x. p x \<Longrightarrow> f x = c"
  shows "image_mset f (mset xs) = add_mset c (image_mset f (mset ys))"
  using remove_first_Some[OF assms(1)] assms(2) by auto

lemma close_action_Some:
  assumes "close_action actions capability scope = Some actions'"
  shows "outstanding_pairs actions = add_mset (capability, scope) (outstanding_pairs actions')"
  using assms
  by (auto simp: close_action_def outstanding_pairs_def remove_by_capability_scope_def
      remove_approval_by_capability_scope_def
      dest!: remove_first_image[where c = "(capability, scope)" and
        f = "\<lambda>k. (ik_capability k, ik_data_scope k)"]
      remove_first_image[where c = "(capability, scope)" and
        f = "\<lambda>k. (ak_capability k, ak_data_scope k)"]
      split: option.splits)

lemma close_action_None:
  "close_action actions capability scope = None \<longleftrightarrow> (capability, scope) \<notin># outstanding_pairs actions"
proof -
  have "close_action actions capability scope = None \<longleftrightarrow>
      remove_by_capability_scope (oa_invocations actions) capability scope = None \<and>
      remove_approval_by_capability_scope (oa_granted_approvals actions) capability scope = None \<and>
      remove_approval_by_capability_scope (oa_requested_approvals actions) capability scope = None"
    by (simp add: close_action_def split: option.split)
  then show ?thesis
    by (auto simp: outstanding_pairs_def remove_by_capability_scope_def
        remove_approval_by_capability_scope_def)
qed

lemma cancel_all:
  "mset pairs = outstanding_pairs actions \<Longrightarrow>
     try_fold replay_event actions (map (\<lambda>(c, s). InvocationCancelled r c s) pairs) = Ok no_actions"
proof (induction pairs arbitrary: actions)
  case (Cons p pairs)
  obtain c s where p: "p = (c, s)" by force
  with Cons.prems have "(c, s) \<in># outstanding_pairs actions"
    by (metis list.set_intros(1) set_mset_mset)
  then obtain actions' where close: "close_action actions c s = Some actions'"
    by (cases "close_action actions c s") (simp_all add: close_action_None)
  with close_action_Some[OF close] Cons.prems p have "mset pairs = outstanding_pairs actions'"
    by simp
  with Cons.IH close p show ?case by simp
qed (metis mset.simps(1) outstanding_pairs_empty_iff list.map(1) try_fold.simps(1))

lemma cancellation_pairs:
  obtains pairs where "mset pairs = outstanding_pairs actions"
    "cancellation_events_of r actions = map (\<lambda>(c, s). InvocationCancelled r c s) pairs"
proof
  let ?pairs = "map (\<lambda>k. (ak_capability k, ak_data_scope k))
      (oa_requested_approvals actions @ oa_granted_approvals actions) @
    map (\<lambda>k. (ik_capability k, ik_data_scope k)) (oa_invocations actions)"
  show "mset ?pairs = outstanding_pairs actions"
    by (simp add: outstanding_pairs_def ac_simps)
  show "cancellation_events_of r actions = map (\<lambda>(c, s). InvocationCancelled r c s) ?pairs"
    by (simp add: cancellation_events_of_def)
qed

lemma replay_cancellations:
  "try_fold replay_event actions (cancellation_events_of r actions) = Ok no_actions"
  by (metis cancel_all cancellation_pairs)

lemma cancellation_events_shape:
  "event \<in> set (cancellation_events_of r actions) \<Longrightarrow> \<exists>c s. event = InvocationCancelled r c s"
  by (auto simp: cancellation_events_of_def)

section \<open>What the restoring path accepts\<close>

definition restore_step :: "run_index \<Rightarrow> ledger_event \<Rightarrow> run_index kernel_result" where
  "restore_step runs event =
     bind_r (check_child_attribution runs event) (\<lambda>_. ledger_step runs event)"

definition restorable :: "ledger_record list \<Rightarrow> bool" where
  "restorable records \<longleftrightarrow> contiguous records \<and>
     is_ok (try_fold restore_step bt_empty (map lr_event records)) \<and>
     is_ok (replay_action_state records)"

lemma restore_fold:
  "(\<exists>n' v'. try_fold (restore_record now) (n, v) records = Ok (n', v') \<and> lg_runs v' = runs) \<longleftrightarrow>
     (\<forall>i<length records. lr_sequence (records ! i) = of_nat (n + i)) \<and>
     try_fold restore_step (lg_runs v) (map lr_event records) = Ok runs"
proof (induction records arbitrary: n v)
  case (Cons entry records)
  let ?e = "lr_event entry"
  have seq: "(\<forall>i<length (entry # records). lr_sequence ((entry # records) ! i) = of_nat (n + i)) \<longleftrightarrow>
      lr_sequence entry = of_nat n \<and>
      (\<forall>i<length records. lr_sequence (records ! i) = of_nat (Suc n + i))"
    by (auto simp: All_less_Suc2)
  show ?case
  proof (cases "lr_sequence entry = of_nat n \<and> check_child_attribution (lg_runs v) ?e = Ok () \<and>
      validate_append (lg_runs v) ?e = Ok ()")
    case True
    from True have "\<exists>w. ledger_append now v ?e = Ok (\<lparr>lr_sequence = of_nat (length (lg_records v)),
        lr_recorded_at = now, lr_event = ?e\<rparr>, w) \<and> lg_runs w = index_event (lg_runs v) ?e"
      by (auto simp: ledger_append_Ok_iff)
    then obtain q w where q: "ledger_append now v ?e = Ok (q, w)"
        "lg_runs w = index_event (lg_runs v) ?e" by blast
    with True have "restore_record now (n, v) entry = Ok (Suc n, w)"
      by (simp add: restore_record_def)
    moreover from True have "restore_step (lg_runs v) ?e = Ok (lg_runs w)"
      by (simp add: restore_step_def ledger_step_def q)
    ultimately show ?thesis
      using Cons.IH[of "Suc n" w] True by (simp only: seq list.map try_fold.simps bind_r.simps simp_thms)
  next
    case False
    then have "\<not> (\<exists>x. restore_record now (n, v) entry = Ok x)"
      by (auto simp: restore_record_def bind_r_Ok_iff ledger_append_Ok_iff)
    moreover from False have "lr_sequence entry \<noteq> of_nat n \<or> \<not> (\<exists>x. restore_step (lg_runs v) ?e = Ok x)"
      by (auto simp: restore_step_def ledger_step_def bind_r_Ok_iff)
    ultimately show ?thesis
      by (auto simp: bind_r_Ok_iff seq simp del: length_Cons)
  qed
qed simp

lemma with_records_eq:
  fixes v l :: run_ledger
  shows "v\<lparr>lg_records := records\<rparr> = l \<longleftrightarrow> lg_records l = records \<and> lg_runs v = lg_runs l"
  by (cases v, cases l) auto

lemma ledger_restore_Ok_iff:
  "ledger_restore now records = Ok l \<longleftrightarrow>
     lg_records l = records \<and> contiguous records \<and>
     try_fold restore_step bt_empty (map lr_event records) = Ok (lg_runs l) \<and>
     is_ok (replay_action_state records)"
proof -
  have "ledger_restore now records = Ok l \<longleftrightarrow>
      lg_records l = records \<and> is_ok (replay_action_state records) \<and>
      (\<exists>n' v'. try_fold (restore_record now) (0, ledger_new) records = Ok (n', v') \<and>
        lg_runs v' = lg_runs l)"
    by (auto simp: ledger_restore_def bind_r_Ok_iff is_ok_iff with_records_eq)
  then show ?thesis
    by (auto simp: restore_fold contiguous_def ledger_new_def)
qed

lemma ledger_restore_iff_restorable:
  "is_ok (ledger_restore now records) \<longleftrightarrow> restorable records"
proof
  assume "is_ok (ledger_restore now records)"
  then show "restorable records"
    by (auto simp: is_ok_iff[of "ledger_restore _ _"] ledger_restore_Ok_iff restorable_def)
next
  assume *: "restorable records"
  then obtain runs where "try_fold restore_step bt_empty (map lr_event records) = Ok runs"
    by (auto simp: restorable_def is_ok_iff)
  with * have "ledger_restore now records = Ok \<lparr>lg_records = records, lg_runs = runs\<rparr>"
    by (simp add: ledger_restore_Ok_iff restorable_def)
  then show "is_ok (ledger_restore now records)" by simp
qed

lemma restore_fold_history:
  "try_fold restore_step runs events = Ok runs' \<Longrightarrow> try_fold ledger_step runs events = Ok runs'"
  by (induction events arbitrary: runs) (auto simp: restore_step_def bind_r_Ok_iff)

lemma ledger_restore_inv: "ledger_restore now records = Ok l \<Longrightarrow> ledger_inv l"
  by (auto simp: ledger_restore_Ok_iff ledger_inv_def history_index_def dest: restore_fold_history)

lemma ledger_restore_unique:
  "ledger_restore now records = Ok l \<Longrightarrow> ledger_inv m \<Longrightarrow> lg_records m = records \<Longrightarrow> l = m"
  by (cases l, cases m)
    (auto simp: ledger_restore_Ok_iff ledger_inv_def history_index_def dest: restore_fold_history)

section \<open>Recovery\<close>

lemma outstanding_active:
  assumes inv: "ledger_inv l" and replay: "replay_action_state (lg_records l) = Ok outstanding"
    and some: "actions_of outstanding r \<noteq> no_actions"
  shows "\<exists>s. bt_get (lg_runs l) r = Some s \<and> ri_active s"
proof -
  let ?es = "run_events r (map lr_event (lg_records l))"
  from replay have fold: "try_fold replay_event no_actions ?es = Ok (actions_of outstanding r)"
    unfolding replay_action_state_def by (metis replay_fold_part actions_of_empty)
  from inv have wb: "well_bracketed r (bt_get (lg_runs l) r) ?es"
    unfolding ledger_inv_def by (metis history_well_bracketed)
  show ?thesis
  proof (cases "bt_get (lg_runs l) r")
    case None
    with wb fold some show ?thesis by (simp add: well_bracketed_def)
  next
    case (Some s)
    show ?thesis
    proof (cases "ri_active s")
      case False
      with wb Some obtain pre t where es: "?es = pre @ [RunEnded r t]"
        by (auto simp: well_bracketed_def)
      have "actions_of outstanding r = no_actions"
        using fold unfolding es try_fold_snoc
        by (auto simp: bind_r_Ok_iff no_actions_def split: if_splits)
      with some show ?thesis by simp
    qed (simp add: Some)
  qed
qed

definition recovery_events :: "run_ledger \<Rightarrow> outstanding_map \<Rightarrow> ledger_event list" where
  "recovery_events l outstanding =
     concat (map (\<lambda>(run_id, actions). cancellation_events_of run_id actions) (bt_entries outstanding)) @
     map (\<lambda>run_id. RunEnded run_id RunInterrupted) (active_run_ids l)"

lemma run_events_append [simp]: "run_events r (xs @ ys) = run_events r xs @ run_events r ys"
  by (simp add: run_events_def)

lemma run_events_cancellations:
  "run_events r (cancellation_events_of r' actions) =
     (if r' = r then cancellation_events_of r actions else [])"
  by (auto simp: run_events_def filter_empty_conv intro!: filter_True
      dest!: cancellation_events_shape)

lemma cancellation_no_actions [simp]: "cancellation_events_of r no_actions = []"
  by (simp add: cancellation_events_of_def no_actions_def)

lemma run_events_concat:
  "distinct (map fst es) \<Longrightarrow>
     run_events r (concat (map (\<lambda>(run_id, actions). cancellation_events_of run_id actions) es)) =
     cancellation_events_of r (case map_of es r of Some a \<Rightarrow> a | None \<Rightarrow> no_actions)"
proof (induction es)
  case Nil
  then show ?case by (simp add: run_events_def)
next
  case (Cons e es)
  moreover obtain r' a where e: "e = (r', a)" by force
  ultimately have IH: "run_events r (concat (map (\<lambda>(run_id, actions). cancellation_events_of run_id actions) es)) =
     cancellation_events_of r (case map_of es r of Some a \<Rightarrow> a | None \<Rightarrow> no_actions)"
    and new: "map_of es r' = None"
    using Cons.prems by (auto simp: map_of_eq_None_iff)
  show ?case
    using IH new
    by (auto simp: e run_events_cancellations)
qed

lemma run_events_ends:
  "distinct rs \<Longrightarrow>
     run_events r (map (\<lambda>run_id. RunEnded run_id t) rs) = (if r \<in> set rs then [RunEnded r t] else [])"
  by (induction rs) (auto simp: run_events_def)

lemma in_active_run_ids:
  "r \<in> set (active_run_ids l) \<longleftrightarrow> (\<exists>s. bt_get (lg_runs l) r = Some s \<and> ri_active s)"
  by (auto simp: active_run_ids_def in_entries_iff image_iff)

lemma distinct_active_run_ids: "distinct (active_run_ids l)"
  by (simp add: active_run_ids_def distinct_map_filter split_def)

lemma run_events_recovery:
  "run_events r (recovery_events l outstanding) =
     cancellation_events_of r (actions_of outstanding r) @
     (if r \<in> set (active_run_ids l) then [RunEnded r RunInterrupted] else [])"
  by (simp add: recovery_events_def run_events_concat run_events_ends distinct_active_run_ids
      actions_of_def bt_get_def)

lemma entry_cancellations:
  "ri_active s \<Longrightarrow> try_fold entry_step (Some s) (cancellation_events_of r actions) = Ok (Some s)"
proof -
  assume "ri_active s"
  then have "\<forall>e\<in>set es. \<exists>c d. e = InvocationCancelled r c d \<Longrightarrow> try_fold entry_step (Some s) es = Ok (Some s)" for es
    by (induction es) (auto simp: entry_step_def)
  then show ?thesis by (metis cancellation_events_shape)
qed

lemma recovery_replays:
  assumes inv: "ledger_inv l" and replay: "replay_action_state (lg_records l) = Ok outstanding"
    and events: "map lr_event rs = recovery_events l outstanding"
  shows "\<exists>m. replay_action_state (lg_records l @ rs) = Ok m \<and> (\<forall>r. actions_of m r = no_actions)"
proof -
  have "try_fold replay_event (actions_of outstanding r) (run_events r (map lr_event rs)) = Ok no_actions" for r
    by (simp add: events run_events_recovery try_fold_append replay_cancellations)
      (simp add: no_actions_def)
  from replay_fold_by_part[OF this] replay show ?thesis
    by (simp add: replay_action_state_def try_fold_append)
qed

lemma recovery_indexes:
  assumes inv: "ledger_inv l" and replay: "replay_action_state (lg_records l) = Ok outstanding"
  shows "\<exists>runs. try_fold ledger_step (lg_runs l) (recovery_events l outstanding) = Ok runs \<and>
    (\<forall>r. bt_get runs r = map_option (\<lambda>s. s\<lparr>ri_active := False\<rparr>) (bt_get (lg_runs l) r))"
proof (rule ledger_by_run.fold_by_part)
  fix r
  let ?f = "map_option (\<lambda>s. s\<lparr>ri_active := False\<rparr>)"
  have "try_fold entry_step (bt_get (lg_runs l) r) (run_events r (recovery_events l outstanding)) =
      Ok (?f (bt_get (lg_runs l) r))"
  proof (cases "r \<in> set (active_run_ids l)")
    case True
    then obtain s where "bt_get (lg_runs l) r = Some s" "ri_active s"
      by (auto simp: in_active_run_ids)
    with True show ?thesis
      by (simp add: run_events_recovery try_fold_append entry_cancellations)
        (simp add: entry_step_def)
  next
    case False
    then have "actions_of outstanding r = no_actions"
      using outstanding_active[OF inv replay, of r] by (auto simp: in_active_run_ids)
    moreover from False have "?f (bt_get (lg_runs l) r) = bt_get (lg_runs l) r"
      by (cases "bt_get (lg_runs l) r") (auto simp: in_active_run_ids)
    ultimately show ?thesis
      using False by (simp add: run_events_recovery)
  qed
  then show "try_fold entry_step (bt_get (lg_runs l) r)
      (filter (\<lambda>e. ev_run_id e = r) (recovery_events l outstanding)) = Ok (?f (bt_get (lg_runs l) r))"
    by (simp add: run_events_def)
qed

lemma restore_fold_no_start:
  "try_fold ledger_step runs events = Ok runs' \<Longrightarrow> \<forall>e\<in>set events. \<not> is_start e \<Longrightarrow>
     try_fold restore_step runs events = Ok runs'"
proof (induction events arbitrary: runs)
  case (Cons e es)
  then have "check_child_attribution runs e = Ok ()"
    by (cases e) (auto simp: check_child_attribution_def)
  with Cons show ?case
    by (auto simp: restore_step_def bind_r_Ok_iff)
qed simp

lemma recovery_events_no_start: "\<forall>e\<in>set (recovery_events l outstanding). \<not> is_start e"
  by (auto simp: recovery_events_def dest!: cancellation_events_shape)

text \<open>
  The two steps of recovery together: the batch is accepted, and the ledger it gives is closed.
\<close>

definition closed_ledger :: "run_ledger \<Rightarrow> bool" where
  "closed_ledger l \<longleftrightarrow> ledger_inv l \<and> active_run_ids l = [] \<and> restorable (lg_records l) \<and>
     incomplete_invocation_cancellations l = Ok []"

lemma no_outstanding_events:
  assumes "\<forall>r. actions_of m r = no_actions"
  shows "concat (map (\<lambda>(run_id, actions). cancellation_events_of run_id actions) (bt_entries m)) = []"
proof -
  have "cancellation_events_of r a = []" if "(r, a) \<in> set (bt_entries m)" for r a
    using that assms[rule_format, of r]
    by (simp add: in_entries_iff actions_of_def)
  then show ?thesis by auto
qed

lemma recovery_closes:
  assumes restore: "ledger_restore now records = Ok l"
    and events: "incomplete_invocation_cancellations l = Ok cancellations"
  shows "\<exists>rs l'. append_batch now' l
      (cancellations @ map (\<lambda>run_id. RunEnded run_id RunInterrupted) (active_run_ids l)) = Ok (rs, l') \<and>
      closed_ledger l'"
proof -
  from events obtain outstanding where replay: "replay_action_state (lg_records l) = Ok outstanding"
    and evs: "cancellations @ map (\<lambda>run_id. RunEnded run_id RunInterrupted) (active_run_ids l) =
      recovery_events l outstanding"
    by (auto simp: incomplete_invocation_cancellations_def bind_r_Ok_iff recovery_events_def)
  have inv: "ledger_inv l" by (rule ledger_restore_inv[OF restore])
  from recovery_indexes[OF inv replay] obtain runs where
    runs: "try_fold ledger_step (lg_runs l) (recovery_events l outstanding) = Ok runs"
    and ended: "\<forall>r. bt_get runs r = map_option (\<lambda>s. s\<lparr>ri_active := False\<rparr>) (bt_get (lg_runs l) r)"
    by blast
  from append_all_total[OF runs] obtain l' where all: "append_all now' l (recovery_events l outstanding) = Ok l'"
    by blast
  then obtain rs where batch: "append_batch now' l (recovery_events l outstanding) = Ok (rs, l')"
    using append_batch_is_append_all[of now' l] by (metis map_ok_Ok_iff prod.collapse)
  note recs = append_batch_records[OF batch]
  have runs': "lg_runs l' = runs"
    using append_all_runs[OF all] runs by simp
  from recovery_replays[OF inv replay recs(2)] obtain m where
    m: "replay_action_state (lg_records l') = Ok m" "\<forall>r. actions_of m r = no_actions"
    by (auto simp: recs(1))
  have inv': "ledger_inv l'" by (rule append_batch_inv[OF inv batch])
  moreover have "active_run_ids l' = []"
  proof (rule ccontr)
    assume "active_run_ids l' \<noteq> []"
    then obtain r where "r \<in> set (active_run_ids l')" by (cases "active_run_ids l'") auto
    with ended runs' show False by (auto simp: in_active_run_ids)
  qed
  moreover have "restorable (lg_records l')"
    using inv' restore m(1) restore_fold_no_start[OF runs recovery_events_no_start]
    by (simp add: restorable_def ledger_inv_def ledger_restore_Ok_iff recs try_fold_append)
  moreover have "incomplete_invocation_cancellations l' = Ok []"
    using m no_outstanding_events[OF m(2)] by (simp add: incomplete_invocation_cancellations_def)
  ultimately show ?thesis
    using batch evs by (auto simp: closed_ledger_def)
qed

section \<open>What recovery of the ledger guarantees\<close>

definition sample_records :: "ledger_record list" where
  "sample_records = map (\<lambda>(n, event). \<lparr>lr_sequence = of_nat n, lr_recorded_at = 5, lr_event = event\<rparr>)
     (enumerate 0 sample_events)"

text \<open>
  C17: after a crash, the events by which recovery closes the restored history are always
  accepted by the ledger: the cancellations of the work left open can be computed, the batch
  of them with one interruption per active run is appended, and the resulting ledger has no
  active run, no open approval or invocation, and can itself be restored again.
\<close>

theorem recovery_closes_history:
  assumes "ledger_restore now records = Ok l"
  shows "\<exists>cancellations rs l'. incomplete_invocation_cancellations l = Ok cancellations \<and>
    append_batch now' l (cancellations @ map (\<lambda>run_id. RunEnded run_id RunInterrupted) (active_run_ids l)) = Ok (rs, l') \<and>
    closed_ledger l'"
proof -
  have "is_ok (incomplete_invocation_cancellations l)"
    using assms by (auto simp: ledger_restore_Ok_iff incomplete_invocation_cancellations_def is_ok_iff)
  then obtain cancellations where "incomplete_invocation_cancellations l = Ok cancellations"
    by (auto simp: is_ok_iff)
  with recovery_closes[OF assms this] show ?thesis by blast
qed

theorem recovery_closes_history_witness:
  "\<exists>l cancellations rs l'. ledger_restore 6 sample_records = Ok l \<and>
    incomplete_invocation_cancellations l = Ok cancellations \<and>
    append_batch 7 l (cancellations @ map (\<lambda>run_id. RunEnded run_id RunInterrupted) (active_run_ids l)) = Ok (rs, l') \<and>
    closed_ledger l'"
proof -
  have "is_ok (ledger_restore 6 sample_records)" by code_simp
  then obtain l where "ledger_restore 6 sample_records = Ok l" by (auto simp: is_ok_iff)
  with recovery_closes_history[OF this, of 7] show ?thesis by blast
qed

text \<open>
  Restoring never guesses: a restored ledger holds exactly the given records and the index
  its history determines, so that two ledgers restored from the same records are equal, at
  whatever time they are restored.
\<close>

theorem restore_deterministic:
  assumes "ledger_restore now records = Ok l"
  shows "lg_records l = records \<and> ledger_inv l \<and> ledger_restore now' records = Ok l"
proof -
  have "is_ok (ledger_restore now' records)"
    using assms ledger_restore_iff_restorable[of now records] by (simp add: ledger_restore_iff_restorable)
  then obtain m where m: "ledger_restore now' records = Ok m" by (auto simp: is_ok_iff)
  have "m = l"
    using ledger_restore_unique[OF m ledger_restore_inv[OF assms]] assms
    by (simp add: ledger_restore_Ok_iff)
  with m assms ledger_restore_inv[OF assms] show ?thesis by (simp add: ledger_restore_Ok_iff)
qed

theorem restore_deterministic_witness:
  "\<exists>l. ledger_restore 6 sample_records = Ok l \<and> lg_records l = sample_records \<and>
     ledger_restore 9 sample_records = Ok l"
proof -
  have "is_ok (ledger_restore 6 sample_records)" by code_simp
  then obtain l where "ledger_restore 6 sample_records = Ok l" by (auto simp: is_ok_iff)
  with restore_deterministic[OF this, of 9] show ?thesis by blast
qed

end
