(* ===== verification/Registry.thy ===== *)
theory Registry
  imports Manifest Ledger
begin

text \<open>
  \<open>crates/kernel/src/services/registry.rs\<close>: the catalog of installed apps. Every entry is filed
  under the id of its manifest and passed \<open>validate_local\<close>; this is kept by installing,
  upgrading, uninstalling and restoring, and makes a catalog the same after it was written out
  and read back. The clock of the source is the argument \<open>now\<close>.
\<close>

definition app_data_changed_topic :: event_topic where
  "app_data_changed_topic = ''app-data-changed''"

record installed_app =
  ia_manifest :: app_manifest
  ia_content_hash :: string
  ia_installed_at :: datetime

record registry =
  rg_apps :: "(app_id, installed_app) btree_map"

definition registry_new :: registry where
  "registry_new = \<lparr>rg_apps = bt_empty\<rparr>"

definition validate_capability_schemas :: "externals \<Rightarrow> capability_declaration \<Rightarrow> unit kernel_result" where
  "validate_capability_schemas x capability =
     bind_r (require_valid_schema x (cd_input_schema capability)
       (''input schema of capability '' @ quoted (cd_name capability))) (\<lambda>_.
     case cd_output_schema capability of
       None \<Rightarrow> Ok ()
     | Some output_schema \<Rightarrow> require_valid_schema x output_schema
         (''output schema of capability '' @ quoted (cd_name capability)))"

definition validate_local :: "externals \<Rightarrow> sealed_manifest \<Rightarrow> unit kernel_result" where
  "validate_local x sealed =
     (let manifest = sm_manifest sealed in
      if sm_content_hash sealed \<noteq> manifest_content_hash x manifest then
        Err (ManifestContentHashMismatch (mf_app_id manifest))
      else
      bind_r (require_consistent manifest) (\<lambda>_.
      bind_r (for_each (validate_capability_schemas x) (mf_capabilities manifest)) (\<lambda>_.
      bind_r (for_each (\<lambda>artifact_type.
          require_valid_schema x (ty_json_schema artifact_type)
            (''schema of artifact type '' @ quoted (ty_name artifact_type)))
        (mf_artifact_types manifest)) (\<lambda>_.
      bind_r (for_each (\<lambda>declaration.
          require_valid_schema x (cf_json_schema declaration)
            (''config schema of declaration '' @ quoted (cf_name declaration)))
        (mf_config_declarations manifest)) (\<lambda>_.
      bind_r (for_each (\<lambda>connector. case co_config_schema connector of
            None \<Rightarrow> Ok ()
          | Some schema \<Rightarrow> require_valid_schema x schema
              (''config schema of connector '' @ quoted (co_name connector)))
        (mf_connectors manifest)) (\<lambda>_.
      bind_r (for_each (\<lambda>point.
          require_valid_schema x (ep_context_schema point)
            (''context schema of extension point '' @ quoted (ep_name point)))
        (mf_extension_points manifest)) (\<lambda>_.
      for_each (\<lambda>topic.
          if topic \<notin> set all_kinds \<and> topic \<noteq> app_data_changed_topic then
            Err (UnknownEventTopic (mf_app_id manifest) topic)
          else Ok ())
        (mf_event_subscriptions manifest))))))))"

definition registry_app :: "registry \<Rightarrow> app_id \<Rightarrow> installed_app kernel_result" where
  "registry_app r app_id = ok_or (UnknownApp app_id) (bt_get (rg_apps r) app_id)"

definition validate_install :: "externals \<Rightarrow> registry \<Rightarrow> sealed_manifest \<Rightarrow> unit kernel_result" where
  "validate_install x r sealed =
     bind_r (validate_local x sealed) (\<lambda>_.
       if bt_contains (rg_apps r) (mf_app_id (sm_manifest sealed)) then
         Err (AppAlreadyInstalled (mf_app_id (sm_manifest sealed)))
       else Ok ())"

definition registry_install ::
    "externals \<Rightarrow> datetime \<Rightarrow> registry \<Rightarrow> sealed_manifest \<Rightarrow> (installed_app \<times> registry) kernel_result" where
  "registry_install x now r sealed =
     bind_r (validate_install x r sealed) (\<lambda>_.
       let manifest = sm_manifest sealed;
           installed = \<lparr>ia_manifest = manifest, ia_content_hash = sm_content_hash sealed,
                        ia_installed_at = now\<rparr>
       in Ok (installed, r\<lparr>rg_apps := bt_insert (mf_app_id manifest) installed (rg_apps r)\<rparr>))"

definition registry_upgrade :: "externals \<Rightarrow> registry \<Rightarrow> sealed_manifest \<Rightarrow> registry kernel_result" where
  "registry_upgrade x r sealed =
     (let app_id = mf_app_id (sm_manifest sealed) in
      bind_r (registry_app r app_id) (\<lambda>installed.
      bind_r (validate_local x sealed) (\<lambda>_.
      if \<not> has_same_upgrade_contract (ia_manifest installed) (sm_manifest sealed) then
        Err (AppUpgradeContractChanged app_id)
      else Ok (r\<lparr>rg_apps := bt_insert app_id
             \<lparr>ia_manifest = sm_manifest sealed, ia_content_hash = sm_content_hash sealed,
              ia_installed_at = ia_installed_at installed\<rparr> (rg_apps r)\<rparr>))))"

definition registry_uninstall :: "registry \<Rightarrow> app_id \<Rightarrow> registry kernel_result" where
  "registry_uninstall r app_id =
     (case bt_get (rg_apps r) app_id of
        None \<Rightarrow> Err (UnknownApp app_id)
      | Some _ \<Rightarrow> Ok (r\<lparr>rg_apps := bt_remove app_id (rg_apps r)\<rparr>))"

definition installed_apps :: "registry \<Rightarrow> installed_app list" where
  "installed_apps r = bt_values (rg_apps r)"

definition sealed_of :: "installed_app \<Rightarrow> sealed_manifest" where
  "sealed_of app = \<lparr>sm_manifest = ia_manifest app, sm_content_hash = ia_content_hash app\<rparr>"

definition restore_app ::
    "externals \<Rightarrow> (app_id, installed_app) btree_map \<Rightarrow> installed_app
      \<Rightarrow> (app_id, installed_app) btree_map kernel_result" where
  "restore_app x apps app =
     bind_r (validate_local x (sealed_of app)) (\<lambda>_.
       let app_id = mf_app_id (ia_manifest app)
       in if bt_get apps app_id = None then Ok (bt_insert app_id app apps)
          else Err (Durability (''duplicate installed app '' @ quoted app_id)))"

definition registry_restore :: "externals \<Rightarrow> installed_app list \<Rightarrow> registry kernel_result" where
  "registry_restore x apps =
     map_ok (\<lambda>m. \<lparr>rg_apps = m\<rparr>) (try_fold (restore_app x) bt_empty apps)"

definition registry_capability :: "registry \<Rightarrow> capability_ref \<Rightarrow> capability_declaration kernel_result" where
  "registry_capability r capability_ref =
     bind_r (registry_app r (cr_provider capability_ref)) (\<lambda>app.
       ok_or (UndeclaredCapability (cr_provider capability_ref) (cr_capability capability_ref))
         (List.find (\<lambda>declaration. cd_name declaration = cr_capability capability_ref)
           (mf_capabilities (ia_manifest app))))"

definition registry_surface :: "registry \<Rightarrow> app_id \<Rightarrow> surface_name \<Rightarrow> surface_declaration kernel_result" where
  "registry_surface r app_id name =
     bind_r (registry_app r app_id) (\<lambda>app.
       ok_or (UndeclaredSurface app_id name)
         (List.find (\<lambda>declaration. sd_name declaration = name) (mf_surfaces (ia_manifest app))))"

definition registry_artifact_type ::
    "registry \<Rightarrow> app_id \<Rightarrow> artifact_type_name \<Rightarrow> artifact_type_declaration kernel_result" where
  "registry_artifact_type r app_id name =
     bind_r (registry_app r app_id) (\<lambda>app.
       ok_or (UndeclaredArtifactType app_id name)
         (List.find (\<lambda>declaration. ty_name declaration = name) (mf_artifact_types (ia_manifest app))))"

definition is_subscribed :: "registry \<Rightarrow> app_id \<Rightarrow> event_topic \<Rightarrow> bool" where
  "is_subscribed r app_id topic =
     (case bt_get (rg_apps r) app_id of
        None \<Rightarrow> False
      | Some app \<Rightarrow> topic \<in> set (mf_event_subscriptions (ia_manifest app)))"

section \<open>The catalog invariant\<close>

definition locally_valid :: "externals \<Rightarrow> sealed_manifest \<Rightarrow> bool" where
  "locally_valid x sealed \<longleftrightarrow>
     (let m = sm_manifest sealed in
      sm_content_hash sealed = manifest_content_hash x m \<and> manifest_consistent m \<and>
      (\<forall>c\<in>set (mf_capabilities m). x_schema_error x (cd_input_schema c) = None \<and>
         (\<forall>s. cd_output_schema c = Some s \<longrightarrow> x_schema_error x s = None)) \<and>
      (\<forall>t\<in>set (mf_artifact_types m). x_schema_error x (ty_json_schema t) = None) \<and>
      (\<forall>d\<in>set (mf_config_declarations m). x_schema_error x (cf_json_schema d) = None) \<and>
      (\<forall>c\<in>set (mf_connectors m). \<forall>s. co_config_schema c = Some s \<longrightarrow> x_schema_error x s = None) \<and>
      (\<forall>p\<in>set (mf_extension_points m). x_schema_error x (ep_context_schema p) = None) \<and>
      set (mf_event_subscriptions m) \<subseteq> insert app_data_changed_topic (set all_kinds))"

lemma validate_local_Ok_iff: "validate_local x sealed = Ok u \<longleftrightarrow> locally_valid x sealed"
  by (auto simp: validate_local_def locally_valid_def Let_def bind_r_Ok_iff
      validate_capability_schemas_def require_consistent_decides split: option.splits if_splits)

definition registry_inv :: "externals \<Rightarrow> registry \<Rightarrow> bool" where
  "registry_inv x r \<longleftrightarrow> (\<forall>app_id app. bt_get (rg_apps r) app_id = Some app \<longrightarrow>
     mf_app_id (ia_manifest app) = app_id \<and> locally_valid x (sealed_of app))"

lemma registry_invD:
  assumes "registry_inv x r" "bt_get (rg_apps r) app_id = Some app"
  shows "mf_app_id (ia_manifest app) = app_id" "locally_valid x (sealed_of app)"
  using assms by (simp_all add: registry_inv_def)

lemma sealed_of_installed [simp]:
  "sealed_of \<lparr>ia_manifest = sm_manifest sealed, ia_content_hash = sm_content_hash sealed,
     ia_installed_at = t\<rparr> = (sealed :: sealed_manifest)"
  by (cases sealed) (simp add: sealed_of_def)

lemma registry_inv_new [simp]: "registry_inv x registry_new"
  by (simp add: registry_inv_def registry_new_def)

lemma registry_app_Ok_iff [simp]: "registry_app r a = Ok app \<longleftrightarrow> bt_get (rg_apps r) a = Some app"
  by (simp add: registry_app_def)

lemma registry_app_Err_iff [simp]:
  "registry_app r a = Err e \<longleftrightarrow> bt_get (rg_apps r) a = None \<and> e = UnknownApp a"
  by (simp add: registry_app_def)

lemma registry_install_Ok_iff:
  "registry_install x now r sealed = Ok (app, r') \<longleftrightarrow>
     locally_valid x sealed \<and> bt_get (rg_apps r) (mf_app_id (sm_manifest sealed)) = None \<and>
     app = \<lparr>ia_manifest = sm_manifest sealed, ia_content_hash = sm_content_hash sealed,
            ia_installed_at = now\<rparr> \<and>
     r' = r\<lparr>rg_apps := bt_insert (mf_app_id (sm_manifest sealed)) app (rg_apps r)\<rparr>"
  by (auto simp: registry_install_def validate_install_def bind_r_Ok_iff validate_local_Ok_iff
      Let_def bt_contains_def split: if_splits)

lemma registry_install_inv:
  "registry_inv x r \<Longrightarrow> registry_install x now r sealed = Ok (app, r') \<Longrightarrow> registry_inv x r'"
  by (auto simp: registry_inv_def registry_install_Ok_iff bt_get_insert split: if_splits)

lemma registry_upgrade_Ok_iff:
  "registry_upgrade x r sealed = Ok r' \<longleftrightarrow>
     (\<exists>old. bt_get (rg_apps r) (mf_app_id (sm_manifest sealed)) = Some old \<and> locally_valid x sealed \<and>
       has_same_upgrade_contract (ia_manifest old) (sm_manifest sealed) \<and>
       r' = r\<lparr>rg_apps := bt_insert (mf_app_id (sm_manifest sealed))
              \<lparr>ia_manifest = sm_manifest sealed, ia_content_hash = sm_content_hash sealed,
               ia_installed_at = ia_installed_at old\<rparr> (rg_apps r)\<rparr>)"
  by (auto simp: registry_upgrade_def bind_r_Ok_iff validate_local_Ok_iff Let_def split: if_splits)

lemma registry_upgrade_inv:
  "registry_inv x r \<Longrightarrow> registry_upgrade x r sealed = Ok r' \<Longrightarrow> registry_inv x r'"
  by (auto simp: registry_inv_def registry_upgrade_Ok_iff bt_get_insert split: if_splits)

lemma registry_uninstall_Ok_iff:
  "registry_uninstall r a = Ok r' \<longleftrightarrow>
     bt_get (rg_apps r) a \<noteq> None \<and> r' = r\<lparr>rg_apps := bt_remove a (rg_apps r)\<rparr>"
  by (auto simp: registry_uninstall_def split: option.splits)

lemma registry_uninstall_inv:
  "registry_inv x r \<Longrightarrow> registry_uninstall r a = Ok r' \<Longrightarrow> registry_inv x r'"
  by (auto simp: registry_inv_def registry_uninstall_Ok_iff bt_get_remove)

lemma restore_app_step:
  "restore_app x m app = bind_r (validate_local x (sealed_of app)) (\<lambda>_.
     if bt_get m (mf_app_id (ia_manifest app)) = None
     then Ok (bt_insert (mf_app_id (ia_manifest app)) app m)
     else Err (Durability (''duplicate installed app '' @ quoted (mf_app_id (ia_manifest app)))))"
  by (simp add: restore_app_def Let_def)

lemma registry_restore_inv: "registry_restore x apps = Ok r \<Longrightarrow> registry_inv x r"
  using btm.load_step_sound[of "restore_app x", OF restore_app_step, of bt_empty apps "rg_apps r"]
  by (auto simp: registry_restore_def registry_inv_def validate_local_Ok_iff)

lemma registry_roundtrip:
  assumes "registry_inv x r"
  shows "registry_restore x (installed_apps r) = Ok r"
proof -
  have "try_fold (restore_app x) bt_empty (map snd (bt_entries (rg_apps r))) = Ok (rg_apps r)"
    by (rule btm.load_roundtrip[OF restore_app_step])
      (use assms in \<open>auto simp: registry_inv_def validate_local_Ok_iff\<close>)
  then show ?thesis
    by (simp add: registry_restore_def installed_apps_def bt_values_def)
qed

section \<open>Lookups\<close>

lemma registry_capability_Ok:
  "registry_capability r c = Ok d \<Longrightarrow>
     \<exists>app. bt_get (rg_apps r) (cr_provider c) = Some app \<and> d \<in> set (mf_capabilities (ia_manifest app)) \<and>
       cd_name d = cr_capability c"
  by (auto simp: registry_capability_def bind_r_Ok_iff dest: find_SomeD)

lemma registry_capability_Err:
  "registry_capability r c = Err e \<Longrightarrow>
     e = UnknownApp (cr_provider c) \<and> bt_get (rg_apps r) (cr_provider c) = None \<or>
     e = UndeclaredCapability (cr_provider c) (cr_capability c)"
  by (auto simp: registry_capability_def bind_r_Err_iff)

lemma registry_surface_Ok:
  "registry_surface r a n = Ok d \<Longrightarrow>
     \<exists>app. bt_get (rg_apps r) a = Some app \<and> d \<in> set (mf_surfaces (ia_manifest app)) \<and> sd_name d = n"
  by (auto simp: registry_surface_def bind_r_Ok_iff dest: find_SomeD)

lemma is_subscribed_iff:
  "is_subscribed r a topic \<longleftrightarrow>
     (\<exists>app. bt_get (rg_apps r) a = Some app \<and> topic \<in> set (mf_event_subscriptions (ia_manifest app)))"
  by (auto simp: is_subscribed_def split: option.splits)

text \<open>An upgrade leaves every lookup by name as it was: the declared authority is the contract.\<close>

lemma upgrade_keeps_lookups:
  assumes "registry_upgrade x r sealed = Ok r'"
  shows "registry_capability r' c = registry_capability r c"
    "registry_surface r' a s = registry_surface r a s"
    "registry_artifact_type r' a t = registry_artifact_type r a t"
    "is_subscribed r' a topic = is_subscribed r a topic"
proof -
  from assms obtain old where old: "bt_get (rg_apps r) (mf_app_id (sm_manifest sealed)) = Some old"
    and same: "has_same_upgrade_contract (ia_manifest old) (sm_manifest sealed)"
    and r': "r' = r\<lparr>rg_apps := bt_insert (mf_app_id (sm_manifest sealed))
       \<lparr>ia_manifest = sm_manifest sealed, ia_content_hash = sm_content_hash sealed,
        ia_installed_at = ia_installed_at old\<rparr> (rg_apps r)\<rparr>"
    by (auto simp: registry_upgrade_Ok_iff)
  note keep = upgrade_contract_authority[OF same]
  show "registry_capability r' c = registry_capability r c"
    using old by (cases "cr_provider c = mf_app_id (sm_manifest sealed)")
      (simp_all add: r' registry_capability_def registry_app_def keep(2))
  show "registry_surface r' a s = registry_surface r a s"
    using old by (cases "a = mf_app_id (sm_manifest sealed)")
      (simp_all add: r' registry_surface_def registry_app_def keep(3))
  show "registry_artifact_type r' a t = registry_artifact_type r a t"
    using old by (cases "a = mf_app_id (sm_manifest sealed)")
      (simp_all add: r' registry_artifact_type_def registry_app_def keep(5))
  show "is_subscribed r' a topic = is_subscribed r a topic"
    using old by (cases "a = mf_app_id (sm_manifest sealed)")
      (simp_all add: r' is_subscribed_def keep(7))
qed

end
