(* ===== verification/Surfaces.thy ===== *)
theory Surfaces
  imports Registry
begin

text \<open>
  \<open>crates/kernel/src/services/surfaces.rs\<close>: the set of open surface instances. An instance can
  only be opened for a surface its installed app declares.
\<close>

datatype surface_binding =
  SurfaceBinding (sb_app_id: app_id) (sb_surface: surface_name) (sb_instance_id: surface_instance_id)

definition binding_key :: "surface_binding \<Rightarrow> app_id \<times> surface_name \<times> surface_instance_id" where
  "binding_key b = (sb_app_id b, sb_surface b, sb_instance_id b)"

lemma binding_key_inject [simp]: "binding_key a = binding_key b \<longleftrightarrow> a = b"
  by (cases a; cases b) (auto simp: binding_key_def)

instantiation surface_binding :: linorder
begin

definition less_eq_surface_binding_def: "a \<le> b \<longleftrightarrow> binding_key a \<le> binding_key b"

definition less_surface_binding_def: "a < b \<longleftrightarrow> binding_key a < binding_key b"

instance
proof
  fix a b c :: surface_binding
  show "a < b \<longleftrightarrow> a \<le> b \<and> \<not> b \<le> a"
    by (simp add: less_eq_surface_binding_def less_surface_binding_def less_le_not_le)
  show "a \<le> a" by (simp add: less_eq_surface_binding_def)
  show "a \<le> b \<Longrightarrow> b \<le> c \<Longrightarrow> a \<le> c"
    unfolding less_eq_surface_binding_def by (rule order_trans)
  show "a \<le> b \<Longrightarrow> b \<le> a \<Longrightarrow> a = b"
    unfolding less_eq_surface_binding_def by (metis antisym binding_key_inject)
  show "a \<le> b \<or> b \<le> a"
    unfolding less_eq_surface_binding_def by (rule linear)
qed

end

record surface_manager =
  su_open :: "surface_binding btree_set"

definition surface_manager_new :: surface_manager where
  "surface_manager_new = \<lparr>su_open = bt_empty\<rparr>"

definition surface_open ::
    "string \<Rightarrow> surface_manager \<Rightarrow> registry \<Rightarrow> app_id \<Rightarrow> surface_name
      \<Rightarrow> (surface_binding \<times> surface_manager) kernel_result" where
  "surface_open uuid s r app_id surface =
     bind_r (registry_surface r app_id surface) (\<lambda>_.
       let binding = SurfaceBinding app_id surface (new_surface_instance_id uuid)
       in Ok (binding, s\<lparr>su_open := bs_insert binding (su_open s)\<rparr>))"

definition surface_close :: "surface_manager \<Rightarrow> surface_binding \<Rightarrow> surface_manager" where
  "surface_close s binding = s\<lparr>su_open := bt_remove binding (su_open s)\<rparr>"

definition close_all_for :: "surface_manager \<Rightarrow> app_id \<Rightarrow> surface_manager" where
  "close_all_for s app_id =
     s\<lparr>su_open := bt_retain (\<lambda>binding _. sb_app_id binding \<noteq> app_id) (su_open s)\<rparr>"

definition require_open :: "surface_manager \<Rightarrow> surface_binding \<Rightarrow> unit kernel_result" where
  "require_open s binding =
     (if bt_contains (su_open s) binding then Ok ()
      else Err (SurfaceNotOpen (sb_app_id binding) (sb_surface binding)))"

definition open_declared :: "registry \<Rightarrow> surface_manager \<Rightarrow> bool" where
  "open_declared r s \<longleftrightarrow> (\<forall>b. bt_contains (su_open s) b \<longrightarrow>
     is_ok (registry_surface r (sb_app_id b) (sb_surface b)))"

lemma require_open_Ok_iff [simp]: "require_open s b = Ok u \<longleftrightarrow> bt_contains (su_open s) b"
  by (simp add: require_open_def)

lemma surface_open_declared:
  "open_declared r s \<Longrightarrow> surface_open uuid s r a n = Ok (b, s') \<Longrightarrow> open_declared r s'"
  by (auto simp: open_declared_def surface_open_def bind_r_Ok_iff Let_def)

lemma surface_close_declared: "open_declared r s \<Longrightarrow> open_declared r (surface_close s b)"
  by (simp add: open_declared_def surface_close_def)

lemma close_all_contains [simp]:
  "bt_contains (su_open (close_all_for s a)) b \<longleftrightarrow> bt_contains (su_open s) b \<and> sb_app_id b \<noteq> a"
  by (auto simp: close_all_for_def bt_contains_iff)

lemma open_declared_new [simp]: "open_declared r surface_manager_new"
  by (simp add: open_declared_def surface_manager_new_def)

end
