(* ===== verification/Router.thy ===== *)
theory Router
  imports Registry
begin

text \<open>
  \<open>crates/kernel/src/services/router.rs\<close>: the event inboxes and the advisory leases. An inbox
  keeps the last 256 events in order and counts what it dropped (\<open>bounded_queue\<close>, proved once
  and interpreted on \<open>push_event\<close>); an event reaches the subscribed apps and no other. At most
  one lease is stored per target, whatever the clock reads. A \<open>chrono::Duration\<close> is a number of
  nanoseconds.
\<close>

section \<open>Events\<close>

datatype app_data_change_kind = Created | Updated | Deleted | Completed | AvailabilityChanged

datatype app_event_envelope =
    RunEvent event_topic run_id app_id "capability_ref option" "artifact_id option" "run_terminal_state option"
  | AppDataChanged app_id string u64 app_data_change_kind

definition from_event :: "ledger_event \<Rightarrow> app_id \<Rightarrow> app_event_envelope" where
  "from_event event actor =
     (let (capability, artifact_id, terminal_state) = (case event of
          RunStarted _ _ _ \<Rightarrow> (None, None, None)
        | CapabilityInvoked _ capability _ _ _ \<Rightarrow> (Some capability, None, None)
        | CapabilityCompleted _ capability _ _ _ \<Rightarrow> (Some capability, None, None)
        | CapabilityFailed _ capability _ _ _ \<Rightarrow> (Some capability, None, None)
        | InvocationRefused _ capability _ _ \<Rightarrow> (Some capability, None, None)
        | InvocationCancelled _ capability _ \<Rightarrow> (Some capability, None, None)
        | ApprovalRequested _ capability _ _ \<Rightarrow> (Some capability, None, None)
        | ApprovalGranted _ capability _ _ \<Rightarrow> (Some capability, None, None)
        | ApprovalDenied _ capability _ _ \<Rightarrow> (Some capability, None, None)
        | ArtifactProduced _ artifact_id _ \<Rightarrow> (None, Some artifact_id, None)
        | RunEnded _ terminal_state \<Rightarrow> (None, None, Some terminal_state))
      in RunEvent (event_topic_of event) (ev_run_id event) actor capability artifact_id terminal_state)"

record event_inbox_status =
  is_queued_events :: nat
  is_dropped_events :: u64

record event_inbox =
  ib_events :: "app_event_envelope list"
  ib_dropped_events :: u64

record message_router =
  mr_inboxes :: "(app_id, event_inbox) btree_map"

definition max_inbox_events :: nat where
  "max_inbox_events = 256"

definition router_new :: message_router where
  "router_new = \<lparr>mr_inboxes = bt_empty\<rparr>"

definition empty_inbox :: event_inbox where
  "empty_inbox = \<lparr>ib_events = [], ib_dropped_events = 0\<rparr>"

definition push_event :: "event_inbox \<Rightarrow> app_event_envelope \<Rightarrow> event_inbox" where
  "push_event inbox view =
     (let inbox = (if length (ib_events inbox) = max_inbox_events
                   then inbox\<lparr>ib_events := tl (ib_events inbox),
                              ib_dropped_events := ib_dropped_events inbox + 1\<rparr>
                   else inbox)
      in inbox\<lparr>ib_events := ib_events inbox @ [view]\<rparr>)"

text \<open>The body of the loop over the installed apps, which both publishing methods have.\<close>

definition deliver ::
    "registry \<Rightarrow> event_topic \<Rightarrow> app_event_envelope \<Rightarrow> (app_id, event_inbox) btree_map \<Rightarrow> installed_app
      \<Rightarrow> (app_id, event_inbox) btree_map" where
  "deliver r topic view inboxes installed =
     (let app_id = mf_app_id (ia_manifest installed) in
      if is_subscribed r app_id topic then
        let inbox = (case bt_get inboxes app_id of Some inbox \<Rightarrow> inbox | None \<Rightarrow> empty_inbox)
        in bt_insert app_id (push_event inbox view) inboxes
      else inboxes)"

fun envelope_topic :: "app_event_envelope \<Rightarrow> event_topic" where
  "envelope_topic (RunEvent topic _ _ _ _ _) = topic"
| "envelope_topic (AppDataChanged _ _ _ _) = ''app-data-changed''"

definition publish :: "message_router \<Rightarrow> app_event_envelope \<Rightarrow> registry \<Rightarrow> message_router" where
  "publish router view r =
     router\<lparr>mr_inboxes := foldl (deliver r (envelope_topic view) view) (mr_inboxes router) (installed_apps r)\<rparr>"

definition publish_data_change ::
    "message_router \<Rightarrow> app_id \<Rightarrow> string \<Rightarrow> u64 \<Rightarrow> app_data_change_kind \<Rightarrow> registry \<Rightarrow> message_router" where
  "publish_data_change router provider_app_id resource_ref revision change_kind r =
     (let envelope = AppDataChanged provider_app_id resource_ref revision change_kind
      in router\<lparr>mr_inboxes := foldl (deliver r ''app-data-changed'' envelope)
           (mr_inboxes router) (installed_apps r)\<rparr>)"

definition publish_batch :: "message_router \<Rightarrow> app_event_envelope list \<Rightarrow> registry \<Rightarrow> message_router" where
  "publish_batch router views r = foldl (\<lambda>router view. publish router view r) router views"

definition drain_inbox ::
    "message_router \<Rightarrow> app_id \<Rightarrow> registry \<Rightarrow> (app_event_envelope list \<times> message_router) kernel_result" where
  "drain_inbox router app_id r =
     bind_r (registry_app r app_id) (\<lambda>_.
       case bt_get (mr_inboxes router) app_id of
         None \<Rightarrow> Ok ([], router)
       | Some inbox \<Rightarrow> Ok (ib_events inbox,
           router\<lparr>mr_inboxes := bt_insert app_id (inbox\<lparr>ib_events := []\<rparr>) (mr_inboxes router)\<rparr>))"

definition inbox_status :: "message_router \<Rightarrow> app_id \<Rightarrow> registry \<Rightarrow> event_inbox_status kernel_result" where
  "inbox_status router app_id r =
     bind_r (registry_app r app_id) (\<lambda>_.
       Ok (case bt_get (mr_inboxes router) app_id of
         None \<Rightarrow> \<lparr>is_queued_events = 0, is_dropped_events = 0\<rparr>
       | Some inbox \<Rightarrow> \<lparr>is_queued_events = length (ib_events inbox),
                        is_dropped_events = ib_dropped_events inbox\<rparr>))"

definition discard_inbox :: "message_router \<Rightarrow> app_id \<Rightarrow> message_router" where
  "discard_inbox router app_id = router\<lparr>mr_inboxes := bt_remove app_id (mr_inboxes router)\<rparr>"

section \<open>Leases\<close>

datatype lease_target = LeaseArtifact artifact_id | LeaseWorkspacePath string

fun resource_name :: "lease_target \<Rightarrow> string" where
  "resource_name (LeaseArtifact artifact_id) = ''artifact:'' @ artifact_id"
| "resource_name (LeaseWorkspacePath path) = ''workspace:'' @ path"

record lease =
  le_lease_id :: lease_id
  le_run_id :: run_id
  le_target :: lease_target
  le_acquired_at :: datetime
  le_expires_at :: datetime

definition lease_is_expired :: "lease \<Rightarrow> datetime \<Rightarrow> bool" where
  "lease_is_expired l now = (now \<ge> le_expires_at l)"

datatype lease_outcome = LeaseAcquired lease | LeaseHeld lease

record lease_manager =
  lm_leases :: "(lease_id, lease) btree_map"

definition lease_manager_new :: lease_manager where
  "lease_manager_new = \<lparr>lm_leases = bt_empty\<rparr>"

definition lease_holder :: "datetime \<Rightarrow> lease_manager \<Rightarrow> lease_target \<Rightarrow> lease option" where
  "lease_holder now m target =
     List.find (\<lambda>l. le_target l = target \<and> \<not> lease_is_expired l now) (bt_values (lm_leases m))"

definition evict_expired :: "datetime \<Rightarrow> lease_manager \<Rightarrow> lease_manager" where
  "evict_expired now m = m\<lparr>lm_leases := bt_retain (\<lambda>_ l. \<not> lease_is_expired l now) (lm_leases m)\<rparr>"

definition lease_acquire ::
    "datetime \<Rightarrow> string \<Rightarrow> lease_manager \<Rightarrow> run_id \<Rightarrow> lease_target \<Rightarrow> int
      \<Rightarrow> (lease_outcome \<times> lease_manager) kernel_result" where
  "lease_acquire now uuid m run_id target duration =
     (if duration \<le> 0 then Err InvalidLeaseDuration
      else let m = evict_expired now m in
        case lease_holder now m target of
          Some holder \<Rightarrow>
            if le_run_id holder \<noteq> run_id then Ok (LeaseHeld holder, m)
            else let renewed = \<lparr>le_lease_id = le_lease_id holder, le_run_id = run_id,
                       le_target = target, le_acquired_at = le_acquired_at holder,
                       le_expires_at = now + duration\<rparr>
                 in Ok (LeaseAcquired renewed,
                      m\<lparr>lm_leases := bt_insert (le_lease_id renewed) renewed (lm_leases m)\<rparr>)
        | None \<Rightarrow>
            let lease = \<lparr>le_lease_id = new_lease_id uuid, le_run_id = run_id, le_target = target,
                  le_acquired_at = now, le_expires_at = now + duration\<rparr>
            in Ok (LeaseAcquired lease,
                 m\<lparr>lm_leases := bt_insert (le_lease_id lease) lease (lm_leases m)\<rparr>))"

definition lease_release :: "lease_manager \<Rightarrow> lease_id \<Rightarrow> lease_manager kernel_result" where
  "lease_release m lease_id =
     (case bt_get (lm_leases m) lease_id of
        None \<Rightarrow> Err (UnknownLease lease_id)
      | Some _ \<Rightarrow> Ok (m\<lparr>lm_leases := bt_remove lease_id (lm_leases m)\<rparr>))"

definition release_all_for_run :: "lease_manager \<Rightarrow> run_id \<Rightarrow> lease_manager" where
  "release_all_for_run m run_id = m\<lparr>lm_leases := bt_retain (\<lambda>_ l. le_run_id l \<noteq> run_id) (lm_leases m)\<rparr>"

section \<open>A bounded queue that counts what it drops\<close>

locale bounded_queue =
  fixes capacity :: nat
    and push :: "'q \<Rightarrow> 'a \<Rightarrow> 'q"
    and items :: "'q \<Rightarrow> 'a list"
    and lost :: "'q \<Rightarrow> u64"
  assumes capacity: "0 < capacity"
    and push_items: "length (items q) \<le> capacity \<Longrightarrow>
      items (push q a) = drop (length (items q) + 1 - capacity) (items q @ [a])"
    and push_lost: "length (items q) \<le> capacity \<Longrightarrow>
      lost (push q a) = lost q + of_nat (length (items q) + 1 - capacity)"
begin

lemma push_bound: "length (items q) \<le> capacity \<Longrightarrow> length (items (push q a)) \<le> capacity"
  by (simp add: push_items)

lemma push_all:
  "length (items q) \<le> capacity \<Longrightarrow>
     items (foldl push q as) = drop (length (items q) + length as - capacity) (items q @ as) \<and>
     lost (foldl push q as) = lost q + of_nat (length (items q) + length as - capacity)"
proof (induction as arbitrary: q)
  case (Cons a as)
  let ?n = "length (items q)"
  have len: "length (items (push q a)) = ?n + 1 - (?n + 1 - capacity)"
    using Cons.prems by (simp add: push_items)
  have split: "?n + length (a # as) - capacity =
      (?n + 1 - capacity) + (length (items (push q a)) + length as - capacity)"
    using Cons.prems capacity by (simp add: len)
  from Cons.IH[of "push q a"] push_bound[OF Cons.prems]
  have IH: "items (foldl push q (a # as)) =
        drop (length (items (push q a)) + length as - capacity) (items (push q a) @ as)"
      "lost (foldl push q (a # as)) =
        lost (push q a) + of_nat (length (items (push q a)) + length as - capacity)"
    by simp_all
  have "items (push q a) @ as = drop (?n + 1 - capacity) (items q @ a # as)"
    using Cons.prems capacity by (simp add: push_items)
  with IH(1) have "items (foldl push q (a # as)) =
      drop (?n + length (a # as) - capacity) (items q @ a # as)"
    unfolding split by (simp only: drop_drop add.commute)
  moreover from IH(2) have "lost (foldl push q (a # as)) = lost q + of_nat (?n + length (a # as) - capacity)"
    unfolding split using Cons.prems by (simp add: push_lost)
  ultimately show ?case by simp
qed simp

lemma push_all_bound: "length (items q) \<le> capacity \<Longrightarrow> length (items (foldl push q as)) \<le> capacity"
  by (simp add: push_all)

end

interpretation inbox: bounded_queue max_inbox_events push_event ib_events ib_dropped_events
  by unfold_locales (auto simp: push_event_def max_inbox_events_def Let_def drop_Suc)

section \<open>Delivery\<close>

definition inboxes_bounded :: "message_router \<Rightarrow> bool" where
  "inboxes_bounded router \<longleftrightarrow>
     (\<forall>a i. bt_get (mr_inboxes router) a = Some i \<longrightarrow> length (ib_events i) \<le> max_inbox_events)"

lemma inboxes_bounded_new [simp]: "inboxes_bounded router_new"
  by (simp add: inboxes_bounded_def router_new_def)

definition inbox_of :: "message_router \<Rightarrow> app_id \<Rightarrow> event_inbox" where
  "inbox_of router a = (case bt_get (mr_inboxes router) a of Some i \<Rightarrow> i | None \<Rightarrow> empty_inbox)"

lemma deliver_all_get:
  assumes "distinct (map (\<lambda>app. mf_app_id (ia_manifest app)) apps)"
  shows "bt_get (foldl (deliver r topic view) m apps) a =
    (if a \<in> (\<lambda>app. mf_app_id (ia_manifest app)) ` set apps \<and> is_subscribed r a topic
     then Some (push_event (case bt_get m a of Some i \<Rightarrow> i | None \<Rightarrow> empty_inbox) view)
     else bt_get m a)"
  using assms
proof (induction apps arbitrary: m)
  case (Cons app apps)
  have step: "bt_get (deliver r topic view m app) a =
      (if a = mf_app_id (ia_manifest app) \<and> is_subscribed r a topic
       then Some (push_event (case bt_get m a of Some i \<Rightarrow> i | None \<Rightarrow> empty_inbox) view)
       else bt_get m a)"
    by (auto simp: deliver_def Let_def bt_get_insert)
  from Cons.prems have "mf_app_id (ia_manifest app) \<notin> (\<lambda>app. mf_app_id (ia_manifest app)) ` set apps"
    by simp
  with Cons.prems Cons.IH[of "deliver r topic view m app"] step show ?case
    by (cases "a = mf_app_id (ia_manifest app)") simp_all
qed simp

lemma installed_ids:
  assumes "registry_inv x r"
  shows "map (\<lambda>app. mf_app_id (ia_manifest app)) (installed_apps r) = bt_keys (rg_apps r)"
proof -
  have "mf_app_id (ia_manifest (snd e)) = fst e" if "e \<in> set (bt_entries (rg_apps r))" for e
  proof -
    from that have "bt_get (rg_apps r) (fst e) = Some (snd e)" by (simp flip: in_entries_iff)
    with assms show ?thesis by (simp add: registry_inv_def)
  qed
  then show ?thesis
    by (simp add: installed_apps_def bt_values_def bt_keys_def)
qed

lemma deliver_installed_get:
  assumes "registry_inv x r"
  shows "bt_get (foldl (deliver r topic view) m (installed_apps r)) a =
    (if is_subscribed r a topic
     then Some (push_event (case bt_get m a of Some i \<Rightarrow> i | None \<Rightarrow> empty_inbox) view)
     else bt_get m a)"
proof -
  have "distinct (map (\<lambda>app. mf_app_id (ia_manifest app)) (installed_apps r))"
    by (simp add: installed_ids[OF assms])
  moreover have "(\<lambda>app. mf_app_id (ia_manifest app)) ` set (installed_apps r) = set (bt_keys (rg_apps r))"
    using arg_cong[OF installed_ids[OF assms], of set] by simp
  moreover have "is_subscribed r a topic \<Longrightarrow> a \<in> set (bt_keys (rg_apps r))"
    by (auto simp: is_subscribed_iff bt_contains_iff)
  ultimately show ?thesis by (auto simp: deliver_all_get)
qed

lemma publish_inbox:
  assumes "registry_inv x r"
  shows "bt_get (mr_inboxes (publish router view r)) a =
    (if is_subscribed r a (envelope_topic view)
     then Some (push_event (inbox_of router a) view) else bt_get (mr_inboxes router) a)"
  by (simp add: publish_def deliver_installed_get[OF assms] inbox_of_def)

lemma publish_bounded:
  assumes "registry_inv x r" "inboxes_bounded router"
  shows "inboxes_bounded (publish router view r)"
proof -
  have "length (ib_events (inbox_of router a)) \<le> max_inbox_events" for a
    using assms(2) by (auto simp: inboxes_bounded_def inbox_of_def empty_inbox_def split: option.splits)
  then show ?thesis
    using assms(2) inbox.push_bound
    by (auto simp: inboxes_bounded_def publish_inbox[OF assms(1)] split: if_splits)
qed

lemma publish_batch_bounded:
  "registry_inv x r \<Longrightarrow> inboxes_bounded router \<Longrightarrow> inboxes_bounded (publish_batch router views r)"
  unfolding publish_batch_def by (induction views arbitrary: router) (auto intro: publish_bounded)

lemma publish_batch_inbox:
  assumes "registry_inv x r"
  shows "inbox_of (publish_batch router views r) a =
    foldl push_event (inbox_of router a) (filter (\<lambda>v. is_subscribed r a (envelope_topic v)) views)"
  unfolding publish_batch_def
proof (induction views arbitrary: router)
  case (Cons v vs)
  have "inbox_of (publish router v r) a =
      (if is_subscribed r a (envelope_topic v) then push_event (inbox_of router a) v else inbox_of router a)"
    by (simp add: inbox_of_def[of "publish router v r"] publish_inbox[OF assms] inbox_of_def[of router])
  with Cons show ?case by simp
qed simp

section \<open>One lease per target\<close>

definition leases_inv :: "lease_manager \<Rightarrow> bool" where
  "leases_inv m \<longleftrightarrow>
     (\<forall>i l. bt_get (lm_leases m) i = Some l \<longrightarrow> le_lease_id l = i) \<and>
     (\<forall>i j l k. bt_get (lm_leases m) i = Some l \<longrightarrow> bt_get (lm_leases m) j = Some k \<longrightarrow>
        le_target l = le_target k \<longrightarrow> i = j)"

lemma leases_invI:
  assumes "\<And>i l. bt_get (lm_leases m) i = Some l \<Longrightarrow> le_lease_id l = i"
    and "\<And>i j l k. bt_get (lm_leases m) i = Some l \<Longrightarrow> bt_get (lm_leases m) j = Some k \<Longrightarrow>
      le_target l = le_target k \<Longrightarrow> i = j"
  shows "leases_inv m"
  unfolding leases_inv_def using assms by blast

lemma leases_inv_id: "leases_inv m \<Longrightarrow> bt_get (lm_leases m) i = Some l \<Longrightarrow> le_lease_id l = i"
  unfolding leases_inv_def by blast

lemma leases_inv_unique:
  "leases_inv m \<Longrightarrow> bt_get (lm_leases m) i = Some l \<Longrightarrow> bt_get (lm_leases m) j = Some k \<Longrightarrow>
     le_target l = le_target k \<Longrightarrow> i = j"
  unfolding leases_inv_def by blast

lemma leases_inv_new [simp]: "leases_inv lease_manager_new"
  by (simp add: leases_inv_def lease_manager_new_def)

lemma leases_inv_retain: "leases_inv m \<Longrightarrow> leases_inv (m\<lparr>lm_leases := bt_retain p (lm_leases m)\<rparr>)"
  by (auto simp: leases_inv_def)

lemma evict_expired_inv: "leases_inv m \<Longrightarrow> leases_inv (evict_expired now m)"
  unfolding evict_expired_def by (rule leases_inv_retain)

lemma evicted_get:
  "bt_get (lm_leases (evict_expired now m)) i = Some l \<longleftrightarrow>
     bt_get (lm_leases m) i = Some l \<and> \<not> lease_is_expired l now"
  by (simp add: evict_expired_def)

lemma lease_holder_Some:
  "lease_holder now m target = Some l \<Longrightarrow>
     (\<exists>i. bt_get (lm_leases m) i = Some l) \<and> le_target l = target \<and> \<not> lease_is_expired l now"
  by (auto simp: lease_holder_def in_values_iff dest: find_SomeD)

lemma lease_holder_None:
  "lease_holder now m target = None \<longleftrightarrow>
     (\<forall>i l. bt_get (lm_leases m) i = Some l \<longrightarrow> le_target l = target \<longrightarrow> lease_is_expired l now)"
  by (auto simp: lease_holder_def find_None_all in_values_iff)

lemma lease_holder_iff:
  assumes "leases_inv m"
  shows "lease_holder now m target = Some l \<longleftrightarrow>
    bt_get (lm_leases m) (le_lease_id l) = Some l \<and> le_target l = target \<and> \<not> lease_is_expired l now"
proof
  assume "lease_holder now m target = Some l"
  from lease_holder_Some[OF this] assms show "bt_get (lm_leases m) (le_lease_id l) = Some l \<and>
      le_target l = target \<and> \<not> lease_is_expired l now"
    by (auto simp: leases_inv_def)
next
  assume l: "bt_get (lm_leases m) (le_lease_id l) = Some l \<and> le_target l = target \<and> \<not> lease_is_expired l now"
  then obtain k where k: "lease_holder now m target = Some k"
    using lease_holder_None[of now m target] by (cases "lease_holder now m target") auto
  from lease_holder_Some[OF this] l assms have "k = l"
    unfolding leases_inv_def by (metis option.inject)
  with k show "lease_holder now m target = Some l" by simp
qed

lemma lease_insert_inv:
  assumes "leases_inv m"
    and "\<And>i k. bt_get (lm_leases m) i = Some k \<Longrightarrow> le_target k = le_target l \<Longrightarrow> i = le_lease_id l"
  shows "leases_inv (m\<lparr>lm_leases := bt_insert (le_lease_id l) l (lm_leases m)\<rparr>)"
proof -
  let ?m = "bt_insert (le_lease_id l) l (lm_leases m)"
  have uniq: "i = j" if a: "bt_get ?m i = Some a" and b: "bt_get ?m j = Some b"
    and same: "le_target a = le_target b" for i j a b
  proof (cases "i = le_lease_id l")
    case True
    then show ?thesis
      using a b same assms(2)[of j b] by (cases "j = le_lease_id l") simp_all
  next
    case i: False
    show ?thesis
    proof (cases "j = le_lease_id l")
      case True
      then show ?thesis using i a b same assms(2)[of i a] by simp
    next
      case False
      with i a b have "bt_get (lm_leases m) i = Some a" "bt_get (lm_leases m) j = Some b" by simp_all
      then show ?thesis using same by (rule leases_inv_unique[OF assms(1)])
    qed
  qed
  have ids: "le_lease_id a = i" if "bt_get ?m i = Some a" for i a
    using that leases_inv_id[OF assms(1), of i a] by (cases "i = le_lease_id l") simp_all
  have sel: "lm_leases (m\<lparr>lm_leases := ?m\<rparr>) = ?m" by simp
  show ?thesis
    by (rule leases_invI; unfold sel) (erule ids, erule (2) uniq)
qed

lemma lease_acquire_cases:
  assumes "lease_acquire now uuid m run target duration = Ok (outcome, m')"
  obtains (held) h where "lease_holder now (evict_expired now m) target = Some h" "le_run_id h \<noteq> run"
      "outcome = LeaseHeld h" "m' = evict_expired now m"
  | (renewed) h l where "lease_holder now (evict_expired now m) target = Some h" "le_run_id h = run"
      "0 < duration" "l = \<lparr>le_lease_id = le_lease_id h, le_run_id = run, le_target = target,
        le_acquired_at = le_acquired_at h, le_expires_at = now + duration\<rparr>" "outcome = LeaseAcquired l"
      "m' = (evict_expired now m)\<lparr>lm_leases := bt_insert (le_lease_id l) l (lm_leases (evict_expired now m))\<rparr>"
  | (fresh) l where "lease_holder now (evict_expired now m) target = None"
      "0 < duration" "l = \<lparr>le_lease_id = new_lease_id uuid, le_run_id = run, le_target = target,
        le_acquired_at = now, le_expires_at = now + duration\<rparr>" "outcome = LeaseAcquired l"
      "m' = (evict_expired now m)\<lparr>lm_leases := bt_insert (le_lease_id l) l (lm_leases (evict_expired now m))\<rparr>"
proof (cases "lease_holder now (evict_expired now m) target")
  case None
  then show thesis using assms fresh by (simp add: lease_acquire_def Let_def split: if_splits)
next
  case (Some h)
  then show thesis
    using assms held renewed by (cases "le_run_id h = run") (simp_all add: lease_acquire_def Let_def split: if_splits)
qed

lemma lease_acquire_inv:
  assumes "leases_inv m" "lease_acquire now uuid m run target duration = Ok (outcome, m')"
  shows "leases_inv m'"
  using assms(2)
proof (cases rule: lease_acquire_cases)
  let ?m = "evict_expired now m"
  have inv: "leases_inv ?m" by (rule evict_expired_inv[OF assms(1)])
  {
    case held
    then show ?thesis using inv by simp
  next
    case (renewed h l)
    from lease_holder_iff[OF inv] renewed(1) have h: "bt_get (lm_leases ?m) (le_lease_id h) = Some h"
      "le_target h = target" by simp_all
    have "leases_inv (?m\<lparr>lm_leases := bt_insert (le_lease_id l) l (lm_leases ?m)\<rparr>)"
    proof (rule lease_insert_inv[OF inv])
      fix i k
      assume "bt_get (lm_leases ?m) i = Some k" "le_target k = le_target l"
      then have "i = le_lease_id h"
        using leases_inv_unique[OF inv _ h(1)] by (simp add: renewed(4) h(2))
      then show "i = le_lease_id l" by (simp add: renewed(4))
    qed
    then show ?thesis unfolding renewed .
  next
    case (fresh l)
    have "leases_inv (?m\<lparr>lm_leases := bt_insert (le_lease_id l) l (lm_leases ?m)\<rparr>)"
    proof (rule lease_insert_inv[OF inv])
      fix i k
      assume k: "bt_get (lm_leases ?m) i = Some k" "le_target k = le_target l"
      then have "le_target k = target" by (simp add: fresh(3))
      with fresh(1) k(1) have "lease_is_expired k now" by (simp add: lease_holder_None)
      with k(1) show "i = le_lease_id l" by (simp add: evicted_get)
    qed
    then show ?thesis unfolding fresh .
  }
qed

lemma lease_release_inv: "leases_inv m \<Longrightarrow> lease_release m i = Ok m' \<Longrightarrow> leases_inv m'"
  by (auto simp: lease_release_def bt_remove_def intro: leases_inv_retain split: option.splits)

lemma release_all_inv: "leases_inv m \<Longrightarrow> leases_inv (release_all_for_run m r)"
  unfolding release_all_for_run_def by (rule leases_inv_retain)

section \<open>What the router and the leases guarantee\<close>

text \<open>
  C23: publishing a batch appends to the inbox of an app exactly the events of the topics it
  subscribed to, in order; the inbox keeps the newest 256 of them, and its counter of dropped
  events grows by the number it had to forget. Apps that did not subscribe see nothing.
\<close>

theorem publish_batch_delivers:
  assumes "registry_inv x r" "inboxes_bounded router"
  shows "(let old = inbox_of router a; new = inbox_of (publish_batch router views r) a;
              seen = filter (\<lambda>v. is_subscribed r a (envelope_topic v)) views;
              excess = length (ib_events old) + length seen - max_inbox_events in
    ib_events new = drop excess (ib_events old @ seen) \<and>
    ib_dropped_events new = ib_dropped_events old + of_nat excess \<and>
    length (ib_events new) \<le> max_inbox_events)"
proof -
  have bound: "length (ib_events (inbox_of router a)) \<le> max_inbox_events"
    using assms(2) by (auto simp: inboxes_bounded_def inbox_of_def empty_inbox_def split: option.splits)
  from inbox.push_all[OF bound] show ?thesis
    by (simp add: publish_batch_inbox[OF assms(1)] Let_def)
qed

definition sample_registry :: registry where
  "sample_registry =
     (case registry_install sample_externals 1 registry_new (sample_sealed ''notes'') of
        Ok (_, r) \<Rightarrow> r | Err _ \<Rightarrow> registry_new)"

lemma sample_registry_inv: "registry_inv sample_externals sample_registry"
  unfolding sample_registry_def
  by (auto split: result.splits intro: registry_install_inv[OF registry_inv_new])

definition sample_view :: app_event_envelope where
  "sample_view = from_event (RunStarted ''r'' (SurfaceAction ''notes'' ''main'') ''save'') ''notes''"

theorem publish_batch_delivers_witness:
  "is_subscribed sample_registry ''notes'' (envelope_topic sample_view) \<and>
   length (ib_events (inbox_of (publish_batch router_new (replicate 2 sample_view) sample_registry) ''notes'')) = 2"
proof -
  have s: "is_subscribed sample_registry ''notes'' (envelope_topic sample_view)" by code_simp
  have "ib_events (inbox_of router_new ''notes'') = []" by code_simp
  then show ?thesis
    using s publish_batch_delivers[OF sample_registry_inv inboxes_bounded_new, of "''notes''" "replicate 2 sample_view"]
    by (simp add: max_inbox_events_def Let_def)
qed

text \<open>
  C24: a lease is exclusive while it lasts. When a run acquires or renews the lease of a target,
  the lookup names this lease until it expires, and a request of any other run for the target
  before that is refused and told the holder; at most one unexpired lease per target exists.
\<close>

theorem lease_is_exclusive:
  assumes "leases_inv m" "lease_acquire now uuid m run target duration = Ok (LeaseAcquired l, m')"
    "now \<le> later" "later < now + duration" "run' \<noteq> run" "0 < duration'"
  shows "leases_inv m' \<and> le_run_id l = run \<and> lease_holder later m' target = Some l \<and>
    (\<exists>m''. lease_acquire later uuid' m' run' target duration' = Ok (LeaseHeld l, m''))"
proof -
  have inv: "leases_inv m'" by (rule lease_acquire_inv[OF assms(1,2)])
  from assms(2) have l: "bt_get (lm_leases m') (le_lease_id l) = Some l" "le_target l = target"
      "le_run_id l = run" "le_expires_at l = now + duration"
    by (cases rule: lease_acquire_cases; simp)+
  have "\<not> lease_is_expired l later" using l(4) assms(4) by (simp add: lease_is_expired_def)
  with l inv have hold: "lease_holder later m' target = Some l"
    by (simp add: lease_holder_iff)
  from l \<open>\<not> lease_is_expired l later\<close> have "bt_get (lm_leases (evict_expired later m')) (le_lease_id l) = Some l"
    by (simp add: evict_expired_def)
  with l \<open>\<not> lease_is_expired l later\<close> evict_expired_inv[OF inv] have "lease_holder later (evict_expired later m') target = Some l"
    by (simp add: lease_holder_iff)
  with assms(5,6) l(3) show ?thesis
    using inv hold by (auto simp: lease_acquire_def Let_def)
qed

theorem lease_is_exclusive_witness:
  "\<exists>l m'. lease_acquire 1 ''u'' lease_manager_new ''r1'' (LeaseArtifact ''a'') 10 = Ok (LeaseAcquired l, m') \<and>
     lease_holder 5 m' (LeaseArtifact ''a'') = Some l \<and>
     (\<exists>m''. lease_acquire 5 ''v'' m' ''r2'' (LeaseArtifact ''a'') 3 = Ok (LeaseHeld l, m''))"
proof -
  have "(case lease_acquire 1 ''u'' lease_manager_new ''r1'' (LeaseArtifact ''a'') 10 of
      Ok (LeaseAcquired _, _) \<Rightarrow> True | _ \<Rightarrow> False)" by code_simp
  then obtain l m' where a: "lease_acquire 1 ''u'' lease_manager_new ''r1'' (LeaseArtifact ''a'') 10 = Ok (LeaseAcquired l, m')"
    by (auto split: result.splits lease_outcome.splits)
  from lease_is_exclusive[OF leases_inv_new a, of 5 "''r2''" 3 "''v''"] a show ?thesis by simp
qed

end
