(* ===== verification/Kernel_State.thy ===== *)
theory Kernel_State
  imports Invocation Ledger_Replay Surfaces Router
begin

text \<open>
  The state of \<open>struct Kernel\<close> in \<open>crates/kernel/src/kernel.rs\<close>, the persistence port of
  \<open>durable.rs\<close>, and the internal operations every public one is made of: the durable commit
  (\<open>commit_parts\<close>), the three ways to record events, and the bookkeeping of pending
  invocations. An operation is a state transformer that may fail; a failure is a kernel error
  or a panic of the source. What an operation reads from outside (clock, monotonic clock,
  UUIDs, the answer of the store) is the record \<open>env\<close>; each clock is read once per operation.
\<close>

section \<open>The persistence port\<close>

record durable_kernel_state =
  du_installed_apps :: "installed_app list"
  du_grants :: "grant list"
  du_revoked_grant_ids :: "grant_id list"
  du_ledger_records :: "ledger_record list"
  du_artifacts :: "artifact list"

definition durable_empty :: durable_kernel_state where
  "durable_empty = \<lparr>du_installed_apps = [], du_grants = [], du_revoked_grant_ids = [],
     du_ledger_records = [], du_artifacts = []\<rparr>"

datatype commit_outcome = Committed | NotCommitted string | Indeterminate string

text \<open>\<open>MemoryKernelStateStore\<close>: the content is the state of the last commit.\<close>

definition memory_commit ::
    "durable_kernel_state \<Rightarrow> durable_kernel_state option \<Rightarrow> commit_outcome \<times> durable_kernel_state option" where
  "memory_commit state content = (Committed, Some state)"

definition memory_load :: "durable_kernel_state option \<Rightarrow> (durable_kernel_state option, string) result" where
  "memory_load content = Ok content"

record env =
  env_now :: datetime
  env_instant :: instant
  env_uuid :: "nat \<Rightarrow> string"
  env_commit :: "durable_kernel_state \<Rightarrow> commit_outcome"
    \<comment> \<open>\<open>KernelStateStore::commit\<close>\<close>
  env_lands :: "durable_kernel_state \<Rightarrow> bool"
    \<comment> \<open>whether a write of indeterminate outcome took effect\<close>

section \<open>The kernel\<close>

datatype pending_state = PreparedForApproval | AuthorizedForExecution

text \<open>The shared flag of a pending invocation is the cell named by its id.\<close>

record pending_invocation =
  pn_run_id :: run_id
  pn_acting_app :: app_id
  pn_capability :: capability_ref
  pn_grant :: grant
  pn_requested_data_scope :: data_scope
  pn_provider_content_hash :: string
  pn_output_schema :: "json_object option"
  pn_input :: json_object
  pn_deadline :: instant
  pn_state :: pending_state

type_synonym handler_table = "(capability_name, capability_handler) btree_map"

text \<open>
  \<open>k_store\<close> is absent without a store, else the content of the store; \<open>k_notices\<close> lists the
  notices shown so far; \<open>k_next_invocation_id\<close> is the static counter of the source.
\<close>

record kernel =
  k_chrome :: trusted_chrome
  k_registry :: registry
  k_ledger :: run_ledger
  k_broker :: broker
  k_surfaces :: surface_manager
  k_router :: message_router
  k_leases :: lease_manager
  k_artifacts :: artifact_store
  k_handlers :: "(app_id, handler_table) btree_map"
  k_pending :: "(u64, pending_invocation) btree_map"
  k_store :: "durable_kernel_state option option"
  k_recovery_required :: bool
  k_flags :: cancel_flags
  k_next_invocation_id :: u64
  k_notices :: "chrome_notice list"

definition with_clock :: "trusted_chrome \<Rightarrow> cancel_flags \<Rightarrow> u64 \<Rightarrow> kernel" where
  "with_clock chrome flags next_id =
     \<lparr>k_chrome = chrome, k_registry = registry_new, k_ledger = ledger_new, k_broker = broker_new,
      k_surfaces = surface_manager_new, k_router = router_new, k_leases = lease_manager_new,
      k_artifacts = artifact_store_new, k_handlers = bt_empty, k_pending = bt_empty,
      k_store = None, k_recovery_required = False, k_flags = flags,
      k_next_invocation_id = next_id, k_notices = []\<rparr>"

datatype failure = Failed kernel_error | Panicked string

type_synonym 'a kop = "(kernel, 'a, failure) op"

definition lift_k :: "(kernel \<Rightarrow> 'a kernel_result) \<Rightarrow> 'a kop" where
  "lift_k f = lift_r (\<lambda>k. map_err Failed (f k))"

definition gets :: "(kernel \<Rightarrow> 'a) \<Rightarrow> 'a kop" where
  "gets f = (\<lambda>k. (Ok (f k), k))"

definition fails :: "kernel_error \<Rightarrow> 'a kop" where
  "fails e = fail (Failed e)"

section \<open>Commit before visible\<close>

definition durable_of_parts ::
    "registry \<Rightarrow> run_ledger \<Rightarrow> broker \<Rightarrow> artifact_store \<Rightarrow> durable_kernel_state" where
  "durable_of_parts registry ledger broker artifacts =
     \<lparr>du_installed_apps = installed_apps registry, du_grants = durable_grants broker,
      du_revoked_grant_ids = durable_revocations broker, du_ledger_records = lg_records ledger,
      du_artifacts = artifact_all artifacts\<rparr>"

definition recovery_message :: string where
  "recovery_message =
     ''kernel recovery required after an unresolved durable transition; restart the host''"

definition commit_parts ::
    "env \<Rightarrow> registry \<Rightarrow> run_ledger \<Rightarrow> broker \<Rightarrow> artifact_store \<Rightarrow> unit kop" where
  "commit_parts env registry ledger broker artifacts = (\<lambda>k.
     if k_recovery_required k then (Err (Failed (Durability recovery_message)), k)
     else case k_store k of
       None \<Rightarrow> (Ok (), k)
     | Some content \<Rightarrow>
         let state = durable_of_parts registry ledger broker artifacts in
         (case env_commit env state of
            Committed \<Rightarrow> (Ok (), k\<lparr>k_store := Some (Some state)\<rparr>)
          | NotCommitted message \<Rightarrow> (Err (Failed (Durability message)), k)
          | Indeterminate message \<Rightarrow>
              (Err (Failed (Durability (message @
                 ''; durable commit outcome is indeterminate and kernel recovery is required''))),
               k\<lparr>k_recovery_required := True,
                 k_store := Some (if env_lands env state then Some state else content)\<rparr>)))"

definition require_recovery_after_consumed_transition :: "kernel \<Rightarrow> kernel" where
  "require_recovery_after_consumed_transition k =
     (if k_store k \<noteq> None then k\<lparr>k_recovery_required := True\<rparr> else k)"

section \<open>Recording\<close>

definition event_view :: "kernel \<Rightarrow> ledger_event \<Rightarrow> app_event_envelope kernel_result" where
  "event_view k event =
     bind_r (case event of
         RunStarted _ initiator _ \<Rightarrow> Ok (initiator_app_id initiator)
       | _ \<Rightarrow> map_ok initiating_app (ledger_run_view (k_ledger k) (ev_run_id event))) (\<lambda>actor.
       Ok (from_event event actor))"

definition record_event :: "env \<Rightarrow> ledger_event \<Rightarrow> ledger_record kop" where
  "record_event env event =
     bind_s (lift_k (\<lambda>k. event_view k event)) (\<lambda>view.
     bind_s (lift_k (\<lambda>k. ledger_append (env_now env) (k_ledger k) event)) (\<lambda>(entry, ledger).
     bind_s (\<lambda>k. commit_parts env (k_registry k) ledger (k_broker k) (k_artifacts k) k) (\<lambda>_.
     bind_s (modify (\<lambda>k. k\<lparr>k_ledger := ledger,
       k_router := publish (k_router k) view (k_registry k)\<rparr>)) (\<lambda>_.
     ret entry))))"

definition record_batch :: "env \<Rightarrow> ledger_event list \<Rightarrow> unit kop" where
  "record_batch env events =
     bind_s (lift_k (\<lambda>k. try_map (event_view k) events)) (\<lambda>views.
     bind_s (lift_k (\<lambda>k. append_batch (env_now env) (k_ledger k) events)) (\<lambda>(_, ledger).
     bind_s (\<lambda>k. commit_parts env (k_registry k) ledger (k_broker k) (k_artifacts k) k) (\<lambda>_.
     modify (\<lambda>k. k\<lparr>k_ledger := ledger,
       k_router := publish_batch (k_router k) views (k_registry k)\<rparr>))))"

definition commit_completion :: "env \<Rightarrow> ledger_event list \<Rightarrow> artifact list \<Rightarrow> unit kop" where
  "commit_completion env events produced =
     bind_s (lift_k (\<lambda>k. try_map (event_view k) events)) (\<lambda>views.
     bind_s (lift_k (\<lambda>k. append_batch (env_now env) (k_ledger k) events)) (\<lambda>(_, ledger).
     bind_s (gets (\<lambda>k. put_all (k_artifacts k) produced)) (\<lambda>artifacts.
     bind_s (\<lambda>k. commit_parts env (k_registry k) ledger (k_broker k) artifacts k) (\<lambda>_.
     modify (\<lambda>k. k\<lparr>k_ledger := ledger, k_artifacts := artifacts,
       k_router := publish_batch (k_router k) views (k_registry k)\<rparr>)))))"

section \<open>Pending invocations\<close>

definition set_cancelled :: "(pending_invocation \<Rightarrow> bool) \<Rightarrow> kernel \<Rightarrow> cancel_flags" where
  "set_cancelled p k =
     foldl (\<lambda>flags (i, pending). if p pending then flags(i := True) else flags)
       (k_flags k) (bt_entries (k_pending k))"

definition cancel_pending_for_run :: "run_id \<Rightarrow> kernel \<Rightarrow> kernel" where
  "cancel_pending_for_run run_id k =
     k\<lparr>k_flags := set_cancelled (\<lambda>pending. pn_run_id pending = run_id) k\<rparr>"

definition cancellation_event :: "pending_invocation \<Rightarrow> ledger_event" where
  "cancellation_event pending =
     InvocationCancelled (pn_run_id pending) (pn_capability pending) (pn_requested_data_scope pending)"

definition pending_cancellation_events_for_run :: "kernel \<Rightarrow> run_id \<Rightarrow> ledger_event list" where
  "pending_cancellation_events_for_run k run_id =
     map cancellation_event (filter (\<lambda>pending. pn_run_id pending = run_id) (bt_values (k_pending k)))"

definition concerns_app :: "app_id \<Rightarrow> pending_invocation \<Rightarrow> bool" where
  "concerns_app app_id pending =
     (pn_acting_app pending = app_id \<or> cr_provider (pn_capability pending) = app_id)"

definition pending_cancellation_events_for_app :: "kernel \<Rightarrow> app_id \<Rightarrow> ledger_event list" where
  "pending_cancellation_events_for_app k app_id =
     map cancellation_event (filter (concerns_app app_id) (bt_values (k_pending k)))"

definition remove_pending_where :: "(pending_invocation \<Rightarrow> bool) \<Rightarrow> kernel \<Rightarrow> kernel" where
  "remove_pending_where p k =
     k\<lparr>k_flags := set_cancelled p k, k_pending := bt_retain (\<lambda>_ pending. \<not> p pending) (k_pending k)\<rparr>"

definition remove_pending_for_run :: "run_id \<Rightarrow> kernel \<Rightarrow> kernel" where
  "remove_pending_for_run run_id = remove_pending_where (\<lambda>pending. pn_run_id pending = run_id)"

definition remove_pending_for_app :: "app_id \<Rightarrow> kernel \<Rightarrow> kernel" where
  "remove_pending_for_app app_id = remove_pending_where (concerns_app app_id)"

definition remove_pending :: "u64 \<Rightarrow> kernel \<Rightarrow> kernel" where
  "remove_pending i k = k\<lparr>k_pending := bt_remove i (k_pending k)\<rparr>"

definition set_flag :: "u64 \<Rightarrow> kernel \<Rightarrow> kernel" where
  "set_flag i k = k\<lparr>k_flags := (k_flags k)(i := True)\<rparr>"

definition reap_cancelled_pending :: "env \<Rightarrow> unit kop" where
  "reap_cancelled_pending env =
     bind_s (gets (\<lambda>k. filter (\<lambda>(i, pending). k_flags k i \<or> env_instant env \<ge> pn_deadline pending)
       (bt_entries (k_pending k)))) (\<lambda>cancelled.
     if cancelled = [] then ret ()
     else bind_s (record_batch env (map (\<lambda>(_, pending). cancellation_event pending) cancelled)) (\<lambda>_.
          modify (\<lambda>k. foldl (\<lambda>k (i, _). remove_pending i k) k cancelled)))"

end
