(* ===== verification/Kernel_Runs.thy ===== *)
theory Kernel_Runs
  imports Kernel_State
begin

text \<open>
  Runs, surfaces, leases, secrets and events of \<open>kernel.rs\<close>, and the read views that only
  delegate to a service.
\<close>

section \<open>Runs\<close>

definition check_parent_run :: "kernel \<Rightarrow> initiator \<Rightarrow> unit kernel_result" where
  "check_parent_run k initiator = (case initiator of
       InitiatorRun app_id parent_run_id \<Rightarrow>
         bind_r (ledger_run_view (k_ledger k) parent_run_id) (\<lambda>parent.
           if \<not> is_active parent then Err (RunAlreadyEnded parent_run_id)
           else if initiating_app parent \<noteq> app_id then
             Err (ChildRunAttributionMismatch (initiating_app parent) app_id)
           else Ok ())
     | _ \<Rightarrow> Ok ())"

definition start_run :: "env \<Rightarrow> initiator \<Rightarrow> string \<Rightarrow> run_id kop" where
  "start_run env initiator goal =
     bind_s (lift_k (\<lambda>k. registry_app (k_registry k) (initiator_app_id initiator))) (\<lambda>_.
     bind_s (lift_k (\<lambda>k. check_parent_run k initiator)) (\<lambda>_.
     let run_id = new_run_id (env_uuid env 0) in
     bind_s (record_event env (RunStarted run_id initiator goal)) (\<lambda>_.
     ret run_id)))"

definition end_run :: "env \<Rightarrow> run_id \<Rightarrow> run_terminal_state \<Rightarrow> unit kop" where
  "end_run env run_id terminal_state =
     bind_s (gets (\<lambda>k. pending_cancellation_events_for_run k run_id @ [RunEnded run_id terminal_state])) (\<lambda>events.
     bind_s (record_batch env events) (\<lambda>_.
     modify (\<lambda>k. let k = remove_pending_for_run run_id k
                  in k\<lparr>k_leases := release_all_for_run (k_leases k) run_id\<rparr>)))"

definition kernel_run_view :: "kernel \<Rightarrow> run_id \<Rightarrow> run_view kernel_result" where
  "kernel_run_view k run_id = ledger_run_view (k_ledger k) run_id"

definition kernel_artifact :: "kernel \<Rightarrow> artifact_id \<Rightarrow> artifact kernel_result" where
  "kernel_artifact k artifact_id = artifact_get (k_artifacts k) artifact_id"

section \<open>Surfaces\<close>

definition open_surface :: "env \<Rightarrow> app_id \<Rightarrow> surface_name \<Rightarrow> surface_binding kop" where
  "open_surface env app_id surface =
     bind_s (lift_k (\<lambda>k. surface_open (env_uuid env 0) (k_surfaces k) (k_registry k) app_id surface))
       (\<lambda>(binding, surfaces).
     bind_s (modify (\<lambda>k. k\<lparr>k_surfaces := surfaces\<rparr>)) (\<lambda>_.
     ret binding))"

definition close_surface :: "surface_binding \<Rightarrow> kernel \<Rightarrow> kernel" where
  "close_surface binding k = k\<lparr>k_surfaces := surface_close (k_surfaces k) binding\<rparr>"

definition require_open_surface :: "kernel \<Rightarrow> surface_binding \<Rightarrow> unit kernel_result" where
  "require_open_surface k binding = require_open (k_surfaces k) binding"

section \<open>Leases, secrets, events\<close>

fun notice_error_text :: "chrome_notice_error \<Rightarrow> string" where
  "notice_error_text (NoticePersistence message) = ''trusted notice persistence failed: '' @ message"
| "notice_error_text (NoticeDelivery message) = ''trusted notice delivery failed: '' @ message"

definition show_notice :: "chrome_notice \<Rightarrow> unit kop" where
  "show_notice notice = (\<lambda>k.
     (case ch_show_notice (k_chrome k) notice of
        Ok _ \<Rightarrow> (Ok (), k\<lparr>k_notices := k_notices k @ [notice]\<rparr>)
      | Err error \<Rightarrow> (Err (Failed (Durability (notice_error_text error))), k)))"

definition acquire_lease :: "env \<Rightarrow> run_id \<Rightarrow> lease_target \<Rightarrow> int \<Rightarrow> lease_outcome kop" where
  "acquire_lease env run_id target duration =
     bind_s (lift_k (\<lambda>k. ledger_run_view (k_ledger k) run_id)) (\<lambda>run.
     if \<not> is_active run then fails (RunAlreadyEnded run_id)
     else let resource = resource_name target in
     bind_s (lift_k (\<lambda>k. lease_acquire (env_now env) (env_uuid env 0) (k_leases k) run_id target duration))
       (\<lambda>(outcome, leases).
     bind_s (modify (\<lambda>k. k\<lparr>k_leases := leases\<rparr>)) (\<lambda>_.
     bind_s (case outcome of
         LeaseHeld holder \<Rightarrow> show_notice (LeaseConflict resource (le_run_id holder) run_id)
       | LeaseAcquired _ \<Rightarrow> ret ()) (\<lambda>_.
     ret outcome))))"

definition put_secret :: "secret_ref \<Rightarrow> string \<Rightarrow> kernel \<Rightarrow> kernel" where
  "put_secret secret_ref val k = k\<lparr>k_broker := broker_put_secret (k_broker k) secret_ref val\<rparr>"

definition clear_secret :: "secret_ref \<Rightarrow> kernel \<Rightarrow> kernel" where
  "clear_secret secret_ref k = k\<lparr>k_broker := broker_clear_secret (k_broker k) secret_ref\<rparr>"

definition kernel_secret_resolver_for :: "kernel \<Rightarrow> app_id \<Rightarrow> secret_resolver kernel_result" where
  "kernel_secret_resolver_for k app_id =
     bind_r (registry_app (k_registry k) app_id) (\<lambda>app.
       Ok (secret_resolver_for (k_broker k) app_id (declared_secret_names (ia_manifest app))))"

definition kernel_drain_inbox :: "app_id \<Rightarrow> app_event_envelope list kop" where
  "kernel_drain_inbox app_id =
     bind_s (lift_k (\<lambda>k. drain_inbox (k_router k) app_id (k_registry k))) (\<lambda>(events, router).
     bind_s (modify (\<lambda>k. k\<lparr>k_router := router\<rparr>)) (\<lambda>_.
     ret events))"

definition publish_app_data_change :: "app_id \<Rightarrow> string \<Rightarrow> u64 \<Rightarrow> app_data_change_kind \<Rightarrow> unit kop" where
  "publish_app_data_change provider_app_id resource_ref revision change_kind =
     bind_s (lift_k (\<lambda>k. registry_app (k_registry k) provider_app_id)) (\<lambda>_.
     if blank resource_ref then fails (Durability ''resource ref must not be empty'')
     else modify (\<lambda>k. k\<lparr>k_router := publish_data_change (k_router k) provider_app_id resource_ref
            revision change_kind (k_registry k)\<rparr>))"

definition kernel_inbox_status :: "kernel \<Rightarrow> app_id \<Rightarrow> event_inbox_status kernel_result" where
  "kernel_inbox_status k app_id = inbox_status (k_router k) app_id (k_registry k)"

definition cancel_pending_invocations_for_run :: "run_id \<Rightarrow> kernel \<Rightarrow> kernel" where
  "cancel_pending_invocations_for_run run_id k = cancel_pending_for_run run_id k"

end
