(* ===== verification/Kernel_Grants.thy ===== *)
theory Kernel_Grants
  imports Kernel_Runs
begin

text \<open>
  Standing permissions in \<open>kernel.rs\<close>: preparing, committing and issuing user-added grants,
  revocation, and the grant-aware view of capabilities.
\<close>

definition lift_panic :: "(kernel \<Rightarrow> ('a, string) result) \<Rightarrow> 'a kop" where
  "lift_panic f = lift_r (\<lambda>k. map_err Panicked (f k))"

record prepared_grant =
  pg_holder :: app_id
  pg_holder_display_name :: string
  pg_holder_content_hash :: string
  pg_provider_content_hash :: string
  pg_request :: grant_request
  pg_chrome :: trusted_chrome

record grant_approval =
  ga_prepared :: prepared_grant
  ga_decision :: approval_decision

definition prepared_grant_prompt :: "prepared_grant \<Rightarrow> grant_issuance_prompt" where
  "prepared_grant_prompt p = prompt_of_request (pg_holder p) (pg_holder_display_name p) (pg_request p)"

definition await_grant_approval :: "prepared_grant \<Rightarrow> grant_approval" where
  "await_grant_approval p =
     \<lparr>ga_prepared = p, ga_decision = ch_confirm_grant (pg_chrome p) (prepared_grant_prompt p)\<rparr>"

definition await_grouped_approvals :: "prepared_grant list \<Rightarrow> grant_approval list kernel_result" where
  "await_grouped_approvals prepared = (case prepared of
       [] \<Rightarrow> Ok []
     | first # _ \<Rightarrow>
         if list_ex (\<lambda>grant. pg_holder grant \<noteq> pg_holder first
              \<or> pg_holder_content_hash grant \<noteq> pg_holder_content_hash first
              \<or> ch_ptr (pg_chrome grant) \<noteq> ch_ptr (pg_chrome first)) prepared then
           Err PreparedGrantGroupMismatch
         else let prompt = \<lparr>ip_app_id = pg_holder first, ip_app_display_name = pg_holder_display_name first,
                ip_event = None, ip_grants = map prepared_grant_prompt prepared\<rparr>;
              decisions = iad_grant_decisions (ch_confirm_install (pg_chrome first) prompt)
              in Ok (map (\<lambda>(index, p). \<lparr>ga_prepared = p,
                   ga_decision = (if index < length decisions then decisions ! index else DecisionDenied)\<rparr>)
                 (enumerate 0 prepared)))"

definition validate_grant_request :: "kernel \<Rightarrow> app_id \<Rightarrow> grant_request \<Rightarrow> unit kernel_result" where
  "validate_grant_request k holder request =
     bind_r (request_validate request) (\<lambda>_.
     bind_r (registry_app (k_registry k) holder) (\<lambda>_.
     bind_r (case rq_scope request of
         ExactCapability provider capability \<Rightarrow>
           bind_r (registry_capability (k_registry k) (CapabilityRef provider capability)) (\<lambda>_. Ok ())
       | AllProviderCapabilities provider \<Rightarrow>
           bind_r (registry_app (k_registry k) provider) (\<lambda>_. Ok ())) (\<lambda>_.
     if blank (rq_reason request) then Err GrantReasonRequired else Ok ())))"

definition prepare_grant :: "kernel \<Rightarrow> app_id \<Rightarrow> grant_request \<Rightarrow> prepared_grant kernel_result" where
  "prepare_grant k holder request =
     bind_r (validate_grant_request k holder request) (\<lambda>_.
     bind_r (registry_app (k_registry k) holder) (\<lambda>app.
     bind_r (registry_app (k_registry k) (scope_provider (rq_scope request))) (\<lambda>provider.
     Ok \<lparr>pg_holder = holder, pg_holder_display_name = mf_display_name (ia_manifest app),
         pg_holder_content_hash = ia_content_hash app, pg_provider_content_hash = ia_content_hash provider,
         pg_request = request, pg_chrome = k_chrome k\<rparr>)))"

text \<open>The common end of \<open>commit_grant\<close> and \<open>issue_grant\<close>.\<close>

definition commit_issue :: "env \<Rightarrow> issue_result \<times> broker \<Rightarrow> issue_result kop" where
  "commit_issue env issued =
     (case issued of
        (Issued grant, broker) \<Rightarrow>
          bind_s (\<lambda>k. commit_parts env (k_registry k) (k_ledger k) broker (k_artifacts k) k) (\<lambda>_.
          bind_s (modify (\<lambda>k. k\<lparr>k_broker := broker\<rparr>)) (\<lambda>_.
          ret (Issued grant)))
      | (IssueRefused, _) \<Rightarrow> ret IssueRefused)"

definition commit_grant :: "env \<Rightarrow> grant_approval \<Rightarrow> issue_result kop" where
  "commit_grant env approval =
     (let p = ga_prepared approval; holder = pg_holder p; request = pg_request p in
      bind_s (lift_k (\<lambda>k. registry_app (k_registry k) holder)) (\<lambda>app.
      if ia_content_hash app \<noteq> pg_holder_content_hash p then fails PreparedInstallStale
      else
      bind_s (lift_k (\<lambda>k. registry_app (k_registry k) (scope_provider (rq_scope request)))) (\<lambda>provider.
      if ia_content_hash provider \<noteq> pg_provider_content_hash p then fails PreparedInstallStale
      else
      bind_s (lift_k (\<lambda>k. validate_grant_request k holder request)) (\<lambda>_.
      bind_s (lift_panic (\<lambda>k. issue_with_decision (env_now env) (env_uuid env 0) (k_broker k)
        holder request UserAdded (ga_decision approval))) (\<lambda>issued.
      commit_issue env issued)))))"

definition issue_grant :: "env \<Rightarrow> app_id \<Rightarrow> grant_request \<Rightarrow> issue_result kop" where
  "issue_grant env holder request =
     bind_s (lift_k (\<lambda>k. validate_grant_request k holder request)) (\<lambda>_.
     bind_s (lift_k (\<lambda>k. registry_app (k_registry k) holder)) (\<lambda>app.
     bind_s (lift_panic (\<lambda>k. broker_issue (k_chrome k) (env_now env) (env_uuid env 0) (k_broker k)
       holder (mf_display_name (ia_manifest app)) request UserAdded)) (\<lambda>issued.
     commit_issue env issued)))"

definition revoke_grant :: "env \<Rightarrow> grant_id \<Rightarrow> unit kop" where
  "revoke_grant env grant_id =
     bind_s (lift_k (\<lambda>k. broker_revoke (k_broker k) grant_id)) (\<lambda>broker.
     bind_s (\<lambda>k. commit_parts env (k_registry k) (k_ledger k) broker (k_artifacts k) k) (\<lambda>_.
     modify (\<lambda>k. k\<lparr>k_broker := broker,
       k_flags := set_cancelled (\<lambda>pending. gr_grant_id (pn_grant pending) = grant_id) k\<rparr>)))"

definition revoke_grants_for_resource :: "env \<Rightarrow> resource_id \<Rightarrow> unit kop" where
  "revoke_grants_for_resource env resource_id =
     bind_s (gets (\<lambda>k. grant_ids_over_resource (k_broker k) resource_id)) (\<lambda>grant_ids.
     if grant_ids = [] then ret ()
     else
     bind_s (lift_k (\<lambda>k. try_fold broker_revoke (k_broker k) grant_ids)) (\<lambda>broker.
     bind_s (\<lambda>k. commit_parts env (k_registry k) (k_ledger k) broker (k_artifacts k) k) (\<lambda>_.
     modify (\<lambda>k. k\<lparr>k_broker := broker,
       k_flags := set_cancelled (\<lambda>pending.
         bt_contains (bs_of_list grant_ids) (gr_grant_id (pn_grant pending))) k\<rparr>))))"

section \<open>Read views\<close>

definition check_grant :: "datetime \<Rightarrow> kernel \<Rightarrow> app_id \<Rightarrow> capability_ref \<Rightarrow> grant_check" where
  "check_grant now k holder capability = broker_check now (k_broker k) holder capability ScopeNone"

record capability_authorization_view =
  av_data_scope :: data_scope
  av_condition :: grant_condition

record capability_use_view =
  uv_provider_app_id :: app_id
  uv_provider_display_name :: string
  uv_capability :: capability_name
  uv_description :: string
  uv_input_schema :: json_object
  uv_authorizations :: "capability_authorization_view list"

definition capability_use ::
    "datetime \<Rightarrow> kernel \<Rightarrow> app_id \<Rightarrow> installed_app \<Rightarrow> capability_declaration \<Rightarrow> capability_use_view option" where
  "capability_use now k consumer provider cap =
     (let provider_app_id = mf_app_id (ia_manifest provider);
          cap_ref = CapabilityRef provider_app_id (cd_name cap);
          cap_grants = filter (\<lambda>g. scope_covers (gr_scope g) cap_ref) (grants_for now (k_broker k) consumer)
      in if cap_grants = [] then None
         else let authorizations = remdups_adj (sort_key (\<lambda>v. (av_data_scope v, condition_rank (av_condition v)))
                (map (\<lambda>grant. \<lparr>av_data_scope = gr_data_scope grant, av_condition = gr_condition grant\<rparr>) cap_grants))
         in Some \<lparr>uv_provider_app_id = provider_app_id,
              uv_provider_display_name = mf_display_name (ia_manifest provider),
              uv_capability = cd_name cap, uv_description = cd_description cap,
              uv_input_schema = cd_input_schema cap, uv_authorizations = authorizations\<rparr>)"

definition available_capabilities_for ::
    "datetime \<Rightarrow> kernel \<Rightarrow> app_id \<Rightarrow> capability_use_view list kernel_result" where
  "available_capabilities_for now k consumer =
     bind_r (registry_app (k_registry k) consumer) (\<lambda>_.
     Ok (sort_key (\<lambda>v. (uv_provider_app_id v, uv_capability v))
       (concat (map (\<lambda>provider. List.map_filter (capability_use now k consumer provider)
         (mf_capabilities (ia_manifest provider))) (installed_apps (k_registry k))))))"

end
