(* ===== verification/Kernel_Install.thy ===== *)
theory Kernel_Install
  imports Kernel_Grants
begin

text \<open>
  The life cycle of an app in \<open>kernel.rs\<close>: the two-phase install in its three modes (fresh,
  rebinding an unchanged recovered app, replacing a changed one), the compatible upgrade and
  the uninstall.
\<close>

datatype install_mode = Fresh | Rebind | Replace string

datatype absent_provider = Reject | Tolerate

definition tolerate :: "absent_provider \<Rightarrow> unit kernel_result \<Rightarrow> unit kernel_result" where
  "tolerate absent lookup = (case (absent, lookup) of
       (Tolerate, Err (UnknownApp _)) \<Rightarrow> Ok ()
     | (_, result) \<Rightarrow> result)"

record prepared_install =
  pl_sealed_manifest :: sealed_manifest
  pl_handlers :: handler_table
  pl_grant_origin :: grant_origin
  pl_mode :: install_mode
  pl_event_prompt :: "event_subscription_prompt option"
  pl_grant_prompts :: "grant_issuance_prompt list"
  pl_provider_content_hashes :: "(app_id, string option) btree_map"
  pl_chrome :: trusted_chrome

record install_approval =
  il_prepared :: prepared_install
  il_event_decision :: "approval_decision option"
  il_grant_decisions :: "approval_decision list"

definition await_install_approval :: "prepared_install \<Rightarrow> install_approval" where
  "await_install_approval p =
     (let manifest = sm_manifest (pl_sealed_manifest p);
          prompt = \<lparr>ip_app_id = mf_app_id manifest, ip_app_display_name = mf_display_name manifest,
            ip_event = pl_event_prompt p, ip_grants = pl_grant_prompts p\<rparr>;
          decision = ch_confirm_install (pl_chrome p) prompt
      in \<lparr>il_prepared = p, il_event_decision = iad_event_decision decision,
          il_grant_decisions = iad_grant_decisions decision\<rparr>)"

definition grant_duration_matches :: "grant \<Rightarrow> grant_duration \<Rightarrow> bool" where
  "grant_duration_matches grant duration = (case (duration, gr_expires_at grant) of
       (NonExpiring, None) \<Rightarrow> True
     | (ExpiresAfter seconds, Some expires_at) \<Rightarrow> expires_at = gr_issued_at grant + duration_nanos seconds
     | _ \<Rightarrow> False)"

definition require_handler_binding :: "app_manifest \<Rightarrow> handler_table \<Rightarrow> unit kernel_result" where
  "require_handler_binding manifest handlers =
     (let declared = map cd_name (mf_capabilities manifest); offered = bt_keys handlers
      in if bs_of_list declared \<noteq> bs_of_list offered
         then Err (HandlerBindingMismatch (mf_app_id manifest) declared offered) else Ok ())"

definition validate_request :: "kernel \<Rightarrow> app_manifest \<Rightarrow> absent_provider \<Rightarrow> grant_request \<Rightarrow> unit kernel_result" where
  "validate_request k manifest absent request =
     (if blank (rq_reason request) then Err GrantReasonRequired
      else case rq_scope request of
        ExactCapability provider capability \<Rightarrow>
          if provider = mf_app_id manifest then
            (if \<not> list_ex (\<lambda>declaration. cd_name declaration = capability) (mf_capabilities manifest)
             then Err (UndeclaredCapability provider capability) else Ok ())
          else tolerate absent (map_ok (\<lambda>_. ())
            (registry_capability (k_registry k) (CapabilityRef provider capability)))
      | AllProviderCapabilities provider \<Rightarrow>
          if provider = mf_app_id manifest then Ok ()
          else tolerate absent (map_ok (\<lambda>_. ()) (registry_app (k_registry k) provider)))"

definition validate_grant_requests :: "kernel \<Rightarrow> app_manifest \<Rightarrow> absent_provider \<Rightarrow> unit kernel_result" where
  "validate_grant_requests k manifest absent =
     for_each (validate_request k manifest absent) (mf_grant_requests manifest)"

definition validate_install_grant_requests :: "kernel \<Rightarrow> app_manifest \<Rightarrow> unit kernel_result" where
  "validate_install_grant_requests k manifest = validate_grant_requests k manifest Reject"

definition matches_request :: "grant_request \<Rightarrow> grant_origin \<Rightarrow> grant \<Rightarrow> bool" where
  "matches_request request origin grant =
     (gr_scope grant = rq_scope request \<and> gr_data_scope grant = rq_data_scope request
      \<and> gr_condition grant = rq_condition request \<and> gr_origin grant = origin
      \<and> grant_duration_matches grant (rq_duration request))"

definition manifest_grant_for ::
    "datetime \<Rightarrow> kernel \<Rightarrow> app_id \<Rightarrow> grant_request \<Rightarrow> grant_origin \<Rightarrow> grant option" where
  "manifest_grant_for now k app_id request origin =
     List.find (matches_request request origin) (grants_for now (k_broker k) app_id)"

definition provider_content_hashes_for ::
    "kernel \<Rightarrow> app_manifest \<Rightarrow> absent_provider \<Rightarrow> (app_id, string option) btree_map kernel_result" where
  "provider_content_hashes_for k manifest absent =
     map_ok bt_of_list (try_map (\<lambda>request.
         let provider = scope_provider (rq_scope request) in
         case registry_app (k_registry k) provider of
           Ok installed \<Rightarrow> Ok (provider, Some (ia_content_hash installed))
         | Err (UnknownApp a) \<Rightarrow>
             (if absent = Tolerate then Ok (provider, None) else Err (UnknownApp a))
         | Err error \<Rightarrow> Err error)
       (filter (\<lambda>request. scope_provider (rq_scope request) \<noteq> mf_app_id manifest) (mf_grant_requests manifest)))"

definition require_provider_content_hashes :: "kernel \<Rightarrow> (app_id, string option) btree_map \<Rightarrow> unit kernel_result" where
  "require_provider_content_hashes k expected =
     for_each (\<lambda>(provider, content_hash).
       bind_r (case registry_app (k_registry k) provider of
           Ok installed \<Rightarrow> Ok (Some (ia_content_hash installed))
         | Err (UnknownApp _) \<Rightarrow> Ok None
         | Err error \<Rightarrow> Err error) (\<lambda>current.
       if current \<noteq> content_hash then Err PreparedInstallStale else Ok ())) (bt_entries expected)"

section \<open>Prepare\<close>

definition same_authority :: "grant_issuance_prompt \<Rightarrow> grant_issuance_prompt \<Rightarrow> bool" where
  "same_authority seen prompt =
     (gp_scope seen = gp_scope prompt \<and> gp_data_scope seen = gp_data_scope prompt
      \<and> gp_condition seen = gp_condition prompt \<and> gp_duration seen = gp_duration prompt)"

definition dedup_prompts :: "grant_issuance_prompt list \<Rightarrow> grant_issuance_prompt list" where
  "dedup_prompts prompts =
     foldl (\<lambda>unique prompt. if list_ex (\<lambda>seen. same_authority seen prompt) unique then unique
                             else unique @ [prompt]) [] prompts"

definition install_mode_for :: "externals \<Rightarrow> kernel \<Rightarrow> sealed_manifest \<Rightarrow> install_mode kernel_result" where
  "install_mode_for x k sealed =
     (let manifest = sm_manifest sealed; app_id = mf_app_id manifest in
      case registry_app (k_registry k) app_id of
        Ok installed \<Rightarrow>
          if bt_contains (k_handlers k) app_id then Err (AppAlreadyInstalled app_id)
          else if ia_content_hash installed = sm_content_hash sealed \<and> ia_manifest installed = manifest
          then Ok Rebind
          else
            bind_r (registry_uninstall (k_registry k) app_id) (\<lambda>registry.
            bind_r (validate_install x registry sealed) (\<lambda>_.
            bind_r (validate_install_grant_requests k manifest) (\<lambda>_.
            Ok (Replace (ia_content_hash installed)))))
      | Err (UnknownApp _) \<Rightarrow>
          bind_r (validate_install x (k_registry k) sealed) (\<lambda>_.
          bind_r (validate_install_grant_requests k manifest) (\<lambda>_.
          Ok Fresh))
      | Err error \<Rightarrow> Err error)"

definition install_prompts ::
    "datetime \<Rightarrow> kernel \<Rightarrow> app_manifest \<Rightarrow> grant_origin \<Rightarrow> install_mode
      \<Rightarrow> event_subscription_prompt option \<times> grant_issuance_prompt list" where
  "install_prompts now k manifest grant_origin mode =
     (let app_id = mf_app_id manifest;
          prompt_for = prompt_of_request app_id (mf_display_name manifest)
      in if mode = Rebind then
           (None, dedup_prompts (map prompt_for
             (filter (\<lambda>request. manifest_grant_for now k app_id request grant_origin = None)
               (filter (\<lambda>request. scope_provider (rq_scope request) = app_id
                   \<or> is_ok (registry_app (k_registry k) (scope_provider (rq_scope request))))
                 (mf_grant_requests manifest)))))
         else
           ((if mf_event_subscriptions manifest \<noteq> []
             then Some \<lparr>ep_app_id = app_id, ep_app_display_name = mf_display_name manifest,
                         ep_topics = mf_event_subscriptions manifest\<rparr>
             else None),
            dedup_prompts (map prompt_for (mf_grant_requests manifest))))"

definition prepare_install_with_grant_origin ::
    "externals \<Rightarrow> env \<Rightarrow> kernel \<Rightarrow> sealed_manifest \<Rightarrow> handler_table \<Rightarrow> grant_origin
      \<Rightarrow> prepared_install kernel_result" where
  "prepare_install_with_grant_origin x env k sealed handlers grant_origin =
     (let manifest = sm_manifest sealed in
      bind_r (require_handler_binding manifest handlers) (\<lambda>_.
      bind_r (install_mode_for x k sealed) (\<lambda>mode.
      let (event_prompt, grant_prompts) = install_prompts (env_now env) k manifest grant_origin mode in
      bind_r (provider_content_hashes_for k manifest (if mode = Rebind then Tolerate else Reject)) (\<lambda>hashes.
      Ok \<lparr>pl_sealed_manifest = sealed, pl_handlers = handlers, pl_grant_origin = grant_origin,
          pl_mode = mode, pl_event_prompt = event_prompt, pl_grant_prompts = grant_prompts,
          pl_provider_content_hashes = hashes, pl_chrome = k_chrome k\<rparr>))))"

definition prepare_install ::
    "externals \<Rightarrow> env \<Rightarrow> kernel \<Rightarrow> sealed_manifest \<Rightarrow> handler_table \<Rightarrow> prepared_install kernel_result" where
  "prepare_install x env k sealed handlers =
     prepare_install_with_grant_origin x env k sealed handlers ManifestRequested"

section \<open>Commit\<close>

definition prompt_decision ::
    "grant_issuance_prompt list \<Rightarrow> approval_decision list \<Rightarrow> grant_request \<Rightarrow> approval_decision option" where
  "prompt_decision prompts decisions request =
     map_option snd (List.find (\<lambda>(prompt, _).
         gp_scope prompt = rq_scope request \<and> gp_data_scope prompt = rq_data_scope request
         \<and> gp_condition prompt = rq_condition request \<and> gp_duration prompt = rq_duration request)
       (zip prompts decisions))"

definition reconcile_request ::
    "env \<Rightarrow> app_id \<Rightarrow> grant_origin \<Rightarrow> grant_issuance_prompt list \<Rightarrow> approval_decision list
      \<Rightarrow> broker \<times> issue_result list \<times> bool \<Rightarrow> grant_request
      \<Rightarrow> (broker \<times> issue_result list \<times> bool, string) result" where
  "reconcile_request env app_id origin prompts decisions acc request =
     (let (broker, results, issued_any) = acc in
      case List.find (matches_request request origin) (grants_for (env_now env) broker app_id) of
        Some grant \<Rightarrow> Ok (broker, results @ [Issued grant], issued_any)
      | None \<Rightarrow>
          bind_r (case prompt_decision prompts decisions request of
              None \<Rightarrow> Ok (IssueRefused, broker)
            | Some decision \<Rightarrow> issue_with_decision (env_now env) (env_uuid env (length results)) broker
                app_id request origin decision) (\<lambda>(result, broker).
          Ok (broker, results @ [result], issued_any \<or> result \<noteq> IssueRefused)))"

definition reconcile_manifest_grants ::
    "env \<Rightarrow> broker \<Rightarrow> app_id \<Rightarrow> grant_request list \<Rightarrow> grant_origin \<Rightarrow> grant_issuance_prompt list
      \<Rightarrow> approval_decision list \<Rightarrow> (broker \<times> issue_result list \<times> bool, string) result" where
  "reconcile_manifest_grants env broker app_id requests origin prompts decisions =
     try_fold (reconcile_request env app_id origin prompts decisions) (broker, [], False) requests"

definition bind_handlers :: "app_id \<Rightarrow> handler_table \<Rightarrow> kernel \<Rightarrow> kernel" where
  "bind_handlers app_id handlers k = k\<lparr>k_handlers := bt_insert app_id handlers (k_handlers k)\<rparr>"

definition commit_rebind :: "env \<Rightarrow> install_approval \<Rightarrow> issue_result list kop" where
  "commit_rebind env approval =
     (let p = il_prepared approval; sealed = pl_sealed_manifest p; manifest = sm_manifest sealed;
          app_id = mf_app_id manifest in
      bind_s (lift_k (\<lambda>k. registry_app (k_registry k) app_id)) (\<lambda>installed.
      bind_s (gets (\<lambda>k. bt_contains (k_handlers k) app_id)) (\<lambda>bound.
      if ia_content_hash installed \<noteq> sm_content_hash sealed \<or> ia_manifest installed \<noteq> manifest \<or> bound
      then fails PreparedInstallStale
      else
      bind_s (lift_k (\<lambda>k. validate_grant_requests k manifest Tolerate)) (\<lambda>_.
      if length (il_grant_decisions approval) \<noteq> length (pl_grant_prompts p) then fails PreparedInstallStale
      else
      bind_s (lift_panic (\<lambda>k. reconcile_manifest_grants env (k_broker k) app_id (mf_grant_requests manifest)
        (pl_grant_origin p) (pl_grant_prompts p) (il_grant_decisions approval))) (\<lambda>(broker, results, issued_any).
      bind_s (if issued_any
              then bind_s (\<lambda>k. commit_parts env (k_registry k) (k_ledger k) broker (k_artifacts k) k) (\<lambda>_.
                   modify (\<lambda>k. k\<lparr>k_broker := broker\<rparr>))
              else ret ()) (\<lambda>_.
      bind_s (modify (bind_handlers app_id (pl_handlers p))) (\<lambda>_.
      ret results)))))))"

definition require_consent :: "install_approval \<Rightarrow> app_id \<Rightarrow> unit kernel_result" where
  "require_consent approval app_id =
     (let p = il_prepared approval in
      if pl_event_prompt p \<noteq> None \<and> il_event_decision approval \<noteq> Some DecisionApproved
      then Err (EventSubscriptionDenied app_id)
      else if length (il_grant_decisions approval) \<noteq> length (pl_grant_prompts p)
      then Err PreparedInstallStale
      else Ok ())"

definition commit_fresh :: "externals \<Rightarrow> env \<Rightarrow> install_approval \<Rightarrow> issue_result list kop" where
  "commit_fresh x env approval =
     (let p = il_prepared approval; sealed = pl_sealed_manifest p; manifest = sm_manifest sealed;
          app_id = mf_app_id manifest in
      bind_s (lift_k (\<lambda>k. if is_ok (registry_app (k_registry k) app_id) then Err PreparedInstallStale else Ok ())) (\<lambda>_.
      bind_s (lift_k (\<lambda>k. validate_install x (k_registry k) sealed)) (\<lambda>_.
      bind_s (lift_k (\<lambda>k. validate_install_grant_requests k manifest)) (\<lambda>_.
      bind_s (lift_k (\<lambda>_. require_consent approval app_id)) (\<lambda>_.
      bind_s (lift_k (\<lambda>k. registry_install x (env_now env) (k_registry k) sealed)) (\<lambda>(_, registry).
      bind_s (lift_panic (\<lambda>k. reconcile_manifest_grants env (k_broker k) app_id (mf_grant_requests manifest)
        (pl_grant_origin p) (pl_grant_prompts p) (il_grant_decisions approval))) (\<lambda>(broker, results, _).
      bind_s (\<lambda>k. commit_parts env registry (k_ledger k) broker (k_artifacts k) k) (\<lambda>_.
      bind_s (modify (\<lambda>k. bind_handlers app_id (pl_handlers p)
        (k\<lparr>k_registry := registry, k_broker := broker\<rparr>))) (\<lambda>_.
      ret results)))))))))"

definition run_end_events :: "kernel \<Rightarrow> app_id \<Rightarrow> ledger_event list" where
  "run_end_events k app_id =
     pending_cancellation_events_for_app k app_id @
     map (\<lambda>run_id. RunEnded run_id RunCancelled) (active_runs_for_app (k_ledger k) app_id)"

definition strip_authority :: "broker \<Rightarrow> app_id \<Rightarrow> broker" where
  "strip_authority broker app_id =
     clear_all_for (revoke_all_over (revoke_all_for broker app_id) app_id) app_id"

definition release_runs :: "run_id list \<Rightarrow> lease_manager \<Rightarrow> lease_manager" where
  "release_runs run_ids leases = foldl release_all_for_run leases run_ids"

definition replace_installed_app ::
    "externals \<Rightarrow> env \<Rightarrow> install_approval \<Rightarrow> string \<Rightarrow> issue_result list kop" where
  "replace_installed_app x env approval previous_content_hash =
     (let p = il_prepared approval; sealed = pl_sealed_manifest p; manifest = sm_manifest sealed;
          app_id = mf_app_id manifest in
      bind_s (lift_k (\<lambda>k. registry_app (k_registry k) app_id)) (\<lambda>installed.
      bind_s (gets (\<lambda>k. bt_contains (k_handlers k) app_id)) (\<lambda>bound.
      if ia_content_hash installed \<noteq> previous_content_hash \<or> bound then fails PreparedInstallStale
      else
      bind_s (lift_k (\<lambda>k. registry_uninstall (k_registry k) app_id)) (\<lambda>emptied.
      bind_s (lift_k (\<lambda>_. validate_install x emptied sealed)) (\<lambda>_.
      bind_s (lift_k (\<lambda>k. validate_install_grant_requests k manifest)) (\<lambda>_.
      bind_s (lift_k (\<lambda>_. require_consent approval app_id)) (\<lambda>_.
      bind_s (lift_k (\<lambda>_. registry_install x (env_now env) emptied sealed)) (\<lambda>(_, registry).
      bind_s (gets (\<lambda>k. active_runs_for_app (k_ledger k) app_id)) (\<lambda>active_runs.
      bind_s (lift_k (\<lambda>k. try_map (event_view k) (run_end_events k app_id))) (\<lambda>views.
      bind_s (lift_k (\<lambda>k. append_batch (env_now env) (k_ledger k) (run_end_events k app_id))) (\<lambda>(_, ledger).
      bind_s (lift_panic (\<lambda>k. reconcile_manifest_grants env (strip_authority (k_broker k) app_id) app_id
        (mf_grant_requests manifest) (pl_grant_origin p) (pl_grant_prompts p) (il_grant_decisions approval)))
        (\<lambda>(broker, results, _).
      bind_s (\<lambda>k. commit_parts env registry ledger broker (k_artifacts k) k) (\<lambda>_.
      bind_s (modify (\<lambda>k.
        let k = k\<lparr>k_ledger := ledger, k_broker := broker, k_registry := registry\<rparr>;
            k = remove_pending_for_app app_id k;
            k = k\<lparr>k_leases := release_runs active_runs (k_leases k)\<rparr>;
            k = k\<lparr>k_router := publish_batch (k_router k) views (k_registry k)\<rparr>;
            k = k\<lparr>k_surfaces := close_all_for (k_surfaces k) app_id\<rparr>;
            k = k\<lparr>k_router := discard_inbox (k_router k) app_id\<rparr>
        in bind_handlers app_id (pl_handlers p) k)) (\<lambda>_.
      ret results))))))))))))))"

definition commit_install :: "externals \<Rightarrow> env \<Rightarrow> install_approval \<Rightarrow> issue_result list kop" where
  "commit_install x env approval =
     (let p = il_prepared approval in
      bind_s (lift_k (\<lambda>k. require_provider_content_hashes k (pl_provider_content_hashes p))) (\<lambda>_.
      bind_s (lift_k (\<lambda>_. require_handler_binding (sm_manifest (pl_sealed_manifest p)) (pl_handlers p))) (\<lambda>_.
      case pl_mode p of
        Rebind \<Rightarrow> commit_rebind env approval
      | Fresh \<Rightarrow> commit_fresh x env approval
      | Replace previous_content_hash \<Rightarrow> replace_installed_app x env approval previous_content_hash)))"

section \<open>Upgrade and uninstall\<close>

definition upgrade_app :: "externals \<Rightarrow> env \<Rightarrow> sealed_manifest \<Rightarrow> handler_table \<Rightarrow> unit kop" where
  "upgrade_app x env sealed handlers =
     (let manifest = sm_manifest sealed; app_id = mf_app_id manifest in
      bind_s (lift_k (\<lambda>_. require_handler_binding manifest handlers)) (\<lambda>_.
      bind_s (lift_k (\<lambda>k. validate_grant_requests k manifest Tolerate)) (\<lambda>_.
      bind_s (lift_k (\<lambda>k. registry_upgrade x (k_registry k) sealed)) (\<lambda>registry.
      bind_s (\<lambda>k. commit_parts env registry (k_ledger k) (k_broker k) (k_artifacts k) k) (\<lambda>_.
      modify (\<lambda>k. bind_handlers app_id handlers (k\<lparr>k_registry := registry\<rparr>)))))))"

definition kernel_uninstall :: "env \<Rightarrow> app_id \<Rightarrow> unit kop" where
  "kernel_uninstall env app_id =
     bind_s (lift_k (\<lambda>k. registry_app (k_registry k) app_id)) (\<lambda>_.
     bind_s (gets (\<lambda>k. active_runs_for_app (k_ledger k) app_id)) (\<lambda>active_runs.
     bind_s (lift_k (\<lambda>k. try_map (event_view k) (run_end_events k app_id))) (\<lambda>views.
     bind_s (lift_k (\<lambda>k. append_batch (env_now env) (k_ledger k) (run_end_events k app_id))) (\<lambda>(_, ledger).
     bind_s (gets (\<lambda>k. strip_authority (k_broker k) app_id)) (\<lambda>broker.
     bind_s (lift_k (\<lambda>k. registry_uninstall (k_registry k) app_id)) (\<lambda>registry.
     bind_s (\<lambda>k. commit_parts env registry ledger broker (k_artifacts k) k) (\<lambda>_.
     modify (\<lambda>k.
       let k = remove_pending_for_app app_id k;
           k = k\<lparr>k_leases := release_runs active_runs (k_leases k)\<rparr>;
           k = k\<lparr>k_ledger := ledger, k_broker := broker, k_registry := registry\<rparr>;
           k = k\<lparr>k_router := publish_batch (k_router k) views (k_registry k)\<rparr>;
           k = k\<lparr>k_surfaces := close_all_for (k_surfaces k) app_id\<rparr>;
           k = k\<lparr>k_router := discard_inbox (k_router k) app_id\<rparr>
       in k\<lparr>k_handlers := bt_remove app_id (k_handlers k)\<rparr>))))))))"

end
