(* ===== verification/Kernel_Invoke.thy ===== *)
theory Kernel_Invoke
  imports Kernel_Runs
begin

text \<open>
  The action path of \<open>kernel.rs\<close>: prepare, authorize, execute, finalize, and the explicit aborts.
  Rust drops a token at the end of the function that consumes it; the drops that set the shared
  flag are written out where they happen.
\<close>

definition nanos_per_sec :: int where
  "nanos_per_sec = 1000000000"

definition default_invocation_timeout :: int where
  "default_invocation_timeout = 60 * nanos_per_sec"

text \<open>\<open>Instant::checked_add\<close>: the seconds of the sum must fit a signed 64-bit integer.\<close>

definition instant_checked_add :: "instant \<Rightarrow> int \<Rightarrow> instant option" where
  "instant_checked_add i d = (if (i + d) div nanos_per_sec < 2 ^ 63 then Some (i + d) else None)"

datatype prepare_invocation_outcome =
  Prepared prepared_invocation | PrepareRefused invocation_result

datatype authorize_invocation_outcome =
  Authorized authorized_invocation | AuthorizeRefused invocation_result

section \<open>Prepare\<close>

definition bound_handler :: "kernel \<Rightarrow> capability_ref \<Rightarrow> capability_handler option" where
  "bound_handler k capability =
     (case bt_get (k_handlers k) (cr_provider capability) of
        None \<Rightarrow> None
      | Some bound \<Rightarrow> bt_get bound (cr_capability capability))"

definition register_pending ::
    "env \<Rightarrow> run_id \<Rightarrow> app_id \<Rightarrow> capability_ref \<Rightarrow> grant \<Rightarrow> invocation_request \<Rightarrow> json_object option
      \<Rightarrow> int \<Rightarrow> capability_approval_prompt option \<Rightarrow> prepare_invocation_outcome kop" where
  "register_pending env run_id acting_app capability grant request output_schema timeout approval =
     (case instant_checked_add (env_instant env) timeout of
        None \<Rightarrow> fails InvalidInvocationTimeout
      | Some deadline \<Rightarrow>
          bind_s (gets k_next_invocation_id) (\<lambda>i.
          bind_s (modify (\<lambda>k. k\<lparr>k_next_invocation_id := i + 1, k_flags := (k_flags k)(i := False)\<rparr>)) (\<lambda>_.
          bind_s (lift_k (\<lambda>k. registry_app (k_registry k) (cr_provider capability))) (\<lambda>provider.
          bind_s (modify (\<lambda>k. k\<lparr>k_pending := bt_insert i
             \<lparr>pn_run_id = run_id, pn_acting_app = acting_app, pn_capability = capability,
              pn_grant = grant, pn_requested_data_scope = ir_data_scope request,
              pn_provider_content_hash = ia_content_hash provider, pn_output_schema = output_schema,
              pn_input = ir_input request, pn_deadline = deadline,
              pn_state = PreparedForApproval\<rparr> (k_pending k)\<rparr>)) (\<lambda>_.
          bind_s (gets k_chrome) (\<lambda>chrome.
          ret (Prepared \<lparr>pi_id = i, pi_approval = approval, pi_chrome = chrome\<rparr>)))))))"

definition seek_approval ::
    "externals \<Rightarrow> env \<Rightarrow> run_id \<Rightarrow> run_view \<Rightarrow> app_id \<Rightarrow> capability_ref \<Rightarrow> capability_declaration
      \<Rightarrow> grant \<Rightarrow> invocation_request \<Rightarrow> bool \<Rightarrow> capability_approval_prompt option kop" where
  "seek_approval x env run_id run acting_app capability declaration grant request counts_as_approval =
     (if gr_condition grant = RequiresApproval \<and> \<not> counts_as_approval then
        bind_s (lift_k (\<lambda>k. registry_app (k_registry k) acting_app)) (\<lambda>app.
        let (input_summary, truncated) = approval_input_summary x (ir_input request);
            prompt = \<lparr>cp_app_id = acting_app, cp_app_display_name = mf_display_name (ia_manifest app),
              cp_capability = capability, cp_capability_description = cd_description declaration,
              cp_effect = cd_effect declaration, cp_input_summary = input_summary,
              cp_input_summary_truncated = truncated, cp_data_scope = ir_data_scope request,
              cp_grant_id = gr_grant_id grant, cp_run_id = run_id, cp_goal = rv_goal run\<rparr> in
        bind_s (record_event env (ApprovalRequested run_id capability (gr_grant_id grant) (ir_data_scope request))) (\<lambda>_.
        ret (Some prompt)))
      else
        bind_s (lift_k (\<lambda>_. payload_sha256 x (JObject (ir_input request)))) (\<lambda>input_sha256.
        bind_s (record_event env (CapabilityInvoked run_id capability (gr_grant_id grant) input_sha256
          (ir_data_scope request))) (\<lambda>_.
        ret None)))"

definition prepare_invocation_with_context ::
    "externals \<Rightarrow> env \<Rightarrow> run_id \<Rightarrow> capability_ref \<Rightarrow> invocation_request \<Rightarrow> int \<Rightarrow> bool
      \<Rightarrow> prepare_invocation_outcome kop" where
  "prepare_invocation_with_context x env run_id capability request timeout direct_surface =
     bind_s (reap_cancelled_pending env) (\<lambda>_.
     bind_s (lift_k (\<lambda>_. ds_validate_invocation (ir_data_scope request))) (\<lambda>_.
     bind_s (lift_k (\<lambda>k. ledger_run_view (k_ledger k) run_id)) (\<lambda>run.
     if \<not> is_active run then fails (RunAlreadyEnded run_id)
     else let acting_app = initiating_app run in
     bind_s (lift_k (\<lambda>k. registry_app (k_registry k) acting_app)) (\<lambda>_.
     bind_s (lift_k (\<lambda>k. registry_capability (k_registry k) capability)) (\<lambda>declaration.
     let counts_as_approval =
           (direct_surface \<and> (cd_effect declaration = ReadOnly \<or> cd_effect declaration = LocalWrite)) in
     bind_s (lift_k (\<lambda>_. validate_against_schema x (JObject (ir_input request))
       (cd_input_schema declaration) ViolatesCapabilityInput (qualified_name capability))) (\<lambda>_.
     bind_s (gets (\<lambda>k. broker_check (env_now env) (k_broker k) acting_app capability (ir_data_scope request))) (\<lambda>check.
     case (case check of CheckAllowed grant \<Rightarrow> Inr grant | CheckApprovalRequired grant \<Rightarrow> Inr grant
           | CheckDenied reason \<Rightarrow> Inl reason) of
       Inl reason \<Rightarrow>
         bind_s (record_event env (InvocationRefused run_id capability reason (ir_data_scope request))) (\<lambda>_.
         ret (PrepareRefused (InvocationRefusedResult (refusal_for reason))))
     | Inr grant \<Rightarrow>
     bind_s (gets (\<lambda>k. bound_handler k capability)) (\<lambda>handler.
     if handler = None then fails (HandlerNotBound (cr_provider capability) (cr_capability capability))
     else
     bind_s (if gr_condition grant = Notify \<and> \<not> direct_surface
             then show_notice (GrantUse acting_app capability (gr_grant_id grant) run_id)
             else ret ()) (\<lambda>_.
     bind_s (seek_approval x env run_id run acting_app capability declaration grant request
             counts_as_approval) (\<lambda>approval.
     register_pending env run_id acting_app capability grant request (cd_output_schema declaration)
       timeout approval))))))))))"

definition prepare_invocation_with_timeout ::
    "externals \<Rightarrow> env \<Rightarrow> run_id \<Rightarrow> capability_ref \<Rightarrow> invocation_request \<Rightarrow> int \<Rightarrow> prepare_invocation_outcome kop" where
  "prepare_invocation_with_timeout x env run_id capability request timeout =
     prepare_invocation_with_context x env run_id capability request timeout False"

definition prepare_invocation ::
    "externals \<Rightarrow> env \<Rightarrow> run_id \<Rightarrow> capability_ref \<Rightarrow> invocation_request \<Rightarrow> prepare_invocation_outcome kop" where
  "prepare_invocation x env run_id capability request =
     prepare_invocation_with_timeout x env run_id capability request default_invocation_timeout"

definition prepare_surface_action ::
    "externals \<Rightarrow> env \<Rightarrow> surface_binding \<Rightarrow> action_intent \<Rightarrow> (run_id \<times> prepare_invocation_outcome) kop" where
  "prepare_surface_action x env binding intent =
     bind_s (lift_k (\<lambda>k. require_open (k_surfaces k) binding)) (\<lambda>_.
     bind_s (lift_k (\<lambda>k. registry_surface (k_registry k) (sb_app_id binding) (sb_surface binding))) (\<lambda>declared.
     if ai_capability intent \<notin> set (sd_intents declared) then
       fails (UndeclaredSurfaceIntent (sb_app_id binding) (sb_surface binding) (ai_capability intent))
     else let direct_surface = (sb_app_id binding = cr_provider (ai_capability intent)) in
     bind_s (start_run env (SurfaceAction (sb_app_id binding) (sb_surface binding)) (ai_goal intent)) (\<lambda>run_id.
     bind_s (on_err (prepare_invocation_with_context x env run_id (ai_capability intent)
               \<lparr>ir_input = ai_input intent, ir_data_scope = ai_data_scope intent\<rparr>
               default_invocation_timeout direct_surface)
             (\<lambda>k. snd (end_run env run_id RunFailed k))) (\<lambda>prepared.
     ret (run_id, prepared)))))"

section \<open>Authorize\<close>

text \<open>\<open>revalidate_pending\<close> takes a shared reference but stores the flag of an overdue invocation.\<close>

definition revalidate_pending :: "env \<Rightarrow> u64 \<Rightarrow> pending_invocation \<Rightarrow> unit kop" where
  "revalidate_pending env i pending =
     bind_s (lift_k (\<lambda>k. ledger_run_view (k_ledger k) (pn_run_id pending))) (\<lambda>run.
     if \<not> is_active run then fails (RunAlreadyEnded (pn_run_id pending))
     else
     bind_s (lift_k (\<lambda>k. registry_app (k_registry k) (pn_acting_app pending))) (\<lambda>_.
     bind_s (lift_k (\<lambda>k. registry_app (k_registry k) (cr_provider (pn_capability pending)))) (\<lambda>provider.
     if ia_content_hash provider \<noteq> pn_provider_content_hash pending then fails PreparedInvocationStale
     else
     bind_s (gets (\<lambda>k. broker_check (env_now env) (k_broker k) (pn_acting_app pending)
       (pn_capability pending) (pn_requested_data_scope pending))) (\<lambda>check.
     bind_s (lift_k (\<lambda>_. case check of
         CheckDenied reason \<Rightarrow> Err (PreparedInvocationDenied reason)
       | CheckAllowed grant \<Rightarrow>
           (if gr_grant_id grant = gr_grant_id (pn_grant pending) then Ok () else Err PreparedInvocationStale)
       | CheckApprovalRequired grant \<Rightarrow>
           (if gr_grant_id grant = gr_grant_id (pn_grant pending) then Ok () else Err PreparedInvocationStale))) (\<lambda>_.
     bind_s (modify (\<lambda>k. if env_instant env \<ge> pn_deadline pending then set_flag i k else k)) (\<lambda>_.
     lift_k (\<lambda>k. if k_flags k i then Err PreparedInvocationCancelled else Ok ())))))))"

definition finalize_cancelled ::
    "env \<Rightarrow> run_id \<Rightarrow> capability_ref \<Rightarrow> data_scope \<Rightarrow> failure \<Rightarrow> invocation_result kop" where
  "finalize_cancelled env run_id capability data_scope failure = (case failure of
       Failed (PreparedInvocationDenied reason) \<Rightarrow>
         bind_s (record_event env (InvocationRefused run_id capability reason data_scope)) (\<lambda>_.
         ret (InvocationRefusedResult (refusal_for reason)))
     | Failed PreparedInvocationCancelled \<Rightarrow>
         bind_s (record_event env (InvocationCancelled run_id capability data_scope)) (\<lambda>_.
         ret (InvocationRefusedResult RefusedCancelled))
     | Failed PreparedInvocationStale \<Rightarrow>
         bind_s (record_event env (InvocationCancelled run_id capability data_scope)) (\<lambda>_.
         ret (InvocationRefusedResult RefusedCancelled))
     | Failed (UnknownApp _) \<Rightarrow>
         bind_s (record_event env (InvocationCancelled run_id capability data_scope)) (\<lambda>_.
         ret (InvocationRefusedResult RefusedCancelled))
     | Failed (HandlerNotBound _ _) \<Rightarrow>
         bind_s (record_event env (InvocationCancelled run_id capability data_scope)) (\<lambda>_.
         ret (InvocationRefusedResult RefusedCancelled))
     | _ \<Rightarrow> fail failure)"

text \<open>
  \<open>let result = m; if result.is_err() { require_recovery }; pending.remove(id); result\<close>; a panic
  unwinds past both.
\<close>

definition consume_pending :: "u64 \<Rightarrow> 'a kop \<Rightarrow> 'a kop" where
  "consume_pending i m = (\<lambda>k. case m k of
       (Ok a, k') \<Rightarrow> (Ok a, remove_pending i k')
     | (Err (Failed e), k') \<Rightarrow>
         (Err (Failed e), remove_pending i (require_recovery_after_consumed_transition k'))
     | (Err (Panicked s), k') \<Rightarrow> (Err (Panicked s), k'))"

text \<open>The \<open>map[&id]\<close> of the source, which panics when the entry is gone.\<close>

definition pending_at :: "u64 \<Rightarrow> pending_invocation kop" where
  "pending_at i = (\<lambda>k. case bt_get (k_pending k) i of
       Some pending \<Rightarrow> (Ok pending, k)
     | None \<Rightarrow> (Err (Panicked ''no entry found for key''), k))"

definition record_decision :: "env \<Rightarrow> u64 \<Rightarrow> approval_decision \<Rightarrow> unit kop" where
  "record_decision env i decision =
     bind_s (pending_at i) (\<lambda>pending.
     let run_id = pn_run_id pending; capability = pn_capability pending;
         grant_id = gr_grant_id (pn_grant pending); data_scope = pn_requested_data_scope pending in
     bind_s (on_err (record_event env (if decision = DecisionApproved
           then ApprovalGranted run_id capability grant_id data_scope
           else ApprovalDenied run_id capability grant_id data_scope))
         (\<lambda>k. remove_pending i (require_recovery_after_consumed_transition k))) (\<lambda>_.
     ret ()))"

definition record_invoked_after_approval :: "externals \<Rightarrow> env \<Rightarrow> u64 \<Rightarrow> pending_invocation \<Rightarrow> unit kop" where
  "record_invoked_after_approval x env i pending =
     (if gr_condition (pn_grant pending) = RequiresApproval then
        bind_s (lift_k (\<lambda>_. payload_sha256 x (JObject (pn_input pending)))) (\<lambda>input_sha256.
        bind_s (on_err (record_event env (CapabilityInvoked (pn_run_id pending) (pn_capability pending)
            (gr_grant_id (pn_grant pending)) input_sha256 (pn_requested_data_scope pending)))
          (\<lambda>k. remove_pending i (require_recovery_after_consumed_transition k))) (\<lambda>_.
        ret ()))
      else ret ())"

definition invocation_context_of :: "u64 \<Rightarrow> pending_invocation \<Rightarrow> kernel \<Rightarrow> invocation_context kernel_result" where
  "invocation_context_of i pending k =
     bind_r (registry_app (k_registry k) (pn_acting_app pending)) (\<lambda>installed.
     bind_r (registry_app (k_registry k) (cr_provider (pn_capability pending))) (\<lambda>provider.
     Ok \<lparr>ic_run_id = pn_run_id pending, ic_invoked_by = pn_acting_app pending,
         ic_invoked_by_version = mf_version (ia_manifest installed),
         ic_invoked_by_content_hash = ia_content_hash installed,
         ic_authorized_data_scope = pn_requested_data_scope pending,
         ic_secrets = secret_resolver_for (k_broker k) (cr_provider (pn_capability pending))
           (declared_secret_names (ia_manifest provider)),
         ic_artifacts = snapshot_resolver_for (k_artifacts k) (pn_requested_data_scope pending),
         ic_cancellation = \<lparr>ca_cell = i, ca_deadline = pn_deadline pending\<rparr>,
         ic_progress = default_reporter\<rparr>))"

definition dispatch_authorized :: "externals \<Rightarrow> env \<Rightarrow> u64 \<Rightarrow> authorize_invocation_outcome kop" where
  "dispatch_authorized x env i =
     bind_s (pending_at i) (\<lambda>pending.
     bind_s (record_invoked_after_approval x env i pending) (\<lambda>_.
     bind_s (lift_k (\<lambda>k. ok_or (HandlerNotBound (cr_provider (pn_capability pending))
         (cr_capability (pn_capability pending))) (bound_handler k (pn_capability pending)))) (\<lambda>handler.
     bind_s (lift_k (invocation_context_of i pending)) (\<lambda>context.
     bind_s (pending_at i) (\<lambda>pending.
     bind_s (modify (\<lambda>k. k\<lparr>k_pending := bt_insert i (pending\<lparr>pn_state := AuthorizedForExecution\<rparr>) (k_pending k)\<rparr>)) (\<lambda>_.
     ret (Authorized \<lparr>az_id = i, az_handler = handler, az_input = pn_input pending,
       az_context = context\<rparr>)))))))"

definition authorize_pending ::
    "externals \<Rightarrow> env \<Rightarrow> approval_result \<Rightarrow> authorize_invocation_outcome kop" where
  "authorize_pending x env approval =
     (let i = apr_id approval in
      bind_s (gets (\<lambda>k. case bt_get (k_pending k) i of
          Some pending \<Rightarrow> pn_state pending = PreparedForApproval
        | None \<Rightarrow> False)) (\<lambda>prepared.
      if \<not> prepared then fails PreparedInvocationConsumed
      else
      bind_s (case apr_decision approval of
          Some decision \<Rightarrow> record_decision env i decision
        | None \<Rightarrow> ret ()) (\<lambda>_.
      if apr_decision approval = Some DecisionDenied then
        bind_s (modify (remove_pending i)) (\<lambda>_.
        ret (AuthorizeRefused (InvocationRefusedResult RefusedApprovalDenied)))
      else
      bind_s (pending_at i) (\<lambda>pending. (\<lambda>k.
      case revalidate_pending env i pending k of
        (Err error, k') \<Rightarrow>
          bind_s (consume_pending i (finalize_cancelled env (pn_run_id pending) (pn_capability pending)
            (pn_requested_data_scope pending) error)) (\<lambda>result.
          ret (AuthorizeRefused result)) k'
      | (Ok _, k') \<Rightarrow> dispatch_authorized x env i k')))))"

text \<open>Only an authorized invocation disarms the drop of the approval token.\<close>

definition authorize_invocation ::
    "externals \<Rightarrow> env \<Rightarrow> approval_result \<Rightarrow> authorize_invocation_outcome kop" where
  "authorize_invocation x env approval = (\<lambda>k.
     case authorize_pending x env approval k of
       (Ok (Authorized token), k') \<Rightarrow> (Ok (Authorized token), k')
     | (r, k') \<Rightarrow> (r, set_flag (apr_id approval) k'))"

section \<open>Execute, finalize, abort\<close>

definition kernel_execute ::
    "env \<Rightarrow> progress_reporter \<Rightarrow> authorized_invocation \<Rightarrow> kernel \<Rightarrow> executed_invocation \<times> kernel" where
  "kernel_execute env progress token k =
     (let (executed, flags) = execute_with_progress (env_instant env) progress token (k_flags k)
      in (executed, k\<lparr>k_flags := flags\<rparr>))"

definition fail_invocation ::
    "env \<Rightarrow> run_id \<Rightarrow> capability_ref \<Rightarrow> grant \<Rightarrow> data_scope \<Rightarrow> string \<Rightarrow> invocation_result kop" where
  "fail_invocation env run_id capability grant data_scope error =
     bind_s (record_event env (CapabilityFailed run_id capability (gr_grant_id grant) error data_scope)) (\<lambda>_.
     ret (InvocationFailed error))"

definition validate_draft :: "externals \<Rightarrow> kernel \<Rightarrow> app_id \<Rightarrow> artifact_draft \<Rightarrow> unit kernel_result" where
  "validate_draft x k provider draft =
     bind_r (registry_artifact_type (k_registry k) provider (dr_artifact_type draft)) (\<lambda>declared_type.
     validate_against_schema x (dr_content draft) (ty_json_schema declared_type) ViolatesArtifactContent
       (dr_title draft @ '' (type '' @ quoted (dr_artifact_type draft) @ '')''))"

definition stamp_artifact ::
    "datetime \<Rightarrow> string \<Rightarrow> run_id \<Rightarrow> capability_ref \<Rightarrow> grant \<Rightarrow> artifact_draft \<Rightarrow> artifact" where
  "stamp_artifact now uuid run_id capability grant draft =
     \<lparr>at_artifact_id = new_artifact_id uuid, at_artifact_type = dr_artifact_type draft,
      at_title = dr_title draft, at_content = dr_content draft,
      at_provenance = \<lparr>pv_run_id = run_id, pv_capability = capability, pv_grant_id = gr_grant_id grant,
        pv_produced_by = cr_provider capability, pv_recorded_at = now\<rparr>\<rparr>"

definition stamp_all ::
    "env \<Rightarrow> run_id \<Rightarrow> capability_ref \<Rightarrow> grant \<Rightarrow> artifact_draft list \<Rightarrow> artifact list" where
  "stamp_all env run_id capability grant drafts =
     map (\<lambda>(n, draft). stamp_artifact (env_now env) (env_uuid env n) run_id capability grant draft)
       (enumerate 0 drafts)"

definition complete_outcome ::
    "externals \<Rightarrow> env \<Rightarrow> run_id \<Rightarrow> capability_ref \<Rightarrow> grant \<Rightarrow> data_scope \<Rightarrow> json_object option
      \<Rightarrow> capability_outcome \<Rightarrow> invocation_result kop" where
  "complete_outcome x env run_id capability grant data_scope output_schema outcome = (\<lambda>k.
     case (case output_schema of
             None \<Rightarrow> Ok ()
           | Some schema \<Rightarrow> validate_against_schema x (oc_result outcome) schema
               ViolatesCapabilityOutput (qualified_name capability)) of
       Err error \<Rightarrow> fail_invocation env run_id capability grant data_scope (x_error_text x error) k
     | Ok _ \<Rightarrow>
     (case for_each (validate_draft x k (cr_provider capability)) (oc_artifacts outcome) of
       Err error \<Rightarrow> fail_invocation env run_id capability grant data_scope (x_error_text x error) k
     | Ok _ \<Rightarrow>
     (let stored = stamp_all env run_id capability grant (oc_artifacts outcome) in
      bind_s (lift_k (\<lambda>_. payload_sha256 x (oc_result outcome))) (\<lambda>result_sha256.
      bind_s (commit_completion env
        (map (\<lambda>a. ArtifactProduced run_id (at_artifact_id a) (at_artifact_type a)) stored @
         [CapabilityCompleted run_id capability (gr_grant_id grant) result_sha256 data_scope]) stored) (\<lambda>_.
      ret (InvocationCompleted (oc_result outcome) stored))) k)))"

definition finalize_result ::
    "externals \<Rightarrow> env \<Rightarrow> pending_invocation \<Rightarrow> executed_invocation \<Rightarrow> invocation_result kop" where
  "finalize_result x env pending executed =
     (if ex_cancelled_before_dispatch executed then
        finalize_cancelled env (pn_run_id pending) (pn_capability pending)
          (pn_requested_data_scope pending) (Failed PreparedInvocationCancelled)
      else case ex_panic executed of
        Some error \<Rightarrow> fail_invocation env (pn_run_id pending) (pn_capability pending)
          (pn_grant pending) (pn_requested_data_scope pending) error
      | None \<Rightarrow>
     (case ex_outcome executed of
        None \<Rightarrow> fail (Panicked ''authorized execution always returns an outcome'')
      | Some (Ok outcome) \<Rightarrow> complete_outcome x env (pn_run_id pending) (pn_capability pending)
          (pn_grant pending) (pn_requested_data_scope pending) (pn_output_schema pending) outcome
      | Some (Err error) \<Rightarrow> fail_invocation env (pn_run_id pending) (pn_capability pending)
          (pn_grant pending) (pn_requested_data_scope pending) error))"

definition finalize_invocation :: "externals \<Rightarrow> env \<Rightarrow> executed_invocation \<Rightarrow> invocation_result kop" where
  "finalize_invocation x env executed =
     (let i = ex_id executed in
      bind_s (gets (\<lambda>k. case bt_get (k_pending k) i of
          Some pending \<Rightarrow> pn_state pending = AuthorizedForExecution
        | None \<Rightarrow> False)) (\<lambda>authorized.
      if \<not> authorized then fails PreparedInvocationConsumed
      else
      bind_s (pending_at i) (\<lambda>pending. (\<lambda>k.
      case revalidate_pending env i pending k of
        (Err error, k') \<Rightarrow>
          consume_pending i (finalize_cancelled env (pn_run_id pending) (pn_capability pending)
            (pn_requested_data_scope pending) error) k'
      | (Ok _, k') \<Rightarrow> consume_pending i (finalize_result x env pending executed) k'))))"

definition abort_pending :: "env \<Rightarrow> u64 \<Rightarrow> invocation_result kop" where
  "abort_pending env i =
     bind_s (lift_k (\<lambda>k. ok_or PreparedInvocationConsumed (bt_get (k_pending k) i))) (\<lambda>pending.
     bind_s (record_event env (cancellation_event pending)) (\<lambda>_.
     bind_s (modify (remove_pending i)) (\<lambda>_.
     ret (InvocationRefusedResult RefusedCancelled))))"

text \<open>The consumed tokens are dropped armed, so the flag is set on every path.\<close>

definition abort_prepared_invocation :: "env \<Rightarrow> prepared_invocation \<Rightarrow> invocation_result kop" where
  "abort_prepared_invocation env token = (\<lambda>k.
     let (r, k') = abort_pending env (pi_id token) k in (r, set_flag (pi_id token) k'))"

definition abort_authorized_invocation :: "env \<Rightarrow> authorized_invocation \<Rightarrow> invocation_result kop" where
  "abort_authorized_invocation env token = (\<lambda>k.
     let (r, k') = abort_pending env (az_id token) k in (r, set_flag (az_id token) k'))"

definition drop_token :: "u64 \<Rightarrow> kernel \<Rightarrow> kernel" where
  "drop_token i k = set_flag i k"

end
