(* ===== verification/Kernel_Recovery.thy ===== *)
theory Kernel_Recovery
  imports Kernel_Install Kernel_Invoke
begin

text \<open>
  Construction of a kernel from its durable store in \<open>kernel.rs\<close>: each service is restored, the
  parts are checked against each other, and runs that were active are interrupted.
\<close>

type_synonym produced_index = "(artifact_id, nat \<times> run_id \<times> artifact_type_name) btree_map"

definition index_production :: "produced_index \<Rightarrow> nat \<times> ledger_record \<Rightarrow> produced_index kernel_result" where
  "index_production produced indexed =
     (let (index, entry) = indexed in
      case lr_event entry of
        ArtifactProduced run_id artifact_id artifact_type \<Rightarrow>
          if bt_contains produced artifact_id then
            Err (Durability (''duplicate artifact production record '' @ quoted artifact_id))
          else Ok (bt_insert artifact_id (index, run_id, artifact_type) produced)
      | _ \<Rightarrow> Ok produced)"

fun is_production :: "ledger_event \<Rightarrow> bool" where
  "is_production (ArtifactProduced _ _ _) = True"
| "is_production _ = False"

definition completes_artifact :: "run_id \<Rightarrow> artifact \<Rightarrow> grant \<Rightarrow> ledger_record \<Rightarrow> bool" where
  "completes_artifact run_id a grant entry = (case lr_event entry of
       CapabilityCompleted completed_run capability grant_id _ data_scope \<Rightarrow>
         completed_run = run_id \<and> capability = pv_capability (at_provenance a)
         \<and> grant_id = pv_grant_id (at_provenance a) \<and> ds_covers (gr_data_scope grant) data_scope
     | _ \<Rightarrow> False)"

definition validate_recovered_artifact ::
    "kernel \<Rightarrow> produced_index \<Rightarrow> (grant_id, grant) btree_map \<Rightarrow> artifact \<Rightarrow> unit kernel_result" where
  "validate_recovered_artifact k produced grants a =
     (let name = ''artifact '' @ quoted (at_artifact_id a); provenance = at_provenance a in
      case bt_get produced (at_artifact_id a) of
        None \<Rightarrow> Err (Durability (name @ '' has no production record''))
      | Some (produced_at, run_id, artifact_type) \<Rightarrow>
          if run_id \<noteq> pv_run_id provenance \<or> artifact_type \<noteq> at_artifact_type a then
            Err (Durability (name @ '' provenance disagrees with its ledger record''))
          else if pv_produced_by provenance \<noteq> cr_provider (pv_capability provenance) then
            Err (Durability (name @ '' producer disagrees with its capability provider''))
          else
          bind_r (ok_or (Durability (name @ '' references unknown grant '' @ quoted (pv_grant_id provenance)))
            (bt_get grants (pv_grant_id provenance))) (\<lambda>grant.
          bind_r (ledger_run_view (k_ledger k) run_id) (\<lambda>run.
          if gr_holder grant \<noteq> initiating_app run \<or> \<not> scope_covers (gr_scope grant) (pv_capability provenance) then
            Err (Durability (name @ '' grant does not cover its run and capability''))
          else
            let completion = List.find (\<lambda>entry. \<not> is_production (lr_event entry))
                  (drop (produced_at + 1) (lg_records (k_ledger k)))
            in if (case completion of None \<Rightarrow> False | Some entry \<Rightarrow> completes_artifact run_id a grant entry)
               then Ok ()
               else Err (Durability (name @ '' has no matching completion record'')))))"

definition validate_recovered_grant :: "kernel \<Rightarrow> grant_id btree_set \<Rightarrow> grant \<Rightarrow> unit kernel_result" where
  "validate_recovered_grant k revoked grant =
     (let name = ''live grant '' @ quoted (gr_grant_id grant) in
      if bt_contains revoked (gr_grant_id grant) then Ok ()
      else
      bind_r (map_err (\<lambda>_. Durability (name @ '' has no installed holder''))
        (registry_app (k_registry k) (gr_holder grant))) (\<lambda>_.
      bind_r (map_err (\<lambda>_. Durability (name @ '' has no installed provider''))
        (registry_app (k_registry k) (scope_provider (gr_scope grant)))) (\<lambda>_.
      Ok ())))"

definition validate_recovered_state :: "kernel \<Rightarrow> unit kernel_result" where
  "validate_recovered_state k =
     (let grants = bt_of_list (map (\<lambda>grant. (gr_grant_id grant, grant)) (durable_grants (k_broker k))) in
      bind_r (try_fold index_production bt_empty (enumerate 0 (lg_records (k_ledger k)))) (\<lambda>produced.
      if length (bt_entries produced) \<noteq> length (artifact_all (k_artifacts k)) then
        Err (Durability ''artifact records and durable artifacts differ'')
      else
      bind_r (for_each (validate_recovered_artifact k produced grants) (artifact_all (k_artifacts k))) (\<lambda>_.
      for_each (validate_recovered_grant k (bs_of_list (durable_revocations (k_broker k))))
        (durable_grants (k_broker k)))))"

definition interrupt_active_runs :: "env \<Rightarrow> unit kop" where
  "interrupt_active_runs env =
     bind_s (gets (\<lambda>k. active_run_ids (k_ledger k))) (\<lambda>active.
     if active = [] then ret ()
     else
     bind_s (lift_k (\<lambda>k. incomplete_invocation_cancellations (k_ledger k))) (\<lambda>events.
     record_batch env (events @ map (\<lambda>run_id. RunEnded run_id RunInterrupted) active)))"

definition restore_services :: "externals \<Rightarrow> env \<Rightarrow> durable_kernel_state \<Rightarrow> unit kop" where
  "restore_services x env state =
     bind_s (lift_k (\<lambda>_. registry_restore x (du_installed_apps state))) (\<lambda>registry.
     bind_s (lift_k (\<lambda>_. ledger_restore (env_now env) (du_ledger_records state))) (\<lambda>ledger.
     bind_s (lift_k (\<lambda>_. broker_restore (du_grants state) (du_revoked_grant_ids state))) (\<lambda>broker.
     bind_s (lift_k (\<lambda>_. artifact_restore (du_artifacts state))) (\<lambda>artifacts.
     bind_s (modify (\<lambda>k. k\<lparr>k_registry := registry, k_ledger := ledger, k_broker := broker,
       k_artifacts := artifacts\<rparr>)) (\<lambda>_.
     bind_s (lift_k (\<lambda>k. for_each (\<lambda>manifest. validate_grant_requests k manifest Tolerate)
       (map ia_manifest (installed_apps (k_registry k))))) (\<lambda>_.
     bind_s (lift_k validate_recovered_state) (\<lambda>_.
     interrupt_active_runs env)))))))"

text \<open>
  The kernel under construction is the state, so that what the store holds after a failed start
  is visible too. \<open>loaded\<close> is the answer of \<open>KernelStateStore::load\<close>.
\<close>

definition with_clock_and_state_store ::
    "externals \<Rightarrow> env \<Rightarrow> trusted_chrome \<Rightarrow> cancel_flags \<Rightarrow> u64
      \<Rightarrow> (durable_kernel_state option, string) result \<Rightarrow> (unit, failure) result \<times> kernel" where
  "with_clock_and_state_store x env chrome flags next_id loaded =
     (case loaded of
        Err message \<Rightarrow> (Err (Failed (Durability message)), with_clock chrome flags next_id)
      | Ok state \<Rightarrow>
          let k = (with_clock chrome flags next_id)\<lparr>k_store := Some state\<rparr>
          in (case state of
                None \<Rightarrow> (Ok (), k)
              | Some state \<Rightarrow> restore_services x env state k))"

end
