(* ===== verification/Kernel_Inv.thy ===== *)
theory Kernel_Inv
  imports Kernel_Recovery
begin

text \<open>
  The invariant of the kernel and the lemmas by which every operation keeps it. Besides the
  invariants of the services it says how they fit together: active runs belong to installed
  apps, unrevoked grants have an installed holder and provider, handlers are bound exactly to
  the declared capabilities, a pending invocation belongs to an active run of the acting app,
  and the store holds the projection of the services unless recovery is required.
\<close>

section \<open>Committing and recording\<close>

definition durable_of :: "kernel \<Rightarrow> durable_kernel_state" where
  "durable_of k = durable_of_parts (k_registry k) (k_ledger k) (k_broker k) (k_artifacts k)"

text \<open>How a refused commit may have changed the kernel: not at all in its services.\<close>

definition failed_commit :: "kernel \<Rightarrow> kernel \<Rightarrow> bool" where
  "failed_commit k k' \<longleftrightarrow> k' = k \<or>
     (\<exists>s. \<not> k_recovery_required k \<and> k_store k \<noteq> None \<and>
       k' = k\<lparr>k_recovery_required := True, k_store := Some s\<rparr>)"

definition stored :: "kernel \<Rightarrow> durable_kernel_state \<Rightarrow> durable_kernel_state option option" where
  "stored k state = (if k_store k = None then None else Some (Some state))"

lemma failed_commit_refl [simp]: "failed_commit k k"
  by (simp add: failed_commit_def)

lemma wp_lift_k [wp_simps]:
  "wp (lift_k f) Q E = (\<lambda>k. case f k of Ok a \<Rightarrow> Q a k | Err e \<Rightarrow> E (Failed e) k)"
  by (auto simp: fun_eq_iff lift_k_def wp_def split: result.splits)

lemma wp_lift_panic [wp_simps]:
  "wp (lift_panic f) Q E = (\<lambda>k. case f k of Ok a \<Rightarrow> Q a k | Err s \<Rightarrow> E (Panicked s) k)"
  by (auto simp: fun_eq_iff lift_panic_def wp_def split: result.splits)

lemma wp_gets [wp_simps]: "wp (gets f) Q E = (\<lambda>k. Q (f k) k)"
  by (simp add: fun_eq_iff gets_def wp_def)

lemma wp_fails [wp_simps]: "wp (fails e) Q E = E (Failed e)"
  by (simp add: fails_def wp_simps)

lemma wp_commit_parts:
  assumes "\<not> k_recovery_required k \<Longrightarrow> Q () (k\<lparr>k_store := stored k (durable_of_parts r l b a)\<rparr>)"
    and "\<And>m k'. failed_commit k k' \<Longrightarrow> E (Failed (Durability m)) k'"
  shows "wp (commit_parts env r l b a) Q E k"
proof (cases "k_recovery_required k")
  case True
  then show ?thesis using assms(2) by (simp add: commit_parts_def wp_def)
next
  case False
  show ?thesis
  proof (cases "k_store k")
    case None
    then have "k\<lparr>k_store := stored k (durable_of_parts r l b a)\<rparr> = k" by (simp add: stored_def)
    with False None assms(1) show ?thesis by (simp add: commit_parts_def wp_def)
  next
    case (Some c)
    with False assms show ?thesis
      by (auto simp: commit_parts_def wp_def Let_def stored_def failed_commit_def
          split: commit_outcome.splits)
  qed
qed

lemma wp_commit_state:
  assumes "\<not> k_recovery_required k \<Longrightarrow> Q () (k\<lparr>k_store := stored k (durable_of_parts (fr k) l b (fa k))\<rparr>)"
    and "\<And>m k'. failed_commit k k' \<Longrightarrow> E (Failed (Durability m)) k'"
  shows "wp (\<lambda>k. commit_parts env (fr k) l b (fa k) k) Q E k"
  using wp_commit_parts[of k Q "fr k" l b "fa k" E env] assms by (simp add: wp_def)

lemma wp_commit_state_of [intro?]:
  assumes "\<not> k_recovery_required k \<Longrightarrow> Q () (k\<lparr>k_store := stored k (durable_of_parts (fr k) (fl k) (fb k) (fa k))\<rparr>)"
    and "\<And>m k'. failed_commit k k' \<Longrightarrow> E (Failed (Durability m)) k'"
  shows "wp (\<lambda>k. commit_parts env (fr k) (fl k) (fb k) (fa k) k) Q E k"
  using wp_commit_parts[of k Q "fr k" "fl k" "fb k" "fa k" E env] assms by (simp add: wp_def)

lemma wp_record_event:
  assumes ok: "\<And>view r ledger. event_view k ev = Ok view \<Longrightarrow>
      ledger_append (env_now env) (k_ledger k) ev = Ok (r, ledger) \<Longrightarrow> \<not> k_recovery_required k \<Longrightarrow>
      Q r (k\<lparr>k_store := stored k (durable_of_parts (k_registry k) ledger (k_broker k) (k_artifacts k)),
             k_ledger := ledger, k_router := publish (k_router k) view (k_registry k)\<rparr>)"
    and err: "\<And>e k'. failed_commit k k' \<Longrightarrow> E (Failed e) k'"
  shows "wp (record_event env ev) Q E k"
  unfolding record_event_def wp_simps
  by (auto simp: err split!: result.splits prod.splits intro!: wp_commit_state_of ok simp: wp_simps)

lemma wp_record_batch:
  assumes ok: "\<And>views rs ledger. try_map (event_view k) evs = Ok views \<Longrightarrow>
      append_batch (env_now env) (k_ledger k) evs = Ok (rs, ledger) \<Longrightarrow> \<not> k_recovery_required k \<Longrightarrow>
      Q () (k\<lparr>k_store := stored k (durable_of_parts (k_registry k) ledger (k_broker k) (k_artifacts k)),
             k_ledger := ledger, k_router := publish_batch (k_router k) views (k_registry k)\<rparr>)"
    and err: "\<And>e k'. failed_commit k k' \<Longrightarrow> E (Failed e) k'"
  shows "wp (record_batch env evs) Q E k"
  unfolding record_batch_def wp_simps
  by (auto simp: err split!: result.splits prod.splits intro!: wp_commit_state_of ok simp: wp_simps)

lemma wp_commit_completion:
  assumes ok: "\<And>views rs ledger. try_map (event_view k) evs = Ok views \<Longrightarrow>
      append_batch (env_now env) (k_ledger k) evs = Ok (rs, ledger) \<Longrightarrow> \<not> k_recovery_required k \<Longrightarrow>
      Q () (k\<lparr>k_store := stored k (durable_of_parts (k_registry k) ledger (k_broker k) (put_all (k_artifacts k) produced)),
             k_ledger := ledger, k_artifacts := put_all (k_artifacts k) produced,
             k_router := publish_batch (k_router k) views (k_registry k)\<rparr>)"
    and err: "\<And>e k'. failed_commit k k' \<Longrightarrow> E (Failed e) k'"
  shows "wp (commit_completion env evs produced) Q E k"
  unfolding commit_completion_def wp_simps
  by (auto simp: err split!: result.splits prod.splits intro!: wp_commit_state_of ok simp: wp_simps)

section \<open>The index after an append\<close>

definition plain :: "ledger_event \<Rightarrow> bool" where
  "plain event \<longleftrightarrow> \<not> is_start event \<and> \<not> is_end event"

lemma ledger_step_entry:
  assumes "ledger_step runs event = Ok runs'" "\<not> is_start event"
  shows "bt_get runs' r =
    map_option (\<lambda>s. if is_end event \<and> ev_run_id event = r then s\<lparr>ri_active := False\<rparr> else s) (bt_get runs r)"
  using assms
  by (cases event) (auto simp: ledger_step_Ok_iff bt_get_index_event map_option.id[unfolded id_def])

lemma fold_entry:
  "try_fold ledger_step runs events = Ok runs' \<Longrightarrow> \<forall>e\<in>set events. \<not> is_start e \<Longrightarrow>
     bt_get runs' r =
       map_option (\<lambda>s. if \<exists>e\<in>set events. is_end e \<and> ev_run_id e = r then s\<lparr>ri_active := False\<rparr> else s)
         (bt_get runs r)"
proof (induction events arbitrary: runs)
  case (Cons e es)
  then obtain mid where "ledger_step runs e = Ok mid" "try_fold ledger_step mid es = Ok runs'"
    by (auto simp: bind_r_Ok_iff)
  with Cons ledger_step_entry[of runs e mid r] show ?case
    by (cases "bt_get runs r") auto
qed (simp add: map_option.id[unfolded id_def])

lemma append_batch_fold: "append_batch now l events = Ok (rs, l') \<Longrightarrow> try_fold ledger_step (lg_runs l) events = Ok (lg_runs l')"
  by (rule append_all_runs[OF append_batch_Ok])

lemma append_batch_entry:
  assumes "append_batch now l events = Ok (rs, l')" "\<forall>e\<in>set events. \<not> is_start e"
  shows "bt_get (lg_runs l') r =
    map_option (\<lambda>s. if \<exists>e\<in>set events. is_end e \<and> ev_run_id e = r then s\<lparr>ri_active := False\<rparr> else s)
      (bt_get (lg_runs l) r)"
  by (rule fold_entry[OF append_batch_fold[OF assms(1)] assms(2)])

lemma append_batch_plain:
  assumes "append_batch now l events = Ok (rs, l')" "\<forall>e\<in>set events. plain e"
  shows "lg_runs l' = lg_runs l"
proof (rule bt_ext)
  fix r
  have "\<not> (\<exists>e\<in>set events. is_end e \<and> ev_run_id e = r)"
    using assms(2) by (auto simp: plain_def)
  then show "bt_get (lg_runs l') r = bt_get (lg_runs l) r"
    using append_batch_entry[OF assms(1), of r] assms(2)
    by (simp add: plain_def map_option.id[unfolded id_def])
qed

lemma ledger_append_plain:
  assumes "ledger_append now l event = Ok (r, l')" "plain event"
  shows "lg_runs l' = lg_runs l"
  using assms by (cases event) (auto simp: ledger_append_Ok_iff index_event_def plain_def)

lemma ledger_append_start:
  assumes "ledger_append now l (RunStarted r i g) = Ok (entry, l')"
  shows "lg_runs l' = bt_insert r \<lparr>ri_initiating_app = initiator_app_id i, ri_active = True\<rparr> (lg_runs l)"
    "bt_get (lg_runs l) r = None"
  using assms by (auto simp: ledger_append_Ok_iff index_event_def validate_append_Ok_iff)

section \<open>The invariant\<close>

definition runs_ok :: "registry \<Rightarrow> run_index \<Rightarrow> bool" where
  "runs_ok reg runs \<longleftrightarrow> (\<forall>r s. bt_get runs r = Some s \<longrightarrow> ri_active s \<longrightarrow>
     bt_contains (rg_apps reg) (ri_initiating_app s))"

definition grants_ok :: "registry \<Rightarrow> broker \<Rightarrow> bool" where
  "grants_ok reg b \<longleftrightarrow> (\<forall>i g. bt_get (br_grants b) i = Some g \<longrightarrow> \<not> bt_contains (br_revoked b) i \<longrightarrow>
     bt_contains (rg_apps reg) (gr_holder g) \<and> bt_contains (rg_apps reg) (scope_provider (gr_scope g)))"

definition handlers_ok :: "registry \<Rightarrow> (app_id, handler_table) btree_map \<Rightarrow> bool" where
  "handlers_ok reg handlers \<longleftrightarrow> (\<forall>a t. bt_get handlers a = Some t \<longrightarrow>
     (\<exists>app. bt_get (rg_apps reg) a = Some app \<and> set (bt_keys t) = cd_name ` set (mf_capabilities (ia_manifest app))))"

definition pending_fits :: "registry \<Rightarrow> run_index \<Rightarrow> pending_invocation \<Rightarrow> bool" where
  "pending_fits reg runs p \<longleftrightarrow>
     (\<exists>s. bt_get runs (pn_run_id p) = Some s \<and> ri_active s \<and> ri_initiating_app s = pn_acting_app p) \<and>
     bt_contains (rg_apps reg) (cr_provider (pn_capability p)) \<and>
     ds_validate_invocation (pn_requested_data_scope p) = Ok () \<and>
     covers_request (pn_acting_app p) (pn_capability p) (pn_requested_data_scope p) (pn_grant p)"

definition pending_ok :: "registry \<Rightarrow> run_index \<Rightarrow> (u64, pending_invocation) btree_map \<Rightarrow> bool" where
  "pending_ok reg runs pending \<longleftrightarrow> (\<forall>i p. bt_get pending i = Some p \<longrightarrow> pending_fits reg runs p)"

text \<open>Two durable states that load the same services: only the order of their sets may differ.\<close>

definition same_state :: "durable_kernel_state \<Rightarrow> durable_kernel_state \<Rightarrow> bool" where
  "same_state c s \<longleftrightarrow>
     set (du_installed_apps c) = set (du_installed_apps s) \<and> set (du_grants c) = set (du_grants s) \<and>
     set (du_revoked_grant_ids c) = set (du_revoked_grant_ids s) \<and>
     du_ledger_records c = du_ledger_records s \<and> set (du_artifacts c) = set (du_artifacts s)"

lemma same_state_refl [simp]: "same_state c c"
  by (simp add: same_state_def)

definition coherent :: "durable_kernel_state option option \<Rightarrow> bool \<Rightarrow> durable_kernel_state \<Rightarrow> bool" where
  "coherent store recovery state \<longleftrightarrow>
     (case store of None \<Rightarrow> True
      | Some content \<Rightarrow> recovery \<or>
          (case content of None \<Rightarrow> state = durable_empty | Some c \<Rightarrow> same_state c state))"

definition kernel_inv :: "externals \<Rightarrow> kernel \<Rightarrow> bool" where
  "kernel_inv x k \<longleftrightarrow>
     registry_inv x (k_registry k) \<and> ledger_inv (k_ledger k) \<and> broker_inv (k_broker k) \<and>
     artifacts_inv (k_artifacts k) \<and> leases_inv (k_leases k) \<and> inboxes_bounded (k_router k) \<and>
     open_declared (k_registry k) (k_surfaces k) \<and>
     runs_ok (k_registry k) (lg_runs (k_ledger k)) \<and> grants_ok (k_registry k) (k_broker k) \<and>
     handlers_ok (k_registry k) (k_handlers k) \<and>
     pending_ok (k_registry k) (lg_runs (k_ledger k)) (k_pending k) \<and>
     coherent (k_store k) (k_recovery_required k) (durable_of k)"

lemma kernel_invI:
  assumes "registry_inv x (k_registry k)" "ledger_inv (k_ledger k)" "broker_inv (k_broker k)"
    "artifacts_inv (k_artifacts k)" "leases_inv (k_leases k)" "inboxes_bounded (k_router k)"
    "open_declared (k_registry k) (k_surfaces k)" "runs_ok (k_registry k) (lg_runs (k_ledger k))"
    "grants_ok (k_registry k) (k_broker k)" "handlers_ok (k_registry k) (k_handlers k)"
    "pending_ok (k_registry k) (lg_runs (k_ledger k)) (k_pending k)"
    "coherent (k_store k) (k_recovery_required k) (durable_of k)"
  shows "kernel_inv x k"
  using assms by (simp add: kernel_inv_def)

lemma kernel_invD:
  assumes "kernel_inv x k"
  shows "registry_inv x (k_registry k)" "ledger_inv (k_ledger k)" "broker_inv (k_broker k)"
    "artifacts_inv (k_artifacts k)" "leases_inv (k_leases k)" "inboxes_bounded (k_router k)"
    "open_declared (k_registry k) (k_surfaces k)" "runs_ok (k_registry k) (lg_runs (k_ledger k))"
    "grants_ok (k_registry k) (k_broker k)" "handlers_ok (k_registry k) (k_handlers k)"
    "pending_ok (k_registry k) (lg_runs (k_ledger k)) (k_pending k)"
    "coherent (k_store k) (k_recovery_required k) (durable_of k)"
  using assms by (simp_all add: kernel_inv_def)

lemma coherent_stored: "coherent (stored k state) r state"
  by (simp add: coherent_def stored_def)

lemma failed_commit_inv: "kernel_inv x k \<Longrightarrow> failed_commit k k' \<Longrightarrow> kernel_inv x k'"
  by (auto simp: failed_commit_def kernel_inv_def coherent_def durable_of_def)

lemma durable_of_frame [simp]:
  "durable_of (k\<lparr>k_surfaces := s\<rparr>) = durable_of k" "durable_of (k\<lparr>k_router := ro\<rparr>) = durable_of k"
  "durable_of (k\<lparr>k_leases := le\<rparr>) = durable_of k" "durable_of (k\<lparr>k_handlers := h\<rparr>) = durable_of k"
  "durable_of (k\<lparr>k_pending := p\<rparr>) = durable_of k" "durable_of (k\<lparr>k_flags := f\<rparr>) = durable_of k"
  "durable_of (k\<lparr>k_notices := n\<rparr>) = durable_of k" "durable_of (k\<lparr>k_next_invocation_id := i\<rparr>) = durable_of k"
  "durable_of (k\<lparr>k_store := st\<rparr>) = durable_of k" "durable_of (k\<lparr>k_recovery_required := rr\<rparr>) = durable_of k"
  by (simp_all add: durable_of_def)

lemma durable_secrets [simp]: "durable_of (k\<lparr>k_broker := (k_broker k)\<lparr>br_secrets := s\<rparr>\<rparr>) = durable_of k"
  by (simp add: durable_of_def durable_of_parts_def durable_grants_def durable_revocations_def)

lemma grants_ok_secrets [simp]: "grants_ok reg (b\<lparr>br_secrets := s\<rparr>) = grants_ok reg b"
  by (simp add: grants_ok_def)

lemma kernel_inv_frame [simp]:
  "kernel_inv x (k\<lparr>k_flags := f\<rparr>) = kernel_inv x k"
  "kernel_inv x (k\<lparr>k_notices := n\<rparr>) = kernel_inv x k"
  "kernel_inv x (k\<lparr>k_next_invocation_id := i\<rparr>) = kernel_inv x k"
  by (simp_all add: kernel_inv_def)

section \<open>Events that neither start nor end a run\<close>

lemma record_plain_inv:
  assumes "kernel_inv x k" "plain ev" "ledger_append now (k_ledger k) ev = Ok (r, ledger)"
  shows "kernel_inv x (k\<lparr>k_store := stored k (durable_of_parts (k_registry k) ledger (k_broker k) (k_artifacts k)),
             k_ledger := ledger, k_router := publish (k_router k) view (k_registry k)\<rparr>)"
  using kernel_invD[OF assms(1)] ledger_append_inv[OF _ assms(3)] ledger_append_plain[OF assms(3,2)]
  by (intro kernel_invI) (auto simp: coherent_stored durable_of_def intro: publish_bounded)

lemma wp_record_plain:
  assumes "kernel_inv x k" "plain ev"
    and "\<And>r k'. kernel_inv x k' \<Longrightarrow> k_pending k' = k_pending k \<Longrightarrow> k_registry k' = k_registry k \<Longrightarrow>
      k_broker k' = k_broker k \<Longrightarrow> k_handlers k' = k_handlers k \<Longrightarrow> lg_runs (k_ledger k') = lg_runs (k_ledger k) \<Longrightarrow>
      k_flags k' = k_flags k \<Longrightarrow> k_next_invocation_id k' = k_next_invocation_id k \<Longrightarrow> Q r k'"
    and "\<And>e k'. failed_commit k k' \<Longrightarrow> kernel_inv x k' \<Longrightarrow> E (Failed e) k'"
  shows "wp (record_event env ev) Q E k"
proof (rule wp_record_event)
  fix view r ledger
  assume a: "ledger_append (env_now env) (k_ledger k) ev = Ok (r, ledger)"
  show "Q r (k\<lparr>k_store := stored k (durable_of_parts (k_registry k) ledger (k_broker k) (k_artifacts k)),
      k_ledger := ledger, k_router := publish (k_router k) view (k_registry k)\<rparr>)"
    by (rule assms(3)[OF record_plain_inv[OF assms(1,2) a]])
      (simp_all add: ledger_append_plain[OF a assms(2)])
qed (simp add: assms(4) failed_commit_inv[OF assms(1)])

lemma record_batch_plain_inv:
  assumes "kernel_inv x k" "\<forall>e\<in>set evs. plain e" "append_batch now (k_ledger k) evs = Ok (rs, ledger)"
  shows "kernel_inv x (k\<lparr>k_store := stored k (durable_of_parts (k_registry k) ledger (k_broker k) (k_artifacts k)),
             k_ledger := ledger, k_router := publish_batch (k_router k) views (k_registry k)\<rparr>)"
  using kernel_invD[OF assms(1)] append_batch_inv[OF _ assms(3)] append_batch_plain[OF assms(3,2)]
  by (intro kernel_invI) (auto simp: coherent_stored durable_of_def intro: publish_batch_bounded)

lemma completion_inv:
  assumes "kernel_inv x k" "\<forall>e\<in>set evs. plain e" "append_batch now (k_ledger k) evs = Ok (rs, ledger)"
  shows "kernel_inv x (k\<lparr>k_store := stored k (durable_of_parts (k_registry k) ledger (k_broker k) (put_all (k_artifacts k) produced)),
             k_ledger := ledger, k_artifacts := put_all (k_artifacts k) produced,
             k_router := publish_batch (k_router k) views (k_registry k)\<rparr>)"
  using kernel_invD[OF assms(1)] append_batch_inv[OF _ assms(3)] append_batch_plain[OF assms(3,2)]
  by (intro kernel_invI) (auto simp: coherent_stored durable_of_def intro: publish_batch_bounded put_all_inv)

end
