(* ===== verification/Kernel_Keeps.thy ===== *)
theory Kernel_Keeps
  imports Kernel_Inv
begin

text \<open>
  Every operation of the kernel keeps the invariant, on success and on every error path, and
  none of them panics from a state that satisfies it.
\<close>

abbreviation maintains :: "externals \<Rightarrow> 'a kop \<Rightarrow> bool" where
  "maintains x m \<equiv> (\<forall>k. kernel_inv x k \<longrightarrow> wp m (\<lambda>_. kernel_inv x) (\<lambda>e k'. kernel_inv x k' \<and> (\<exists>err. e = Failed err)) k)"

lemma maintainsI:
  "(\<And>k. kernel_inv x k \<Longrightarrow> wp m (\<lambda>_. kernel_inv x) (\<lambda>e k'. kernel_inv x k' \<and> (\<exists>err. e = Failed err)) k) \<Longrightarrow> maintains x m"
  by blast

section \<open>Pending invocations\<close>

lemma kernel_inv_pending_subset:
  assumes "kernel_inv x k" "\<And>i p. bt_get pending i = Some p \<Longrightarrow> bt_get (k_pending k) i = Some p"
  shows "kernel_inv x (k\<lparr>k_pending := pending\<rparr>)"
  using assms by (auto simp: kernel_inv_def pending_ok_def)

lemma get_remove_pending [simp]:
  "bt_get (k_pending (remove_pending i k)) j = (if j = i then None else bt_get (k_pending k) j)"
  by (simp add: remove_pending_def bt_get_remove)

lemma remove_pending_inv [simp, intro]: "kernel_inv x k \<Longrightarrow> kernel_inv x (remove_pending i k)"
  unfolding remove_pending_def by (rule kernel_inv_pending_subset) (auto simp: bt_get_remove split: if_splits)

lemma set_flag_inv [simp]: "kernel_inv x (set_flag i k) = kernel_inv x k"
  by (simp add: set_flag_def)

lemma require_recovery_inv [simp, intro]:
  "kernel_inv x k \<Longrightarrow> kernel_inv x (require_recovery_after_consumed_transition k)"
  by (auto simp: require_recovery_after_consumed_transition_def kernel_inv_def coherent_def)

lemma remove_all_pending_inv:
  "kernel_inv x k \<Longrightarrow> kernel_inv x (foldl (\<lambda>k (i, _). remove_pending i k) k es)"
  by (induction es arbitrary: k) auto

lemma cancellation_event_plain [simp]: "plain (cancellation_event p)"
  by (simp add: cancellation_event_def plain_def)

lemma reap_frame: "foldl (\<lambda>k (i, _). remove_pending i k) k es = k\<lparr>k_pending := foldl (\<lambda>m (i, _). bt_remove i m) (k_pending k) es\<rparr>"
  by (induction es arbitrary: k) (auto simp: remove_pending_def split_def)

lemma wp_reap:
  assumes "kernel_inv x k"
    and "\<And>k'. kernel_inv x k' \<Longrightarrow> k_registry k' = k_registry k \<Longrightarrow> k_broker k' = k_broker k \<Longrightarrow>
      k_handlers k' = k_handlers k \<Longrightarrow> lg_runs (k_ledger k') = lg_runs (k_ledger k) \<Longrightarrow> Q () k'"
    and "\<And>e k'. kernel_inv x k' \<Longrightarrow> E (Failed e) k'"
  shows "wp (reap_cancelled_pending env) Q E k"
proof -
  let ?c = "filter (\<lambda>(i, pending). k_flags k i \<or> env_instant env \<ge> pn_deadline pending) (bt_entries (k_pending k))"
  let ?evs = "map (\<lambda>(_, pending). cancellation_event pending) ?c"
  have plain: "\<forall>e\<in>set ?evs. plain e" by auto
  have "wp (record_batch env ?evs) (\<lambda>_ k. Q () (foldl (\<lambda>k (i, _). remove_pending i k) k ?c)) E k"
  proof (rule wp_record_batch)
    fix views rs ledger
    assume b: "append_batch (env_now env) (k_ledger k) ?evs = Ok (rs, ledger)"
    let ?k = "k\<lparr>k_store := stored k (durable_of_parts (k_registry k) ledger (k_broker k) (k_artifacts k)),
      k_ledger := ledger, k_router := publish_batch (k_router k) views (k_registry k)\<rparr>"
    have "kernel_inv x ?k" by (rule record_batch_plain_inv[OF assms(1) plain b])
    then show "Q () (foldl (\<lambda>k (i, _). remove_pending i k) ?k ?c)"
      by (intro assms(2) remove_all_pending_inv)
        (simp_all add: reap_frame append_batch_plain[OF b plain])
  qed (intro assms(3) failed_commit_inv[OF assms(1)])
  then show ?thesis
    using assms by (auto simp: reap_cancelled_pending_def wp_simps)
qed

section \<open>Runs\<close>

lemma record_start_inv:
  assumes inv: "kernel_inv x k" and app: "bt_get (rg_apps (k_registry k)) (initiator_app_id i) = Some app"
    and a: "ledger_append now (k_ledger k) (RunStarted r i g) = Ok (e, ledger)"
  shows "kernel_inv x (k\<lparr>k_store := stored k (durable_of_parts (k_registry k) ledger (k_broker k) (k_artifacts k)),
             k_ledger := ledger, k_router := publish (k_router k) view (k_registry k)\<rparr>)"
proof -
  note D = kernel_invD[OF inv] and L = ledger_append_start[OF a]
  have runs: "runs_ok (k_registry k) (lg_runs ledger)"
    using D(8) app by (auto simp: runs_ok_def L bt_get_insert bt_contains_iff split: if_splits)
  have "pending_fits (k_registry k) (lg_runs (k_ledger k)) p \<Longrightarrow>
      pending_fits (k_registry k) (lg_runs ledger) p" for p
    using L(2) by (auto simp: pending_fits_def L(1) bt_get_insert)
  then have "pending_ok (k_registry k) (lg_runs ledger) (k_pending k)"
    using D(11) by (auto simp: pending_ok_def)
  then show ?thesis
    using D runs ledger_append_inv[OF D(2) a]
    by (intro kernel_invI) (auto simp: coherent_stored durable_of_def intro: publish_bounded)
qed

lemma start_run_maintains: "maintains x (start_run env i g)"
proof (rule maintainsI)
  fix k assume inv: "kernel_inv x k"
  show "wp (start_run env i g) (\<lambda>_. kernel_inv x) (\<lambda>e k'. kernel_inv x k' \<and> (\<exists>err. e = Failed err)) k"
    unfolding start_run_def wp_simps Let_def
    using inv
    by (auto split!: result.splits simp: wp_simps bt_contains_iff
        intro!: wp_record_event intro: record_start_inv failed_commit_inv[OF inv])
qed

text \<open>A batch without starts: the runs it ends may no longer have pending invocations.\<close>

lemma ended_batch:
  assumes inv: "kernel_inv x k" and b: "append_batch now (k_ledger k) evs = Ok (rs, ledger)"
    and no_start: "\<forall>e\<in>set evs. \<not> is_start e"
  shows "runs_ok (k_registry k) (lg_runs ledger)"
    and "(\<And>i p. bt_get pending i = Some p \<Longrightarrow> bt_get (k_pending k) i = Some p \<and>
        \<not> (\<exists>e\<in>set evs. is_end e \<and> ev_run_id e = pn_run_id p)) \<Longrightarrow>
      pending_ok (k_registry k) (lg_runs ledger) pending"
proof -
  note entry = append_batch_entry[OF b no_start]
  show "runs_ok (k_registry k) (lg_runs ledger)"
    using kernel_invD(8)[OF inv] by (auto simp: runs_ok_def entry split: if_splits)
  assume p: "\<And>i p. bt_get pending i = Some p \<Longrightarrow> bt_get (k_pending k) i = Some p \<and>
        \<not> (\<exists>e\<in>set evs. is_end e \<and> ev_run_id e = pn_run_id p)"
  show "pending_ok (k_registry k) (lg_runs ledger) pending"
    unfolding pending_ok_def
  proof (intro allI impI)
    fix i q assume "bt_get pending i = Some q"
    from p[OF this] kernel_invD(11)[OF inv]
    have "pending_fits (k_registry k) (lg_runs (k_ledger k)) q"
      and "\<not> (\<exists>e\<in>set evs. is_end e \<and> ev_run_id e = pn_run_id q)" by (auto simp: pending_ok_def)
    then show "pending_fits (k_registry k) (lg_runs ledger) q"
      by (auto simp: pending_fits_def entry)
  qed
qed

lemma get_remove_pending_where [simp]:
  "bt_get (k_pending (remove_pending_where p k)) i = Some q \<longleftrightarrow> bt_get (k_pending k) i = Some q \<and> \<not> p q"
  by (simp add: remove_pending_where_def)

lemma end_run_maintains: "maintains x (end_run env r t)"
proof (rule maintainsI)
  fix k assume inv: "kernel_inv x k"
  note D = kernel_invD[OF inv]
  let ?evs = "pending_cancellation_events_for_run k r @ [RunEnded r t]"
  have no_start: "\<forall>e\<in>set ?evs. \<not> is_start e"
    by (auto simp: pending_cancellation_events_for_run_def cancellation_event_def)
  show "wp (end_run env r t) (\<lambda>_. kernel_inv x) (\<lambda>e k'. kernel_inv x k' \<and> (\<exists>err. e = Failed err)) k"
    unfolding end_run_def wp_simps Let_def
  proof (rule wp_record_batch)
    fix views rs ledger
    assume b: "append_batch (env_now env) (k_ledger k) ?evs = Ok (rs, ledger)"
    let ?k = "k\<lparr>k_store := stored k (durable_of_parts (k_registry k) ledger (k_broker k) (k_artifacts k)),
      k_ledger := ledger, k_router := publish_batch (k_router k) views (k_registry k)\<rparr>"
    have ends: "(\<exists>e\<in>set ?evs. is_end e \<and> ev_run_id e = pn_run_id p) \<longleftrightarrow> pn_run_id p = r" for p
      by (auto simp: pending_cancellation_events_for_run_def cancellation_event_def)
    have "pending_ok (k_registry k) (lg_runs ledger) (k_pending (remove_pending_for_run r ?k))"
      by (rule ended_batch(2)[OF inv b no_start], unfold ends)
        (auto simp: remove_pending_for_run_def)
    then show "kernel_inv x ((remove_pending_for_run r ?k)
        \<lparr>k_leases := release_all_for_run (k_leases (remove_pending_for_run r ?k)) r\<rparr>)"
      using D ended_batch(1)[OF inv b no_start] append_batch_inv[OF D(2) b]
      by (intro kernel_invI)
        (simp_all add: remove_pending_for_run_def remove_pending_where_def coherent_stored durable_of_def
          publish_batch_bounded release_all_inv)
  qed (simp add: failed_commit_inv[OF inv])
qed

section \<open>Surfaces, leases, secrets, events\<close>

lemma open_surface_maintains: "maintains x (open_surface env a n)"
  unfolding open_surface_def wp_simps
  by (auto simp: wp_simps kernel_inv_def surface_open_declared split: result.splits prod.splits)

lemma close_surface_inv: "kernel_inv x k \<Longrightarrow> kernel_inv x (close_surface b k)"
  by (simp add: close_surface_def kernel_inv_def surface_close_declared)

lemma wp_show_notice:
  "(\<And>n. Q () (k\<lparr>k_notices := n\<rparr>)) \<Longrightarrow> (\<And>e. E (Failed e) k) \<Longrightarrow> wp (show_notice notice) Q E k"
  by (auto simp: show_notice_def wp_def split: result.splits)

lemma acquire_lease_maintains: "maintains x (acquire_lease env r t d)"
proof (rule maintainsI)
  fix k assume inv: "kernel_inv x k"
  have step: "kernel_inv x (k\<lparr>k_leases := m\<rparr>)"
    if "lease_acquire now u (k_leases k) r t d = Ok (out, m)" for now u out m
    using inv lease_acquire_inv[OF kernel_invD(5)[OF inv] that] by (simp add: kernel_inv_def)
  show "wp (acquire_lease env r t d) (\<lambda>_. kernel_inv x) (\<lambda>e k'. kernel_inv x k' \<and> (\<exists>err. e = Failed err)) k"
    unfolding acquire_lease_def Let_def
    using inv step
    by (auto simp: wp_simps split!: result.splits prod.splits lease_outcome.splits intro!: wp_show_notice)
qed

lemma put_secret_inv: "kernel_inv x k \<Longrightarrow> kernel_inv x (put_secret r v k)"
  by (simp add: put_secret_def broker_put_secret_def kernel_inv_def)

lemma clear_secret_inv: "kernel_inv x k \<Longrightarrow> kernel_inv x (clear_secret r k)"
  by (simp add: clear_secret_def broker_clear_secret_def kernel_inv_def)

lemma drain_inbox_bounded: "inboxes_bounded router \<Longrightarrow> drain_inbox router a r = Ok (evs, router') \<Longrightarrow> inboxes_bounded router'"
  by (auto simp: drain_inbox_def inboxes_bounded_def bind_r_Ok_iff bt_get_insert split: option.splits if_splits)

lemma drain_inbox_maintains: "maintains x (kernel_drain_inbox a)"
  unfolding kernel_drain_inbox_def wp_simps
  by (auto simp: wp_simps kernel_inv_def drain_inbox_bounded split: result.splits prod.splits)

lemma publish_data_change_publish:
  "publish_data_change router a ref revision kind r = publish router (AppDataChanged a ref revision kind) r"
  by (simp add: publish_data_change_def publish_def Let_def)

lemma publish_app_data_change_maintains: "maintains x (publish_app_data_change a ref revision kind)"
  unfolding publish_app_data_change_def
  by (auto simp: wp_simps kernel_inv_def publish_data_change_publish intro: publish_bounded split: result.splits)

lemma cancel_pending_inv: "kernel_inv x k \<Longrightarrow> kernel_inv x (cancel_pending_invocations_for_run r k)"
  by (simp add: cancel_pending_invocations_for_run_def cancel_pending_for_run_def)

section \<open>Grants\<close>

lemma kernel_inv_broker:
  assumes "kernel_inv x k" "broker_inv b" "grants_ok (k_registry k) b"
  shows "kernel_inv x (k\<lparr>k_store := stored k (durable_of_parts (k_registry k) (k_ledger k) b (k_artifacts k)), k_broker := b\<rparr>)"
  using kernel_invD[OF assms(1)] assms(2,3)
  by (intro kernel_invI) (simp_all add: coherent_stored durable_of_def)

lemma grants_ok_issue:
  assumes "grants_ok reg b" "issue_with_decision now u b holder request origin d = Ok (r, b')"
    "bt_contains (rg_apps reg) holder" "bt_contains (rg_apps reg) (scope_provider (rq_scope request))"
  shows "grants_ok reg b'"
  using assms(2)
proof (cases rule: issue_Ok_cases)
  case 2
  with assms(1,3,4) show ?thesis
    by (auto simp: grants_ok_def bt_get_insert grant_of_request_def split: if_splits)
qed (use assms in simp)

lemma validate_grant_request_Ok:
  assumes "validate_grant_request k holder request = Ok u"
  shows "ds_validate (rq_data_scope request) = Ok ()" "bt_contains (rg_apps (k_registry k)) holder"
    "bt_contains (rg_apps (k_registry k)) (scope_provider (rq_scope request))"
proof -
  from assms show "ds_validate (rq_data_scope request) = Ok ()" "bt_contains (rg_apps (k_registry k)) holder"
    by (auto simp: validate_grant_request_def request_validate_def bind_r_Ok_iff bt_contains_iff)
  from assms show "bt_contains (rg_apps (k_registry k)) (scope_provider (rq_scope request))"
    by (cases "rq_scope request")
      (auto simp: validate_grant_request_def bind_r_Ok_iff bt_contains_iff dest!: registry_capability_Ok)
qed

lemma commit_issue_inv:
  assumes inv: "kernel_inv x k"
    and b: "broker_inv (snd issued)" "grants_ok (k_registry k) (snd issued)"
  shows "wp (commit_issue env issued) (\<lambda>_. kernel_inv x) (\<lambda>e k'. kernel_inv x k' \<and> (\<exists>err. e = Failed err)) k"
proof (cases issued)
  case (Pair r b')
  with b inv show ?thesis
    by (cases r) (auto simp: commit_issue_def wp_simps intro!: wp_commit_state_of kernel_inv_broker
        intro: failed_commit_inv)
qed

lemma issue_and_commit:
  assumes inv: "kernel_inv x k" and v: "validate_grant_request k holder request = Ok ()"
    and i: "issue_with_decision now u (k_broker k) holder request origin d = Ok issued"
  shows "wp (commit_issue env issued) (\<lambda>_. kernel_inv x) (\<lambda>e k'. kernel_inv x k' \<and> (\<exists>err. e = Failed err)) k"
proof -
  obtain r b where issued: "issued = (r, b)" by force
  note V = validate_grant_request_Ok[OF v] and D = kernel_invD[OF inv]
  show ?thesis
    using issue_inv[OF D(3) i[unfolded issued]] grants_ok_issue[OF D(9) i[unfolded issued] V(2,3)]
    by (intro commit_issue_inv[OF inv]) (simp_all add: issued)
qed

lemma issue_no_panic:
  "validate_grant_request k holder request = Ok () \<Longrightarrow>
     issue_with_decision now u b holder request origin d = Err s \<Longrightarrow> False"
  using issue_never_panics[OF validate_grant_request_Ok(1), of k holder request "()" now u b holder origin d]
  by auto

lemma commit_grant_maintains: "maintains x (commit_grant env approval)"
proof (rule maintainsI)
  fix k assume inv: "kernel_inv x k"
  show "wp (commit_grant env approval) (\<lambda>_. kernel_inv x) (\<lambda>e k'. kernel_inv x k' \<and> (\<exists>err. e = Failed err)) k"
    unfolding commit_grant_def Let_def
    using inv
    by (auto simp: wp_simps split!: result.splits if_splits intro!: issue_and_commit dest: issue_no_panic)
qed

lemma issue_grant_maintains: "maintains x (issue_grant env holder request)"
proof (rule maintainsI)
  fix k assume inv: "kernel_inv x k"
  show "wp (issue_grant env holder request) (\<lambda>_. kernel_inv x) (\<lambda>e k'. kernel_inv x k' \<and> (\<exists>err. e = Failed err)) k"
    unfolding issue_grant_def broker_issue_def Let_def
    using inv
    by (auto simp: wp_simps split!: result.splits if_splits intro!: issue_and_commit dest: issue_no_panic)
qed

lemma grants_ok_more_revoked:
  assumes "grants_ok reg b" "br_grants b' = br_grants b"
    "\<And>i. bt_contains (br_revoked b) i \<Longrightarrow> bt_contains (br_revoked b') i"
  shows "grants_ok reg b'"
  using assms by (auto simp: grants_ok_def)

lemma revoke_frame: "broker_revoke b i = Ok b' \<Longrightarrow> br_grants b' = br_grants b \<and>
    (\<forall>j. bt_contains (br_revoked b') j \<longleftrightarrow> j = i \<or> bt_contains (br_revoked b) j)"
  by (auto simp: broker_revoke_def split: if_splits)

lemma revoke_grant_maintains: "maintains x (revoke_grant env i)"
proof (rule maintainsI)
  fix k assume inv: "kernel_inv x k"
  note D = kernel_invD[OF inv]
  have "kernel_inv x (k\<lparr>k_store := stored k (durable_of_parts (k_registry k) (k_ledger k) b (k_artifacts k)), k_broker := b\<rparr>)"
    if "broker_revoke (k_broker k) i = Ok b" for b
    using revoke_frame[OF that]
    by (intro kernel_inv_broker[OF inv] revoke_inv[OF D(3) that] grants_ok_more_revoked[OF D(9)]) simp_all
  then show "wp (revoke_grant env i) (\<lambda>_. kernel_inv x) (\<lambda>e k'. kernel_inv x k' \<and> (\<exists>err. e = Failed err)) k"
    unfolding revoke_grant_def wp_simps
    using inv by (auto split!: result.splits intro!: wp_commit_state_of intro: failed_commit_inv)
qed

lemma revoke_all_frame:
  "try_fold broker_revoke b is = Ok b' \<Longrightarrow> broker_inv b \<Longrightarrow> broker_inv b' \<and> br_grants b' = br_grants b \<and>
     (\<forall>j. bt_contains (br_revoked b') j \<longleftrightarrow> j \<in> set is \<or> bt_contains (br_revoked b) j)"
proof (induction "is" arbitrary: b)
  case (Cons i js)
  then obtain mid where mid: "broker_revoke b i = Ok mid" "try_fold broker_revoke mid js = Ok b'"
    by (auto simp: bind_r_Ok_iff)
  from Cons.IH[OF mid(2) revoke_inv[OF Cons.prems(2) mid(1)]] revoke_frame[OF mid(1)] show ?case by auto
qed simp

lemma revoke_grants_for_resource_maintains: "maintains x (revoke_grants_for_resource env res)"
proof (rule maintainsI)
  fix k assume inv: "kernel_inv x k"
  note D = kernel_invD[OF inv]
  have "kernel_inv x (k\<lparr>k_store := stored k (durable_of_parts (k_registry k) (k_ledger k) b (k_artifacts k)), k_broker := b\<rparr>)"
    if "try_fold broker_revoke (k_broker k) is = Ok b" for b "is"
    using revoke_all_frame[OF that D(3)]
    by (intro kernel_inv_broker[OF inv] grants_ok_more_revoked[OF D(9)]) simp_all
  then show "wp (revoke_grants_for_resource env res) (\<lambda>_. kernel_inv x) (\<lambda>e k'. kernel_inv x k' \<and> (\<exists>err. e = Failed err)) k"
    unfolding revoke_grants_for_resource_def
    using inv by (auto simp: wp_simps split!: result.splits intro!: wp_commit_state_of intro: failed_commit_inv)
qed

end
