(* ===== verification/Kernel_Keeps_Invoke.thy ===== *)
theory Kernel_Keeps_Invoke
  imports Kernel_Keeps
begin

text \<open>
  The action path keeps the invariant and does not panic: every indexing of the pending table
  finds its entry, and a token that comes from execution carries an outcome.
\<close>

abbreviation keeps_inv :: "externals \<Rightarrow> 'a kop \<Rightarrow> kernel \<Rightarrow> bool" where
  "keeps_inv x m k \<equiv> wp m (\<lambda>_. kernel_inv x) (\<lambda>e k'. kernel_inv x k' \<and> (\<exists>err. e = Failed err)) k"

section \<open>Prepare\<close>

lemma kernel_inv_pending_insert:
  assumes "kernel_inv x k" "pending_fits (k_registry k) (lg_runs (k_ledger k)) p"
  shows "kernel_inv x (k\<lparr>k_pending := bt_insert i p (k_pending k)\<rparr>)"
  using assms by (auto simp: kernel_inv_def pending_ok_def bt_get_insert split: if_splits)

lemma register_pending_inv:
  assumes "kernel_inv x k"
    and "\<And>h s d. pending_fits (k_registry k) (lg_runs (k_ledger k))
      \<lparr>pn_run_id = run_id, pn_acting_app = app, pn_capability = cap, pn_grant = g,
       pn_requested_data_scope = ir_data_scope rq, pn_provider_content_hash = h, pn_output_schema = s,
       pn_input = ir_input rq, pn_deadline = d, pn_state = PreparedForApproval\<rparr>"
  shows "keeps_inv x (register_pending env run_id app cap g rq schema timeout approval) k"
  using assms
  by (auto simp: register_pending_def wp_simps split!: option.splits result.splits
      intro!: kernel_inv_pending_insert)

lemma wp_record_plain_inv:
  assumes "kernel_inv x k" "plain ev" "\<And>r k'. kernel_inv x k' \<Longrightarrow> Q r k'"
    and "\<And>e k'. kernel_inv x k' \<Longrightarrow> E (Failed e) k'"
  shows "wp (record_event env ev) Q E k"
  by (rule wp_record_plain[OF assms(1,2)]) (simp_all add: assms(3,4))

lemma wp_seek_approval:
  assumes inv: "kernel_inv x k"
    and ok: "\<And>a k'. kernel_inv x k' \<Longrightarrow> k_registry k' = k_registry k \<Longrightarrow> k_broker k' = k_broker k \<Longrightarrow>
      lg_runs (k_ledger k') = lg_runs (k_ledger k) \<Longrightarrow> Q a k'"
    and err: "\<And>e k'. kernel_inv x k' \<Longrightarrow> E (Failed e) k'"
  shows "wp (seek_approval x' env run_id run app cap decl g rq counts) Q E k"
  unfolding seek_approval_def Let_def
  by (auto simp: wp_simps split_def plain_def inv err split!: result.splits if_splits
      intro!: wp_record_plain[OF inv] ok err)

lemma active_run_entry:
  assumes "kernel_inv x k" "ledger_run_view (k_ledger k) run_id = Ok run" "is_active run"
  shows "\<exists>s. bt_get (lg_runs (k_ledger k)) run_id = Some s \<and> ri_active s \<and>
    ri_initiating_app s = initiating_app run"
  using run_view_active_iff[OF kernel_invD(2)[OF assms(1)] assms(2)] assms(3) by auto

lemma prepare_maintains:
  "maintains x (prepare_invocation_with_context x' env run_id cap rq timeout direct)"
proof (rule maintainsI)
  fix k assume inv: "kernel_inv x k"
  show "keeps_inv x (prepare_invocation_with_context x' env run_id cap rq timeout direct) k"
    unfolding prepare_invocation_with_context_def wp_bind_s
  proof (rule wp_reap[OF inv], goal_cases)
    case (1 k')
    note inv' = 1(1)
    have grant: "keeps_inv x (bind_s (seek_approval x' env run_id run (initiating_app run) cap decl g rq c)
        (register_pending env run_id (initiating_app run) cap g rq schema timeout)) (k'\<lparr>k_notices := n\<rparr>)"
      if run: "ledger_run_view (k_ledger k') run_id = Ok run" "is_active run"
        and scope: "ds_validate_invocation (ir_data_scope rq) = Ok ()"
        and decl: "registry_capability (k_registry k') cap = Ok decl"
        and check: "broker_check (env_now env) (k_broker k') (initiating_app run) cap (ir_data_scope rq) = CheckAllowed g \<or>
          broker_check (env_now env) (k_broker k') (initiating_app run) cap (ir_data_scope rq) = CheckApprovalRequired g"
      for run decl g c schema n
      unfolding wp_bind_s
    proof (rule wp_seek_approval)
      show "kernel_inv x (k'\<lparr>k_notices := n\<rparr>)" using inv' by simp
      fix a k2 assume k2: "kernel_inv x k2" "k_registry k2 = k_registry (k'\<lparr>k_notices := n\<rparr>)"
        "lg_runs (k_ledger k2) = lg_runs (k_ledger (k'\<lparr>k_notices := n\<rparr>))"
      show "keeps_inv x (register_pending env run_id (initiating_app run) cap g rq schema timeout a) k2"
        using active_run_entry[OF inv' run] registry_capability_Ok[OF decl] authority.granted[OF check] scope k2
        by (intro register_pending_inv) (auto simp: pending_fits_def bt_contains_iff)
    qed auto
    from grant[of _ _ _ _ _ "k_notices k'"] have grant0: "keeps_inv x
        (bind_s (seek_approval x' env run_id run (initiating_app run) cap decl g rq c)
          (register_pending env run_id (initiating_app run) cap g rq schema timeout)) k'"
      if "ledger_run_view (k_ledger k') run_id = Ok run" "is_active run"
        "ds_validate_invocation (ir_data_scope rq) = Ok ()"
        "registry_capability (k_registry k') cap = Ok decl"
        "broker_check (env_now env) (k_broker k') (initiating_app run) cap (ir_data_scope rq) = CheckAllowed g \<or>
          broker_check (env_now env) (k_broker k') (initiating_app run) cap (ir_data_scope rq) = CheckApprovalRequired g"
      for run decl g c schema
      using that by simp
    show ?case
      using inv' grant grant0
      by (auto simp: wp_simps Let_def plain_def split!: result.splits if_splits grant_check.splits sum.splits
          intro!: wp_record_plain_inv[OF inv'] wp_show_notice)
  qed auto
qed

lemma keeps_prepare_wrappers:
  "maintains x (prepare_invocation_with_timeout x' env run_id cap rq timeout)"
  "maintains x (prepare_invocation x' env run_id cap rq)"
  unfolding prepare_invocation_def prepare_invocation_with_timeout_def by (rule prepare_maintains)+

lemma keepsE: "maintains x m \<Longrightarrow> kernel_inv x k \<Longrightarrow> keeps_inv x m k"
  by blast

lemma wp_maintains:
  assumes "maintains x m" "kernel_inv x k" "\<And>a k'. kernel_inv x k' \<Longrightarrow> Q a k'"
    "\<And>e k'. kernel_inv x k' \<Longrightarrow> E (Failed e) k'"
  shows "wp m Q E k"
  by (rule wp_mono[OF keepsE[OF assms(1,2)]]) (use assms(3,4) in auto)

lemma maintains_snd: "maintains x m \<Longrightarrow> kernel_inv x k \<Longrightarrow> kernel_inv x (snd (m k))"
  by (drule (1) keepsE) (auto simp: wp_def split: prod.splits result.splits)

lemma prepare_surface_action_maintains: "maintains x (prepare_surface_action x' env binding intent)"
proof (rule maintainsI)
  fix k assume inv: "kernel_inv x k"
  show "keeps_inv x (prepare_surface_action x' env binding intent) k"
    unfolding prepare_surface_action_def Let_def
    by (auto simp: wp_simps inv split!: result.splits if_splits
        intro!: wp_maintains[OF start_run_maintains inv] wp_maintains[OF prepare_maintains]
          maintains_snd[OF end_run_maintains])
qed

section \<open>Authorize\<close>

lemma wp_either:
  "wp (\<lambda>k. case m k of (Err e, k') \<Rightarrow> h e k' | (Ok a, k') \<Rightarrow> f a k') Q E k =
     wp m (\<lambda>a. wp (f a) Q E) (\<lambda>e. wp (h e) Q E) k"
  by (simp add: wp_def split: prod.splits result.splits)

lemma wp_result_case:
  "wp (\<lambda>k. case f k of Err e \<Rightarrow> h e k | Ok a \<Rightarrow> g a k) Q E k =
     (case f k of Err e \<Rightarrow> wp (h e) Q E k | Ok a \<Rightarrow> wp (g a) Q E k)"
  by (simp add: wp_def split: result.splits)

lemma wp_pending_at [wp_simps]:
  "wp (pending_at i) Q E =
     (\<lambda>k. case bt_get (k_pending k) i of Some p \<Rightarrow> Q p k | None \<Rightarrow> E (Panicked ''no entry found for key'') k)"
  by (auto simp: fun_eq_iff pending_at_def wp_def split: option.splits)

lemma wp_consume_pending [wp_simps]:
  "wp (consume_pending i m) Q E = wp m (\<lambda>a k. Q a (remove_pending i k))
     (\<lambda>e k. case e of Failed err \<Rightarrow> E e (remove_pending i (require_recovery_after_consumed_transition k))
        | Panicked s \<Rightarrow> E e k)"
  by (auto simp: fun_eq_iff consume_pending_def wp_def split: prod.splits result.splits failure.splits)

lemma wp_revalidate:
  assumes "\<And>k'. k' = k \<or> k' = set_flag i k \<Longrightarrow> Q () k'"
    and "\<And>e k'. k' = k \<or> k' = set_flag i k \<Longrightarrow> E (Failed e) k'"
  shows "wp (revalidate_pending env i p) Q E k"
  unfolding revalidate_pending_def
  by (auto simp: wp_simps assms split!: result.splits if_splits grant_check.splits)

lemma finalize_cancelled_keeps:
  assumes "kernel_inv x k"
  shows "keeps_inv x (finalize_cancelled env r c d (Failed e)) k"
  unfolding finalize_cancelled_def
  by (cases e) (auto simp: wp_simps plain_def assms intro!: wp_record_plain_inv[OF assms])

lemma set_flag_simps [simp]:
  "k_pending (set_flag i k) = k_pending k" "k_registry (set_flag i k) = k_registry k"
  "k_ledger (set_flag i k) = k_ledger k" "k_handlers (set_flag i k) = k_handlers k"
  "k_broker (set_flag i k) = k_broker k"
  by (simp_all add: set_flag_def)

lemma pending_state_inv:
  assumes "kernel_inv x k" "bt_get (k_pending k) i = Some p"
  shows "kernel_inv x (k\<lparr>k_pending := bt_insert i (p\<lparr>pn_state := s\<rparr>) (k_pending k)\<rparr>)"
proof (rule kernel_inv_pending_insert[OF assms(1)])
  have "pending_fits (k_registry k) (lg_runs (k_ledger k)) p"
    using kernel_invD(11)[OF assms(1)] assms(2) by (auto simp: pending_ok_def)
  then show "pending_fits (k_registry k) (lg_runs (k_ledger k)) (p\<lparr>pn_state := s\<rparr>)"
    by (simp add: pending_fits_def)
qed

lemma dispatch_keeps:
  assumes inv: "kernel_inv x k" and p: "bt_get (k_pending k) i = Some p"
  shows "keeps_inv x (dispatch_authorized x' env i) k"
proof -
  have rest: "keeps_inv x (bind_s (lift_k (\<lambda>k. ok_or (HandlerNotBound (cr_provider (pn_capability p))
         (cr_capability (pn_capability p))) (bound_handler k (pn_capability p)))) (\<lambda>handler.
     bind_s (lift_k (invocation_context_of i p)) (\<lambda>context.
     bind_s (pending_at i) (\<lambda>pending.
     bind_s (modify (\<lambda>k. k\<lparr>k_pending := bt_insert i (pending\<lparr>pn_state := AuthorizedForExecution\<rparr>) (k_pending k)\<rparr>)) (\<lambda>_.
     ret (Authorized \<lparr>az_id = i, az_handler = handler, az_input = pn_input pending,
       az_context = context\<rparr>)))))) k'"
    if "kernel_inv x k'" "k_pending k' = k_pending k" for k'
    using that p pending_state_inv[OF that(1), of i p AuthorizedForExecution]
    by (auto simp: wp_simps split!: result.splits option.splits)
  show ?thesis
    unfolding dispatch_authorized_def record_invoked_after_approval_def
    using inv p rest
    by (auto simp: wp_simps plain_def split!: result.splits if_splits intro!: wp_record_plain[OF inv])
qed

lemma authorize_checked_keeps:
  assumes inv: "kernel_inv x k" and p: "bt_get (k_pending k) i = Some p"
  shows "keeps_inv x (\<lambda>k. case revalidate_pending env i p k of
        (Err error, k') \<Rightarrow>
          bind_s (consume_pending i (finalize_cancelled env (pn_run_id p) (pn_capability p)
            (pn_requested_data_scope p) error)) (\<lambda>result.
          ret (AuthorizeRefused result)) k'
      | (Ok _, k') \<Rightarrow> dispatch_authorized x' env i k') k"
proof -
  have cancelled: "wp (finalize_cancelled env r c d (Failed e))
      (\<lambda>a k. kernel_inv x (remove_pending i k))
      (\<lambda>e k. case e of
          Failed err \<Rightarrow> kernel_inv x (remove_pending i (require_recovery_after_consumed_transition k)) \<and> (\<exists>err. e = Failed err)
        | Panicked s \<Rightarrow> kernel_inv x k \<and> (\<exists>err. e = Failed err)) k'"
    if "k' = k \<or> k' = set_flag i k" for r c d e k'
    by (rule wp_mono[OF finalize_cancelled_keeps]) (use that inv in auto)
  have "keeps_inv x (dispatch_authorized x' env i) k'" if "k' = k \<or> k' = set_flag i k" for k'
    by (rule dispatch_keeps[of x _ i p]) (use that inv p in auto)
  with cancelled p show ?thesis
    by (auto simp: wp_simps wp_either intro!: wp_revalidate)
qed

lemma authorize_pending_maintains: "maintains x (authorize_pending x' env approval)"
proof (rule maintainsI)
  fix k assume inv: "kernel_inv x k"
  let ?i = "apr_id approval"
  show "keeps_inv x (authorize_pending x' env approval) k"
  proof (cases "bt_get (k_pending k) ?i")
    case None
    then show ?thesis using inv by (simp add: authorize_pending_def Let_def wp_simps)
  next
    case (Some p)
    show ?thesis
      unfolding authorize_pending_def record_decision_def Let_def
      using inv Some
      by (cases "apr_decision approval"; cases "the (apr_decision approval)")
        (auto simp: wp_simps plain_def intro!: wp_record_plain[OF inv] authorize_checked_keeps)
  qed
qed

lemma authorize_maintains: "maintains x (authorize_invocation x' env approval)"
proof (rule maintainsI)
  fix k assume "kernel_inv x k"
  from keepsE[OF authorize_pending_maintains this, of x' env approval]
  show "keeps_inv x (authorize_invocation x' env approval) k"
    by (auto simp: authorize_invocation_def wp_def
        split: prod.splits result.splits authorize_invocation_outcome.splits)
qed

section \<open>Execute, finalize, abort\<close>

lemma kernel_execute_inv: "kernel_execute env p t k = (e, k') \<Longrightarrow> kernel_inv x k' = kernel_inv x k"
  by (auto simp: kernel_execute_def split: prod.splits)

lemma fail_invocation_keeps: "kernel_inv x k \<Longrightarrow> keeps_inv x (fail_invocation env r c g d e) k"
  unfolding fail_invocation_def
  by (auto simp: wp_simps plain_def intro!: wp_record_plain_inv)

lemma complete_outcome_keeps:
  assumes inv: "kernel_inv x k"
  shows "keeps_inv x (complete_outcome x' env r c g d schema outcome) k"
proof -
  let ?stored = "stamp_all env r c g (oc_artifacts outcome)"
  have plain: "\<forall>e\<in>set (map (\<lambda>a. ArtifactProduced r (at_artifact_id a) (at_artifact_type a)) ?stored @
      [CapabilityCompleted r c (gr_grant_id g) h d]). plain e" for h
    by (auto simp: plain_def)
  have "keeps_inv x (bind_s (lift_k (\<lambda>_. payload_sha256 x' (oc_result outcome))) (\<lambda>result_sha256.
      bind_s (commit_completion env
        (map (\<lambda>a. ArtifactProduced r (at_artifact_id a) (at_artifact_type a)) ?stored @
         [CapabilityCompleted r c (gr_grant_id g) result_sha256 d]) ?stored) (\<lambda>_.
      ret (InvocationCompleted (oc_result outcome) ?stored)))) k"
    by (auto simp: wp_simps inv split!: result.splits
        intro!: wp_commit_completion completion_inv[OF inv plain] intro: failed_commit_inv[OF inv])
  with fail_invocation_keeps[OF inv] show ?thesis
    by (auto simp: complete_outcome_def Let_def wp_result_case split!: option.splits result.splits)
qed

lemma finalize_result_keeps:
  assumes "kernel_inv x k" "executed_ok e"
  shows "keeps_inv x (finalize_result x' env p e) k"
  using assms finalize_cancelled_keeps[OF assms(1)] fail_invocation_keeps[OF assms(1)]
    complete_outcome_keeps[OF assms(1)]
  by (auto simp: finalize_result_def executed_ok_def split: option.splits result.splits)

lemma finalize_keeps:
  assumes inv: "kernel_inv x k" and e: "executed_ok executed"
  shows "keeps_inv x (finalize_invocation x' env executed) k"
proof (cases "bt_get (k_pending k) (ex_id executed)")
  case None
  then show ?thesis using inv by (simp add: finalize_invocation_def Let_def wp_simps)
next
  case (Some p)
  have consumed: "keeps_inv x (consume_pending i m) k'" if "keeps_inv x m k'" for i m k'
    unfolding wp_simps by (rule wp_mono[OF that]) auto
  have inv': "kernel_inv x k'" if "k' = k \<or> k' = set_flag (ex_id executed) k" for k'
    using that inv by auto
  from Some show ?thesis
    unfolding finalize_invocation_def Let_def
    by (auto simp: wp_simps(1-7) wp_gets wp_fails wp_pending_at wp_either inv
        intro!: wp_revalidate consumed finalize_cancelled_keeps finalize_result_keeps[OF _ e] inv')
qed

lemma abort_pending_maintains: "maintains x (abort_pending env i)"
  unfolding abort_pending_def
  by (auto simp: wp_simps split!: result.splits option.splits intro!: wp_record_plain_inv)

lemma abort_maintains:
  "maintains x (abort_prepared_invocation env t)" "maintains x (abort_authorized_invocation env a)"
proof -
  have "keeps_inv x (\<lambda>k. let (r, k') = abort_pending env i k in (r, set_flag i k')) k" if "kernel_inv x k" for i k
    using keepsE[OF abort_pending_maintains that, of env i]
    by (auto simp: wp_def split: prod.splits result.splits)
  then show "maintains x (abort_prepared_invocation env t)" "maintains x (abort_authorized_invocation env a)"
    by (simp_all add: abort_prepared_invocation_def abort_authorized_invocation_def)
qed

end
