(* ===== verification/Kernel_Keeps_Install.thy ===== *)
theory Kernel_Keeps_Install
  imports Kernel_Keeps_Invoke
begin

text \<open>
  Installing, replacing, upgrading and uninstalling keep the invariant and do not panic. The
  plan of an install is a token only the kernel makes; \<open>prepared_install_ok\<close> is what its maker
  establishes: every prompt asks for a provider that was installed when the plan was made.
\<close>

lemma wp_commit_inv:
  assumes "kernel_inv x k"
    and "\<not> k_recovery_required k \<Longrightarrow> Q () (k\<lparr>k_store := stored k (durable_of_parts (fr k) (fl k) (fb k) (fa k))\<rparr>)"
    and "\<And>m k'. kernel_inv x k' \<Longrightarrow> E (Failed (Durability m)) k'"
  shows "wp (\<lambda>k. commit_parts env (fr k) (fl k) (fb k) (fa k) k) Q E k"
  by (rule wp_commit_state_of) (auto intro: assms failed_commit_inv)

section \<open>Reconciling grants\<close>

lemma reconcile_request_keeps:
  assumes b: "broker_inv b" "grants_ok reg b" "bt_contains (rg_apps reg) app"
    and valid: "ds_validate (rq_data_scope r) = Ok ()"
    and provider: "prompt_decision prompts decisions r \<noteq> None \<Longrightarrow>
      bt_contains (rg_apps reg) (scope_provider (rq_scope r))"
  shows "\<exists>b' rs' any'. reconcile_request env app origin prompts decisions (b, rs, any) r = Ok (b', rs', any') \<and>
    broker_inv b' \<and> grants_ok reg b'"
proof (cases "List.find (matches_request r origin) (grants_for (env_now env) b app)")
  case (Some g)
  with b show ?thesis by (simp add: reconcile_request_def)
next
  case None
  show ?thesis
  proof (cases "prompt_decision prompts decisions r")
    case no: None
    with None b show ?thesis by (simp add: reconcile_request_def)
  next
    case (Some d)
    from issue_never_panics[OF valid] obtain res b' where
      i: "issue_with_decision (env_now env) (env_uuid env (length rs)) b app r origin d = Ok (res, b')"
      by metis
    from issue_inv[OF b(1) i] grants_ok_issue[OF b(2) i b(3)] provider Some
    have "broker_inv b' \<and> grants_ok reg b'" by simp
    with None Some i show ?thesis by (simp add: reconcile_request_def)
  qed
qed

lemma reconcile_keeps_from:
  assumes "broker_inv b" "grants_ok reg b" "bt_contains (rg_apps reg) app"
    "\<forall>r\<in>set requests. ds_validate (rq_data_scope r) = Ok ()"
    "\<forall>r\<in>set requests. prompt_decision prompts decisions r \<noteq> None \<longrightarrow>
      bt_contains (rg_apps reg) (scope_provider (rq_scope r))"
  shows "\<exists>b' rs' any'. try_fold (reconcile_request env app origin prompts decisions) (b, rs, any) requests =
      Ok (b', rs', any') \<and> broker_inv b' \<and> grants_ok reg b'"
  using assms
proof (induction requests arbitrary: b rs any)
  case (Cons r requests)
  obtain b1 rs1 any1 where step: "reconcile_request env app origin prompts decisions (b, rs, any) r = Ok (b1, rs1, any1)"
      "broker_inv b1" "grants_ok reg b1"
    using reconcile_request_keeps[OF Cons.prems(1-3), of r prompts decisions env origin rs any] Cons.prems(4,5)
    by auto
  from Cons.IH[OF step(2,3) Cons.prems(3)] Cons.prems(4,5) step(1) show ?case by simp
qed simp

lemma reconcile_keeps:
  assumes "broker_inv b" "grants_ok reg b" "bt_contains (rg_apps reg) app"
    "\<forall>r\<in>set requests. ds_validate (rq_data_scope r) = Ok ()"
    "\<forall>r\<in>set requests. prompt_decision prompts decisions r \<noteq> None \<longrightarrow>
      bt_contains (rg_apps reg) (scope_provider (rq_scope r))"
  obtains b' rs any where "reconcile_manifest_grants env b app requests origin prompts decisions = Ok (b', rs, any)"
    "broker_inv b'" "grants_ok reg b'"
  unfolding reconcile_manifest_grants_def using reconcile_keeps_from[OF assms] that by blast

section \<open>Plans\<close>

definition prepared_install_ok :: "prepared_install \<Rightarrow> bool" where
  "prepared_install_ok p \<longleftrightarrow> (\<forall>g\<in>set (pl_grant_prompts p).
     scope_provider (gp_scope g) = mf_app_id (sm_manifest (pl_sealed_manifest p)) \<or>
     (\<exists>h. bt_get (pl_provider_content_hashes p) (scope_provider (gp_scope g)) = Some (Some h)))"

lemma set_dedup_subset: "set (dedup_prompts ps) \<subseteq> set ps"
proof -
  have "set (foldl (\<lambda>unique prompt. if list_ex (\<lambda>seen. same_authority seen prompt) unique then unique
        else unique @ [prompt]) acc ps) \<subseteq> set acc \<union> set ps" for acc
    by (induction ps arbitrary: acc) (fastforce split: if_splits)+
  from this[of "[]"] show ?thesis by (simp add: dedup_prompts_def)
qed

lemma prompt_decision_Some:
  "prompt_decision prompts decisions r = Some d \<Longrightarrow> \<exists>g\<in>set prompts. gp_scope g = rq_scope r"
  by (auto simp: prompt_decision_def dest!: find_SomeD set_zip_leftD)

lemma get_of_list_function:
  assumes "\<forall>(k, v)\<in>set es. v = f k" "k \<in> fst ` set es"
  shows "bt_get (bt_of_list es) k = Some (f k)"
proof -
  have "map_of (rev es) k \<noteq> None" using assms(2) by (simp add: map_of_eq_None_iff)
  then obtain v where v: "map_of (rev es) k = Some v" by auto
  then have "(k, v) \<in> set es" by (auto dest: map_of_SomeD)
  with assms(1) v show ?thesis by (auto simp: bt_of_list_def bt_get_insert_all)
qed

lemma try_map_guard:
  "try_map (\<lambda>r. if bad r then Err (e r) else Ok (f r)) rs = Ok es \<longleftrightarrow>
     (\<forall>r\<in>set rs. \<not> bad r) \<and> es = map f rs"
  by (induction rs arbitrary: es) (auto simp: bind_r_Ok_iff)

definition installed_hash :: "kernel \<Rightarrow> app_id \<Rightarrow> string option" where
  "installed_hash k a = map_option ia_content_hash (bt_get (rg_apps (k_registry k)) a)"

lemma provider_content_hashes_alt:
  "provider_content_hashes_for k m absent =
     map_ok bt_of_list (try_map (\<lambda>r.
         if absent = Reject \<and> installed_hash k (scope_provider (rq_scope r)) = None
         then Err (UnknownApp (scope_provider (rq_scope r)))
         else Ok (scope_provider (rq_scope r), installed_hash k (scope_provider (rq_scope r))))
       (filter (\<lambda>r. scope_provider (rq_scope r) \<noteq> mf_app_id m) (mf_grant_requests m)))"
proof -
  have "(case registry_app (k_registry k) a of
           Ok installed \<Rightarrow> Ok (a, Some (ia_content_hash installed))
         | Err (UnknownApp b) \<Rightarrow> (if absent = Tolerate then Ok (a, None) else Err (UnknownApp b))
         | Err error \<Rightarrow> Err error) =
        (if absent = Reject \<and> installed_hash k a = None then Err (UnknownApp a)
         else Ok (a, installed_hash k a))" for a
    by (cases "bt_get (rg_apps (k_registry k)) a"; cases absent)
      (auto simp: registry_app_def installed_hash_def)
  then show ?thesis by (simp add: provider_content_hashes_for_def Let_def)
qed

lemma provider_hashes_get:
  assumes "provider_content_hashes_for k m absent = Ok hashes" "r \<in> set (mf_grant_requests m)"
    "scope_provider (rq_scope r) \<noteq> mf_app_id m"
    "absent = Reject \<or> bt_contains (rg_apps (k_registry k)) (scope_provider (rq_scope r))"
  shows "\<exists>h. bt_get hashes (scope_provider (rq_scope r)) = Some (Some h)"
proof -
  let ?rs = "filter (\<lambda>r. scope_provider (rq_scope r) \<noteq> mf_app_id m) (mf_grant_requests m)"
  let ?es = "map (\<lambda>r. (scope_provider (rq_scope r), installed_hash k (scope_provider (rq_scope r)))) ?rs"
  from assms(1) have hashes: "hashes = bt_of_list ?es"
    and present: "\<forall>r\<in>set ?rs. \<not> (absent = Reject \<and> installed_hash k (scope_provider (rq_scope r)) = None)"
    by (auto simp: provider_content_hashes_alt try_map_guard)
  have rs: "r \<in> set ?rs" using assms(2,3) by simp
  then have "bt_get (bt_of_list ?es) (scope_provider (rq_scope r)) =
      Some (installed_hash k (scope_provider (rq_scope r)))"
    by (intro get_of_list_function) force+
  moreover have "installed_hash k (scope_provider (rq_scope r)) \<noteq> None"
    using assms(4) present rs by (auto simp: installed_hash_def bt_contains_def)
  ultimately show ?thesis using hashes by auto
qed

lemma prepared_install_makes_ok:
  assumes "prepare_install_with_grant_origin x env k sealed handlers origin = Ok p"
  shows "prepared_install_ok p"
proof -
  let ?m = "sm_manifest sealed"
  from assms obtain mode prompts hashes where
      prompts: "prompts = snd (install_prompts (env_now env) k ?m origin mode)"
    and hashes: "provider_content_hashes_for k ?m (if mode = Rebind then Tolerate else Reject) = Ok hashes"
    and p: "pl_sealed_manifest p = sealed" "pl_grant_prompts p = prompts" "pl_provider_content_hashes p = hashes"
    by (auto simp: prepare_install_with_grant_origin_def Let_def bind_r_Ok_iff split_def)
  have "scope_provider (gp_scope g) = mf_app_id ?m \<or>
      (\<exists>h. bt_get hashes (scope_provider (gp_scope g)) = Some (Some h))" if "g \<in> set prompts" for g
  proof -
    from prompts that obtain r where r: "r \<in> set (mf_grant_requests ?m)" "gp_scope g = rq_scope r"
      and present: "mode = Rebind \<longrightarrow> scope_provider (rq_scope r) = mf_app_id ?m \<or>
        bt_contains (rg_apps (k_registry k)) (scope_provider (rq_scope r))"
      using set_dedup_subset
      by (fastforce simp: install_prompts_def Let_def prompt_of_request_def is_ok_iff bt_contains_iff
          split: if_splits)
    show ?thesis
      unfolding r(2) using provider_hashes_get[OF hashes r(1)] present by (cases "mode = Rebind") auto
  qed
  then show ?thesis by (simp add: prepared_install_ok_def p)
qed

section \<open>Rebinding\<close>

lemma handler_binding_keys:
  "require_handler_binding m handlers = Ok u \<Longrightarrow> set (bt_keys handlers) = cd_name ` set (mf_capabilities m)"
proof -
  assume "require_handler_binding m handlers = Ok u"
  then have "bs_of_list (map cd_name (mf_capabilities m)) = bs_of_list (bt_keys handlers)"
    by (auto simp: require_handler_binding_def Let_def split: if_splits)
  then have "bt_contains (bs_of_list (map cd_name (mf_capabilities m))) n =
      bt_contains (bs_of_list (bt_keys handlers)) n" for n by simp
  then show ?thesis unfolding bs_contains_of_list set_map by blast
qed

lemma require_hashes_Ok:
  assumes "require_provider_content_hashes k hashes = Ok u" "bt_get hashes a = Some (Some h)"
  shows "bt_contains (rg_apps (k_registry k)) a"
proof -
  have "(a, Some h) \<in> set (bt_entries hashes)" using assms(2) by (simp add: in_entries_iff)
  with assms(1) have "bind_r (case registry_app (k_registry k) a of
           Ok installed \<Rightarrow> Ok (Some (ia_content_hash installed))
         | Err (UnknownApp _) \<Rightarrow> Ok None
         | Err error \<Rightarrow> Err error) (\<lambda>current.
       if current \<noteq> Some h then Err PreparedInstallStale else Ok ()) = Ok ()"
    by (fastforce simp: require_provider_content_hashes_def)
  then show ?thesis
    by (cases "bt_get (rg_apps (k_registry k)) a") (auto simp: registry_app_def bt_contains_def split: if_splits)
qed

lemma locally_valid_requests:
  "locally_valid x sealed \<Longrightarrow> \<forall>r\<in>set (mf_grant_requests (sm_manifest sealed)). ds_validate (rq_data_scope r) = Ok ()"
  by (simp add: locally_valid_def manifest_consistent_def Let_def)

lemma bind_handlers_inv:
  assumes "kernel_inv x k" "bt_get (rg_apps (k_registry k)) a = Some app"
    "set (bt_keys handlers) = cd_name ` set (mf_capabilities (ia_manifest app))"
  shows "kernel_inv x (bind_handlers a handlers k)"
  using assms by (auto simp: kernel_inv_def bind_handlers_def handlers_ok_def bt_get_insert)

lemma commit_rebind_keeps:
  assumes inv: "kernel_inv x k" and ok: "prepared_install_ok (il_prepared approval)"
    and hashes: "require_provider_content_hashes k (pl_provider_content_hashes (il_prepared approval)) = Ok ()"
    and binding: "require_handler_binding (sm_manifest (pl_sealed_manifest (il_prepared approval)))
      (pl_handlers (il_prepared approval)) = Ok ()"
  shows "keeps_inv x (commit_rebind env approval) k"
proof -
  let ?p = "il_prepared approval" and ?m = "sm_manifest (pl_sealed_manifest (il_prepared approval))"
  note D = kernel_invD[OF inv]
  show ?thesis
  proof (cases "bt_get (rg_apps (k_registry k)) (mf_app_id ?m)")
    case None
    then show ?thesis
      using inv by (auto simp: commit_rebind_def Let_def wp_simps registry_app_def)
  next
    case (Some app)
    show ?thesis
    proof (cases "ia_manifest app = ?m")
      case False
      with Some inv show ?thesis by (auto simp: commit_rebind_def Let_def wp_simps registry_app_def)
    next
      case same: True
      have valid: "\<forall>r\<in>set (mf_grant_requests ?m). ds_validate (rq_data_scope r) = Ok ()"
        using locally_valid_requests[OF registry_invD(2)[OF D(1) Some]] by (simp add: sealed_of_def same)
      have asked: "\<forall>r\<in>set (mf_grant_requests ?m).
          prompt_decision (pl_grant_prompts ?p) (il_grant_decisions approval) r \<noteq> None \<longrightarrow>
          bt_contains (rg_apps (k_registry k)) (scope_provider (rq_scope r))"
        using ok Some require_hashes_Ok[OF hashes]
        by (fastforce simp: prepared_install_ok_def bt_contains_iff dest!: prompt_decision_Some)
      have present: "bt_contains (rg_apps (k_registry k)) (mf_app_id ?m)"
        using Some by (simp add: bt_contains_iff)
      obtain b rs issued where r: "reconcile_manifest_grants env (k_broker k) (mf_app_id ?m) (mf_grant_requests ?m)
          (pl_grant_origin ?p) (pl_grant_prompts ?p) (il_grant_decisions approval) = Ok (b, rs, issued)"
          "broker_inv b" "grants_ok (k_registry k) b"
        by (rule reconcile_keeps[OF D(3,9) present valid asked])
      have bound: "kernel_inv x (bind_handlers (mf_app_id ?m) (pl_handlers ?p) k')"
        if "kernel_inv x k'" "k_registry k' = k_registry k" for k'
        using bind_handlers_inv[OF that(1)] that(2) Some handler_binding_keys[OF binding] same by simp
      show ?thesis
        unfolding commit_rebind_def Let_def
        using inv r Some same bound kernel_inv_broker[OF inv r(2,3)]
        by (auto simp: wp_simps registry_app_def split!: result.splits if_splits
            intro!: wp_commit_state_of intro: failed_commit_inv)
    qed
  qed
qed

section \<open>Fresh installation\<close>

lemma registry_extended_inv:
  assumes inv: "kernel_inv x k" and reg: "registry_inv x reg"
    and sup: "\<And>a app. bt_get (rg_apps (k_registry k)) a = Some app \<Longrightarrow> bt_get (rg_apps reg) a = Some app"
    and b: "broker_inv b" "grants_ok reg b"
  shows "kernel_inv x (k\<lparr>k_store := stored k (durable_of_parts reg (k_ledger k) b (k_artifacts k)),
    k_registry := reg, k_broker := b\<rparr>)"
proof -
  note D = kernel_invD[OF inv]
  have mem: "bt_contains (rg_apps (k_registry k)) a \<Longrightarrow> bt_contains (rg_apps reg) a" for a
    using sup by (auto simp: bt_contains_iff)
  have "open_declared reg (k_surfaces k)"
    using D(7) sup by (fastforce simp: open_declared_def registry_surface_def is_ok_iff bind_r_Ok_iff)
  moreover have "runs_ok reg (lg_runs (k_ledger k))" using D(8) mem by (auto simp: runs_ok_def)
  moreover have "handlers_ok reg (k_handlers k)" using D(10) sup by (fastforce simp: handlers_ok_def)
  moreover have "pending_ok reg (lg_runs (k_ledger k)) (k_pending k)"
    using D(11) mem by (fastforce simp: pending_ok_def pending_fits_def)
  ultimately show ?thesis
    using D reg b by (intro kernel_invI) (simp_all add: coherent_stored durable_of_def)
qed

lemma validate_install_requests_Ok:
  assumes "validate_install_grant_requests k m = Ok u" "r \<in> set (mf_grant_requests m)"
  shows "scope_provider (rq_scope r) = mf_app_id m \<or>
    bt_contains (rg_apps (k_registry k)) (scope_provider (rq_scope r))"
proof -
  have "validate_request k m Reject r = Ok ()"
    using assms by (auto simp: validate_install_grant_requests_def validate_grant_requests_def)
  then show ?thesis
    by (cases "rq_scope r")
      (auto simp: validate_request_def tolerate_def bt_contains_iff split: if_splits dest!: registry_capability_Ok)
qed

lemma grants_ok_mono:
  "grants_ok reg b \<Longrightarrow> (\<And>a. bt_contains (rg_apps reg) a \<Longrightarrow> bt_contains (rg_apps reg') a) \<Longrightarrow> grants_ok reg' b"
  by (auto simp: grants_ok_def)

lemma commit_fresh_keeps:
  assumes inv: "kernel_inv x k"
    and binding: "require_handler_binding (sm_manifest (pl_sealed_manifest (il_prepared approval)))
      (pl_handlers (il_prepared approval)) = Ok ()"
  shows "keeps_inv x (commit_fresh x env approval) k"
proof -
  let ?p = "il_prepared approval" and ?s = "pl_sealed_manifest (il_prepared approval)"
  let ?m = "sm_manifest ?s"
  note D = kernel_invD[OF inv]
  have step: "\<exists>b rs issued. reconcile_manifest_grants env (k_broker k) (mf_app_id ?m) (mf_grant_requests ?m)
        (pl_grant_origin ?p) (pl_grant_prompts ?p) (il_grant_decisions approval) = Ok (b, rs, issued) \<and>
      kernel_inv x (bind_handlers (mf_app_id ?m) (pl_handlers ?p)
        (k\<lparr>k_store := stored k (durable_of_parts reg (k_ledger k) b (k_artifacts k)), k_registry := reg, k_broker := b\<rparr>))"
    if v: "validate_install_grant_requests k ?m = Ok ()"
      and i: "registry_install x now (k_registry k) ?s = Ok (app, reg)" for now app reg
  proof -
    from i have valid: "locally_valid x ?s" and new: "bt_get (rg_apps (k_registry k)) (mf_app_id ?m) = None"
      and app: "ia_manifest app = ?m" and reg: "reg = (k_registry k)\<lparr>rg_apps := bt_insert (mf_app_id ?m) app (rg_apps (k_registry k))\<rparr>"
      by (auto simp: registry_install_Ok_iff)
    have asked: "\<forall>r\<in>set (mf_grant_requests ?m).
        prompt_decision (pl_grant_prompts ?p) (il_grant_decisions approval) r \<noteq> None \<longrightarrow>
        bt_contains (rg_apps reg) (scope_provider (rq_scope r))"
      using validate_install_requests_Ok[OF v] by (auto simp: reg)
    have here: "grants_ok reg (k_broker k)" "bt_contains (rg_apps reg) (mf_app_id ?m)"
      by (auto simp: reg intro: grants_ok_mono[OF D(9)])
    obtain b rs issued where r: "reconcile_manifest_grants env (k_broker k) (mf_app_id ?m) (mf_grant_requests ?m)
        (pl_grant_origin ?p) (pl_grant_prompts ?p) (il_grant_decisions approval) = Ok (b, rs, issued)"
        "broker_inv b" "grants_ok reg b"
      by (rule reconcile_keeps[OF D(3) here locally_valid_requests[OF valid] asked])
    have "kernel_inv x (k\<lparr>k_store := stored k (durable_of_parts reg (k_ledger k) b (k_artifacts k)),
        k_registry := reg, k_broker := b\<rparr>)"
      using new by (intro registry_extended_inv[OF inv registry_install_inv[OF D(1) i] _ r(2,3)])
        (auto simp: reg bt_get_insert)
    then have "kernel_inv x (bind_handlers (mf_app_id ?m) (pl_handlers ?p)
        (k\<lparr>k_store := stored k (durable_of_parts reg (k_ledger k) b (k_artifacts k)), k_registry := reg, k_broker := b\<rparr>))"
      by (rule bind_handlers_inv[where app = app]) (simp_all add: reg app handler_binding_keys[OF binding])
    with r(1) show ?thesis by blast
  qed
  show ?thesis
  proof (cases "is_ok (validate_install_grant_requests k ?m) \<and> is_ok (registry_install x (env_now env) (k_registry k) ?s)")
    case False
    then show ?thesis
      unfolding commit_fresh_def Let_def
      using inv by (auto simp: wp_simps split!: result.splits if_splits)
  next
    case True
    then obtain app reg where v: "validate_install_grant_requests k ?m = Ok ()"
      and i: "registry_install x (env_now env) (k_registry k) ?s = Ok (app, reg)"
      by (auto simp: is_ok_iff)
    from step[OF v i] v i inv show ?thesis
      unfolding commit_fresh_def Let_def
      by (auto simp: wp_simps split!: result.splits if_splits
          intro!: wp_commit_state_of intro: failed_commit_inv)
  qed
qed

section \<open>Upgrade\<close>

lemma upgrade_app_maintains: "maintains x (upgrade_app x env sealed handlers)"
proof (rule maintainsI)
  fix k assume inv: "kernel_inv x k"
  note D = kernel_invD[OF inv]
  let ?a = "mf_app_id (sm_manifest sealed)"
  have step: "kernel_inv x (bind_handlers ?a handlers
      (k\<lparr>k_store := stored k (durable_of_parts reg (k_ledger k) (k_broker k) (k_artifacts k)), k_registry := reg\<rparr>))"
    if binding: "require_handler_binding (sm_manifest sealed) handlers = Ok ()"
      and u: "registry_upgrade x (k_registry k) sealed = Ok reg" for reg
  proof -
    from u obtain old where old: "bt_get (rg_apps (k_registry k)) ?a = Some old"
      and same: "has_same_upgrade_contract (ia_manifest old) (sm_manifest sealed)"
      and u': "reg = (k_registry k)\<lparr>rg_apps := bt_insert ?a \<lparr>ia_manifest = sm_manifest sealed,
        ia_content_hash = sm_content_hash sealed, ia_installed_at = ia_installed_at old\<rparr> (rg_apps (k_registry k))\<rparr>"
      by (auto simp: registry_upgrade_Ok_iff)
    define new where "new = \<lparr>ia_manifest = sm_manifest sealed, ia_content_hash = sm_content_hash sealed,
      ia_installed_at = ia_installed_at old\<rparr>"
    have new: "ia_manifest new = sm_manifest sealed" by (simp add: new_def)
    have reg: "reg = (k_registry k)\<lparr>rg_apps := bt_insert ?a new (rg_apps (k_registry k))\<rparr>"
      using u' by (simp add: new_def)
    have mem: "bt_contains (rg_apps reg) a = bt_contains (rg_apps (k_registry k)) a" for a
      using old by (auto simp: reg bt_contains_def bt_get_insert)
    have "open_declared reg (k_surfaces k)"
      using D(7) upgrade_keeps_lookups(2)[OF u] by (simp add: open_declared_def)
    moreover have "runs_ok reg (lg_runs (k_ledger k))" using D(8) by (auto simp: runs_ok_def mem)
    moreover have "grants_ok reg (k_broker k)" using D(9) by (auto simp: grants_ok_def mem)
    moreover have "handlers_ok reg (k_handlers k)"
      using D(10) old upgrade_contract_authority(2)[OF same]
      by (fastforce simp: handlers_ok_def reg bt_get_insert new)
    moreover have "pending_ok reg (lg_runs (k_ledger k)) (k_pending k)"
      using D(11) by (auto simp: pending_ok_def pending_fits_def mem)
    ultimately have "kernel_inv x (k\<lparr>k_store := stored k (durable_of_parts reg (k_ledger k) (k_broker k) (k_artifacts k)),
        k_registry := reg\<rparr>)"
      using D registry_upgrade_inv[OF D(1) u] by (intro kernel_invI) (simp_all add: coherent_stored durable_of_def)
    then show ?thesis
      by (rule bind_handlers_inv[where app = new]) (simp_all add: reg new handler_binding_keys[OF binding])
  qed
  show "keeps_inv x (upgrade_app x env sealed handlers) k"
    unfolding upgrade_app_def Let_def
    using inv step
    by (auto simp: wp_simps split!: result.splits intro!: wp_commit_state_of intro: failed_commit_inv)
qed

section \<open>Tearing an app down\<close>

lemma in_active_runs_for_app:
  "r \<in> set (active_runs_for_app l a) \<longleftrightarrow>
     (\<exists>s. bt_get (lg_runs l) r = Some s \<and> ri_active s \<and> ri_initiating_app s = a)"
  by (force simp: active_runs_for_app_def in_entries_iff)

lemma run_end_events_shape:
  "\<forall>e\<in>set (run_end_events k a). \<not> is_start e"
  "(\<exists>e\<in>set (run_end_events k a). is_end e \<and> ev_run_id e = r) \<longleftrightarrow> r \<in> set (active_runs_for_app (k_ledger k) a)"
proof -
  let ?cs = "pending_cancellation_events_for_app k a"
  let ?ends = "map (\<lambda>run_id. RunEnded run_id RunCancelled) (active_runs_for_app (k_ledger k) a)"
  have cs: "\<not> is_start e \<and> \<not> is_end e" if "e \<in> set ?cs" for e
    using that by (auto simp: pending_cancellation_events_for_app_def cancellation_event_def)
  then show "\<forall>e\<in>set (run_end_events k a). \<not> is_start e" by (auto simp: run_end_events_def)
  have "(\<exists>e\<in>set (?cs @ ?ends). is_end e \<and> ev_run_id e = r) \<longleftrightarrow> (\<exists>e\<in>set ?ends. is_end e \<and> ev_run_id e = r)"
    unfolding set_append bex_Un using cs by blast
  also have "\<dots> \<longleftrightarrow> r \<in> set (active_runs_for_app (k_ledger k) a)" by auto
  finally show "(\<exists>e\<in>set (run_end_events k a). is_end e \<and> ev_run_id e = r) \<longleftrightarrow> r \<in> set (active_runs_for_app (k_ledger k) a)"
    by (simp only: run_end_events_def)
qed

lemma torn_down_runs:
  assumes inv: "kernel_inv x k"
    and b: "append_batch now (k_ledger k) (run_end_events k a) = Ok (rs, ledger)"
    and reg: "\<And>c. c \<noteq> a \<Longrightarrow> bt_contains (rg_apps reg) c = bt_contains (rg_apps (k_registry k)) c"
  shows "runs_ok reg (lg_runs ledger)"
    and "pending_ok reg (lg_runs ledger) (bt_retain (\<lambda>_ p. \<not> concerns_app a p) (k_pending k))"
proof -
  note entry = append_batch_entry[OF b run_end_events_shape(1), unfolded run_end_events_shape(2)]
  note D = kernel_invD[OF inv]
  show "runs_ok reg (lg_runs ledger)"
    unfolding runs_ok_def
  proof (intro allI impI)
    fix r s assume "bt_get (lg_runs ledger) r = Some s" "ri_active s"
    then obtain s0 where s0: "bt_get (lg_runs (k_ledger k)) r = Some s0"
        "s = (if r \<in> set (active_runs_for_app (k_ledger k) a) then s0\<lparr>ri_active := False\<rparr> else s0)"
      using entry[of r] by (cases "bt_get (lg_runs (k_ledger k)) r") simp_all
    with \<open>ri_active s\<close> have s: "bt_get (lg_runs (k_ledger k)) r = Some s"
        "r \<notin> set (active_runs_for_app (k_ledger k) a)"
      by (cases "r \<in> set (active_runs_for_app (k_ledger k) a)"; simp)+
    then have "ri_initiating_app s \<noteq> a" using \<open>ri_active s\<close> by (auto simp: in_active_runs_for_app)
    moreover have "bt_contains (rg_apps (k_registry k)) (ri_initiating_app s)"
      using D(8) s(1) \<open>ri_active s\<close> by (auto simp: runs_ok_def)
    ultimately show "bt_contains (rg_apps reg) (ri_initiating_app s)" by (simp add: reg)
  qed
  show "pending_ok reg (lg_runs ledger) (bt_retain (\<lambda>_ p. \<not> concerns_app a p) (k_pending k))"
    unfolding pending_ok_def
  proof (intro allI impI)
    fix i p assume "bt_get (bt_retain (\<lambda>_ p. \<not> concerns_app a p) (k_pending k)) i = Some p"
    then have p: "bt_get (k_pending k) i = Some p" "\<not> concerns_app a p" by simp_all
    with D(11) have "pending_fits (k_registry k) (lg_runs (k_ledger k)) p" by (auto simp: pending_ok_def)
    with p(2) reg show "pending_fits reg (lg_runs ledger) p"
      by (auto simp: pending_fits_def entry in_active_runs_for_app concerns_app_def)
  qed
qed

lemma strip_authority_frame:
  "br_grants (strip_authority b a) = br_grants b"
  "bt_contains (br_revoked (strip_authority b a)) i \<longleftrightarrow> bt_contains (br_revoked b) i \<or>
     (\<exists>g. bt_get (br_grants b) i = Some g \<and> (gr_holder g = a \<or> scope_provider (gr_scope g) = a))"
  by (auto simp: strip_authority_def clear_all_for_def revoke_all_over_def revoke_all_for_def revoke_where_contains)

lemma strip_authority_inv: "broker_inv b \<Longrightarrow> broker_inv (strip_authority b a)"
  by (simp add: strip_authority_def clear_all_for_def revoke_all_over_def revoke_all_for_def revoke_where_inv)

lemma stripped_grants_ok:
  assumes "grants_ok reg b"
    and "\<And>c. c \<noteq> a \<Longrightarrow> bt_contains (rg_apps reg') c = bt_contains (rg_apps reg) c"
  shows "grants_ok reg' (strip_authority b a)"
  using assms by (fastforce simp: grants_ok_def strip_authority_frame)

lemma closed_surfaces_declared:
  assumes "open_declared reg s" "\<And>c. c \<noteq> a \<Longrightarrow> bt_get (rg_apps reg') c = bt_get (rg_apps reg) c"
  shows "open_declared reg' (close_all_for s a)"
  using assms by (auto simp: open_declared_def registry_surface_def registry_app_def)

lemma release_runs_inv: "leases_inv m \<Longrightarrow> leases_inv (release_runs rs m)"
  unfolding release_runs_def by (induction rs arbitrary: m) (auto intro: release_all_inv)

lemma discard_bounded: "inboxes_bounded m \<Longrightarrow> inboxes_bounded (discard_inbox m a)"
  by (auto simp: inboxes_bounded_def discard_inbox_def bt_get_remove split: if_splits)

lemma torn_down_inv:
  assumes inv: "kernel_inv x k"
    and batch: "append_batch now (k_ledger k) (run_end_events k a) = Ok (rs, ledger)"
    and reg: "registry_inv x reg" "\<And>c. c \<noteq> a \<Longrightarrow> bt_get (rg_apps reg) c = bt_get (rg_apps (k_registry k)) c"
    and b: "broker_inv b" "grants_ok reg b" and h: "handlers_ok reg h"
    and k': "k_store k' = stored k (durable_of_parts reg ledger b (k_artifacts k))"
      "k_ledger k' = ledger" "k_broker k' = b" "k_registry k' = reg" "k_artifacts k' = k_artifacts k"
      "k_pending k' = bt_retain (\<lambda>_ p. \<not> concerns_app a p) (k_pending k)"
      "k_leases k' = release_runs runs (k_leases k)"
      "k_router k' = discard_inbox (publish_batch (k_router k) views reg) a"
      "k_surfaces k' = close_all_for (k_surfaces k) a" "k_handlers k' = h"
  shows "kernel_inv x k'"
proof -
  note D = kernel_invD[OF inv]
  have mem: "c \<noteq> a \<Longrightarrow> bt_contains (rg_apps reg) c = bt_contains (rg_apps (k_registry k)) c" for c
    by (simp add: bt_contains_def reg(2))
  show ?thesis
    using D(4) append_batch_inv[OF D(2) batch] reg(1) b h torn_down_runs[OF inv batch mem]
      closed_surfaces_declared[OF D(7) reg(2)] release_runs_inv[OF D(5)]
      discard_bounded[OF publish_batch_bounded[OF reg(1) D(6)]]
    by (intro kernel_invI) (simp_all add: k' coherent_stored durable_of_def)
qed

lemma uninstall_maintains: "maintains x (kernel_uninstall env a)"
proof (rule maintainsI)
  fix k assume inv: "kernel_inv x k"
  note D = kernel_invD[OF inv]
  let ?reg = "(k_registry k)\<lparr>rg_apps := bt_remove a (rg_apps (k_registry k))\<rparr>"
  have h: "handlers_ok ?reg (bt_remove a (k_handlers k))"
    using D(10) by (auto simp: handlers_ok_def bt_get_remove)
  have g: "grants_ok ?reg (strip_authority (k_broker k) a)"
    by (rule stripped_grants_ok[OF D(9)]) simp
  have reg: "registry_inv x ?reg" using D(1) by (auto simp: registry_inv_def bt_get_remove)
  note down = torn_down_inv[OF inv _ reg _ strip_authority_inv[OF D(3)] g h,
      where now = "env_now env" and runs = "active_runs_for_app (k_ledger k) a"]
  show "keeps_inv x (kernel_uninstall env a) k"
    unfolding kernel_uninstall_def Let_def
    using inv
    by (auto simp: wp_simps registry_uninstall_Ok_iff remove_pending_for_app_def remove_pending_where_def bt_get_remove
        split!: result.splits intro!: wp_commit_state_of intro: failed_commit_inv down)
qed

section \<open>Replacement\<close>

lemma replace_keeps:
  assumes inv: "kernel_inv x k"
    and binding: "require_handler_binding (sm_manifest (pl_sealed_manifest (il_prepared approval)))
      (pl_handlers (il_prepared approval)) = Ok ()"
  shows "keeps_inv x (replace_installed_app x env approval prev) k"
proof -
  let ?p = "il_prepared approval" and ?s = "pl_sealed_manifest (il_prepared approval)"
  let ?m = "sm_manifest ?s"
  let ?a = "mf_app_id ?m" and ?strip = "strip_authority (k_broker k) (mf_app_id ?m)"
  let ?empty = "(k_registry k)\<lparr>rg_apps := bt_remove ?a (rg_apps (k_registry k))\<rparr>"
  note D = kernel_invD[OF inv]
  show ?thesis
  proof (cases "is_ok (validate_install_grant_requests k ?m) \<and> is_ok (registry_install x (env_now env) ?empty ?s)")
    case False
    then show ?thesis
      unfolding replace_installed_app_def Let_def
      using inv by (auto simp: wp_simps registry_uninstall_Ok_iff split!: result.splits if_splits)
  next
    case True
    then obtain app reg where v: "validate_install_grant_requests k ?m = Ok ()"
      and i: "registry_install x (env_now env) ?empty ?s = Ok (app, reg)" by (auto simp: is_ok_iff)
    from i have valid: "locally_valid x ?s" and app: "ia_manifest app = ?m"
      and reg: "reg = ?empty\<lparr>rg_apps := bt_insert ?a app (rg_apps ?empty)\<rparr>"
      by (auto simp: registry_install_Ok_iff)
    have other: "c \<noteq> ?a \<Longrightarrow> bt_get (rg_apps reg) c = bt_get (rg_apps (k_registry k)) c" for c
      by (simp add: reg bt_get_insert bt_get_remove)
    have here: "bt_contains (rg_apps reg) ?a" by (simp add: reg)
    have others: "c \<noteq> ?a \<Longrightarrow> bt_contains (rg_apps reg) c = bt_contains (rg_apps (k_registry k)) c" for c
      by (simp add: bt_contains_def other)
    have asked: "\<forall>r\<in>set (mf_grant_requests ?m).
        prompt_decision (pl_grant_prompts ?p) (il_grant_decisions approval) r \<noteq> None \<longrightarrow>
        bt_contains (rg_apps reg) (scope_provider (rq_scope r))"
      using validate_install_requests_Ok[OF v] here others by metis
    obtain b rs issued where r: "reconcile_manifest_grants env ?strip ?a (mf_grant_requests ?m)
        (pl_grant_origin ?p) (pl_grant_prompts ?p) (il_grant_decisions approval) = Ok (b, rs, issued)"
        "broker_inv b" "grants_ok reg b"
      by (rule reconcile_keeps[OF strip_authority_inv[OF D(3)] stripped_grants_ok[OF D(9) others] here
            locally_valid_requests[OF valid] asked])
    have reg_inv: "registry_inv x reg"
      by (rule registry_install_inv[OF _ i]) (use D(1) in \<open>auto simp: registry_inv_def bt_get_remove\<close>)
    have h: "handlers_ok reg (bt_insert ?a (pl_handlers ?p) (k_handlers k))"
      using D(10) handler_binding_keys[OF binding]
      by (auto simp: handlers_ok_def bt_get_insert other reg app split: if_splits)
    note down = torn_down_inv[OF inv _ reg_inv other r(2,3) h,
        where now = "env_now env" and runs = "active_runs_for_app (k_ledger k) ?a"]
    show ?thesis
      unfolding replace_installed_app_def Let_def
      using inv v i r(1)
      by (auto simp: wp_simps registry_uninstall_Ok_iff remove_pending_for_app_def remove_pending_where_def
          bind_handlers_def split!: result.splits if_splits intro!: wp_commit_inv[OF inv] down)
  qed
qed

lemma commit_install_keeps:
  assumes "kernel_inv x k" "prepared_install_ok (il_prepared approval)"
  shows "keeps_inv x (commit_install x env approval) k"
  using assms commit_rebind_keeps[OF assms] commit_fresh_keeps[OF assms(1)] replace_keeps[OF assms(1)]
  unfolding commit_install_def Let_def
  by (auto simp: wp_simps(1-7) wp_lift_k split!: result.splits install_mode.splits)

end
