(* ===== verification/Kernel_Restart.thy ===== *)
theory Kernel_Restart
  imports Kernel_Keeps_Install "HOL-Library.Sublist"
begin

text \<open>
  Starting a kernel from its store. Whatever the store holds, a start that succeeds yields a
  kernel that satisfies the invariant and whose history is closed; and a start from what a
  running kernel last stored restores its catalog, grants, revocations and artifacts.
\<close>

lemma restored_apps: "registry_restore x apps = Ok r \<Longrightarrow> set (installed_apps r) = set apps"
  using btm.load_step_sound[of "restore_app x", OF restore_app_step, of bt_empty apps "rg_apps r"]
  by (auto simp: registry_restore_def installed_apps_def in_values_iff)

lemma restored_grants:
  "broker_restore grants revoked = Ok b \<Longrightarrow> set (durable_grants b) = set grants \<and>
     set (durable_revocations b) = set revoked \<and> br_secrets b = bt_empty"
  using btm.load_step_sound[of restore_grant, OF restore_grant_step, of bt_empty grants "br_grants b"]
  by (auto simp: broker_restore_def bind_r_Ok_iff Let_def durable_grants_def durable_revocations_def
      in_values_iff split: if_splits)

lemma restored_artifacts: "artifact_restore artifacts = Ok st \<Longrightarrow> set (artifact_all st) = set artifacts"
  using btm.load_step_sound[of restore_artifact, OF restore_artifact_step, of bt_empty artifacts "st_artifacts st"]
  by (auto simp: artifact_restore_def artifact_all_def in_values_iff)

lemma recovered_grants_ok:
  assumes "validate_recovered_state k = Ok u" "broker_inv (k_broker k)"
  shows "grants_ok (k_registry k) (k_broker k)"
  unfolding grants_ok_def
proof (intro allI impI)
  fix i g
  assume g: "bt_get (br_grants (k_broker k)) i = Some g" "\<not> bt_contains (br_revoked (k_broker k)) i"
  have id: "gr_grant_id g = i" using assms(2) g(1) by (auto simp: broker_inv_def)
  have mem: "g \<in> set (durable_grants (k_broker k))"
    using g(1) by (auto simp: durable_grants_def in_values_iff)
  have "validate_recovered_grant k (bs_of_list (durable_revocations (k_broker k))) g = Ok ()"
    using assms(1) mem by (auto simp: validate_recovered_state_def Let_def bind_r_Ok_iff split: if_splits)
  then show "bt_contains (rg_apps (k_registry k)) (gr_holder g) \<and>
      bt_contains (rg_apps (k_registry k)) (scope_provider (gr_scope g))"
    using g(2) id
    by (auto simp: validate_recovered_grant_def Let_def bind_r_Ok_iff durable_revocations_def bt_contains_iff
        split: if_splits)
qed

lemma no_active_runs_ok: "active_run_ids l = [] \<Longrightarrow> runs_ok reg (lg_runs l)"
  unfolding runs_ok_def using in_active_run_ids[of _ l] by auto

lemma incomplete_cancellations_shape:
  assumes "incomplete_invocation_cancellations l = Ok cs" "e \<in> set cs"
  shows "\<exists>r c d. e = InvocationCancelled r c d"
proof -
  from assms(1) obtain outstanding where
    "cs = concat (map (\<lambda>(run_id, actions). cancellation_events_of run_id actions) (bt_entries outstanding))"
    by (auto simp: incomplete_invocation_cancellations_def bind_r_Ok_iff)
  with assms(2) obtain r actions where "e \<in> set (cancellation_events_of r actions)" by auto
  then show ?thesis by (auto dest: cancellation_events_shape)
qed

lemma restored_closed:
  assumes restore: "ledger_restore now records = Ok l" and active: "active_run_ids l = []"
  shows "closed_ledger l"
proof -
  from assms(1) have "is_ok (incomplete_invocation_cancellations l)"
    by (auto simp: ledger_restore_Ok_iff incomplete_invocation_cancellations_def is_ok_iff)
  then obtain cs where cs: "incomplete_invocation_cancellations l = Ok cs" by (auto simp: is_ok_iff)
  from recovery_closes[OF restore cs, of now] obtain rs l' where
    b: "append_batch now l cs = Ok (rs, l')" and c: "closed_ledger l'" using active by auto
  have "cs = []"
  proof (rule ccontr)
    assume "cs \<noteq> []"
    then obtain e es where e: "cs = e # es" by (cases cs) auto
    from b have "try_fold ledger_step (lg_runs l) cs = Ok (lg_runs l')" by (rule append_batch_fold)
    then obtain mid where step: "ledger_step (lg_runs l) e = Ok mid" by (auto simp: e bind_r_Ok_iff)
    from incomplete_cancellations_shape[OF cs, of e] have "\<not> is_start e" by (auto simp: e)
    with step obtain s where "bt_get (lg_runs l) (ev_run_id e) = Some s" "ri_active s"
      by (cases e) (auto simp: ledger_step_Ok_iff validate_append_Ok_iff)
    then show False using active in_active_run_ids[of "ev_run_id e" l] by auto
  qed
  with b c show ?thesis by (simp add: append_batch_def)
qed

lemma loaded_inv:
  assumes reg: "registry_restore x (du_installed_apps state) = Ok (k_registry k)"
    and ledger: "ledger_restore now (du_ledger_records state) = Ok (k_ledger k)"
    and broker: "broker_restore (du_grants state) (du_revoked_grant_ids state) = Ok (k_broker k)"
    and artifacts: "artifact_restore (du_artifacts state) = Ok (k_artifacts k)"
    and valid: "validate_recovered_state k = Ok ()"
    and rest: "k_store k = Some (Some state)" "k_surfaces k = surface_manager_new" "k_router k = router_new"
      "k_leases k = lease_manager_new" "k_handlers k = bt_empty" "k_pending k = bt_empty"
  shows "interrupt_active_runs env k = (Ok (), k') \<Longrightarrow> kernel_inv x k' \<and> closed_ledger (k_ledger k') \<and>
      k_registry k' = k_registry k \<and> k_broker k' = k_broker k \<and> k_artifacts k' = k_artifacts k \<and>
      prefix (lg_records (k_ledger k)) (lg_records (k_ledger k'))"
proof -
  have ledger_inv: "ledger_inv (k_ledger k)" by (rule ledger_restore_inv[OF ledger])
  have grants: "grants_ok (k_registry k) (k_broker k)"
    by (rule recovered_grants_ok[OF valid broker_restore_inv[OF broker]])
  note services = registry_restore_inv[OF reg] broker_restore_inv[OF broker] artifact_restore_inv[OF artifacts]
  have same: "same_state state (durable_of k)"
    using restored_apps[OF reg] restored_grants[OF broker] restored_artifacts[OF artifacts] ledger
    by (simp add: same_state_def durable_of_def durable_of_parts_def ledger_restore_Ok_iff)
  assume run: "interrupt_active_runs env k = (Ok (), k')"
  show ?thesis
  proof (cases "active_run_ids (k_ledger k) = []")
    case True
    then have "k' = k" using run by (simp add: interrupt_active_runs_def gets_def bind_s_def)
    with services ledger_inv grants same rest show ?thesis
      using no_active_runs_ok[OF True, of "k_registry k"] restored_closed[OF ledger True]
      by (auto intro!: kernel_invI simp: handlers_ok_def pending_ok_def coherent_def)
  next
    case False
    let ?ends = "map (\<lambda>run_id. RunEnded run_id RunInterrupted) (active_run_ids (k_ledger k))"
    have ok: "closed_ledger ledger' \<and> prefix (lg_records (k_ledger k)) (lg_records ledger') \<and> kernel_inv x
        (k\<lparr>k_store := stored k (durable_of_parts (k_registry k) ledger' (k_broker k) (k_artifacts k)),
           k_ledger := ledger', k_router := publish_batch (k_router k) views (k_registry k)\<rparr>)"
      if cs: "incomplete_invocation_cancellations (k_ledger k) = Ok cs"
        and b: "append_batch (env_now env) (k_ledger k) (cs @ ?ends) = Ok (rs, ledger')" for cs rs ledger' views
    proof -
      from recovery_closes[OF ledger cs, of "env_now env"] b have closed: "closed_ledger ledger'" by auto
      then have inv: "ledger_inv ledger'" "active_run_ids ledger' = []" by (auto simp: closed_ledger_def)
      have "inboxes_bounded (publish_batch (k_router k) views (k_registry k))"
        by (rule publish_batch_bounded[OF services(1)]) (simp add: rest)
      with closed services inv grants rest append_batch_records[OF b] no_active_runs_ok[OF inv(2), of "k_registry k"] show ?thesis
        by (auto intro!: kernel_invI simp: handlers_ok_def pending_ok_def coherent_stored durable_of_def)
    qed
    have "wp (interrupt_active_runs env)
        (\<lambda>_ k'. kernel_inv x k' \<and> closed_ledger (k_ledger k') \<and> k_registry k' = k_registry k \<and>
           k_broker k' = k_broker k \<and> k_artifacts k' = k_artifacts k \<and>
           prefix (lg_records (k_ledger k)) (lg_records (k_ledger k'))) (\<lambda>_ _. True) k"
      unfolding interrupt_active_runs_def using False
      by (auto simp: wp_simps ok split!: result.splits intro!: wp_record_batch)
    with run show ?thesis by (simp add: wp_def)
  qed
qed

lemma restore_services_inv:
  assumes "restore_services x env state ((with_clock chrome flags next_id)\<lparr>k_store := Some (Some state)\<rparr>) = (Ok (), k)"
  shows "kernel_inv x k \<and> closed_ledger (k_ledger k) \<and>
    prefix (du_ledger_records state) (lg_records (k_ledger k)) \<and>
    registry_restore x (du_installed_apps state) = Ok (k_registry k) \<and>
    broker_restore (du_grants state) (du_revoked_grant_ids state) = Ok (k_broker k) \<and>
    artifact_restore (du_artifacts state) = Ok (k_artifacts k)"
proof -
  let ?k0 = "(with_clock chrome flags next_id)\<lparr>k_store := Some (Some state)\<rparr>"
  from assms obtain reg ledger broker artifacts where
    parts: "registry_restore x (du_installed_apps state) = Ok reg"
      "ledger_restore (env_now env) (du_ledger_records state) = Ok ledger"
      "broker_restore (du_grants state) (du_revoked_grant_ids state) = Ok broker"
      "artifact_restore (du_artifacts state) = Ok artifacts"
    and valid: "validate_recovered_state (?k0\<lparr>k_registry := reg, k_ledger := ledger, k_broker := broker, k_artifacts := artifacts\<rparr>) = Ok ()"
    and run: "interrupt_active_runs env (?k0\<lparr>k_registry := reg, k_ledger := ledger, k_broker := broker, k_artifacts := artifacts\<rparr>) = (Ok (), k)"
    by (auto simp: restore_services_def lift_k_def bind_s_Ok_iff)
  have "kernel_inv x k \<and> closed_ledger (k_ledger k) \<and> prefix (lg_records ledger) (lg_records (k_ledger k)) \<and> k_registry k = reg \<and> k_broker k = broker \<and> k_artifacts k = artifacts"
    using loaded_inv[OF _ _ _ _ valid _ _ _ _ _ _ run, of x state "env_now env"] parts
    by (simp add: with_clock_def)
  with parts show ?thesis by (simp add: ledger_restore_Ok_iff)
qed

lemma new_kernel_inv: "kernel_inv x ((with_clock chrome flags next_id)\<lparr>k_store := s\<rparr>)"
  if "s = None \<or> s = Some None"
  using that
  by (intro kernel_invI)
    (auto simp: with_clock_def runs_ok_def grants_ok_def handlers_ok_def pending_ok_def coherent_def
      durable_of_def durable_of_parts_def durable_empty_def ledger_new_def registry_new_def broker_new_def
      artifact_store_new_def installed_apps_def durable_grants_def durable_revocations_def artifact_all_def
      bt_values_def bt_keys_def registry_inv_new[unfolded registry_new_def] ledger_inv_new[unfolded ledger_new_def]
      broker_inv_new[unfolded broker_new_def] artifacts_inv_new[unfolded artifact_store_new_def])

lemma start_inv:
  assumes "with_clock_and_state_store x env chrome flags next_id loaded = (Ok (), k)"
  shows "kernel_inv x k"
  using assms restore_services_inv new_kernel_inv
  by (auto simp: with_clock_and_state_store_def Let_def split: result.splits option.splits)

section \<open>What a restart preserves\<close>

lemma registry_ext:
  assumes "registry_inv x r" "registry_inv x r'" "set (installed_apps r) = set (installed_apps r')"
  shows "r = r'"
proof -
  have "bt_get (rg_apps q) a = Some app \<longleftrightarrow> app \<in> set (installed_apps q) \<and> mf_app_id (ia_manifest app) = a"
    if "registry_inv x q" for q a app
    using that by (auto simp: registry_inv_def installed_apps_def in_values_iff)
  with assms have "bt_get (rg_apps r) a = bt_get (rg_apps r') a" for a
    by (intro option_ext) blast
  then have "rg_apps r = rg_apps r'" by (rule bt_ext)
  then show ?thesis by (cases r; cases r') simp
qed

lemma artifact_store_ext:
  assumes "artifacts_inv st" "artifacts_inv st'" "set (artifact_all st) = set (artifact_all st')"
  shows "st = st'"
proof -
  have "bt_get (st_artifacts q) i = Some a \<longleftrightarrow> a \<in> set (artifact_all q) \<and> at_artifact_id a = i"
    if "artifacts_inv q" for q i a
    using that by (auto simp: artifacts_inv_def artifact_all_def in_values_iff)
  with assms have "bt_get (st_artifacts st) i = bt_get (st_artifacts st') i" for i
    by (intro option_ext) blast
  then have "st_artifacts st = st_artifacts st'" by (rule bt_ext)
  then show ?thesis by (cases st; cases st') simp
qed

lemma broker_ext:
  assumes "broker_inv b" "broker_inv b'" "set (durable_grants b) = set (durable_grants b')"
    "set (durable_revocations b) = set (durable_revocations b')" "br_secrets b = br_secrets b'"
  shows "b = b'"
proof -
  have "bt_get (br_grants q) i = Some g \<longleftrightarrow> g \<in> set (durable_grants q) \<and> gr_grant_id g = i"
    if "broker_inv q" for q i g
    using that by (auto simp: broker_inv_def durable_grants_def in_values_iff)
  with assms(1-3) have "bt_get (br_grants b) i = bt_get (br_grants b') i" for i
    by (intro option_ext) blast
  then have grants: "br_grants b = br_grants b'" by (rule bt_ext)
  have "br_revoked b = br_revoked b'"
    by (rule bs_ext) (use assms(4) in \<open>auto simp: durable_revocations_def\<close>)
  with grants assms(5) show ?thesis by (cases b; cases b') simp
qed

lemma restart_same_services:
  assumes inv: "kernel_inv x k" and store: "k_store k = Some (Some c)" "\<not> k_recovery_required k"
    and restart: "with_clock_and_state_store x env chrome flags next_id (Ok (Some c)) = (Ok (), k')"
  shows "k_registry k' = k_registry k \<and> k_broker k' = (k_broker k)\<lparr>br_secrets := bt_empty\<rparr> \<and>
    k_artifacts k' = k_artifacts k \<and> closed_ledger (k_ledger k') \<and>
    prefix (lg_records (k_ledger k)) (lg_records (k_ledger k'))"
proof -
  note D = kernel_invD[OF inv]
  from D(12) store have same: "same_state c (durable_of k)" by (simp add: coherent_def)
  from restart have r: "kernel_inv x k' \<and> closed_ledger (k_ledger k') \<and>
    prefix (du_ledger_records c) (lg_records (k_ledger k')) \<and> registry_restore x (du_installed_apps c) = Ok (k_registry k') \<and>
    broker_restore (du_grants c) (du_revoked_grant_ids c) = Ok (k_broker k') \<and>
    artifact_restore (du_artifacts c) = Ok (k_artifacts k')"
    by (intro restore_services_inv) (simp add: with_clock_and_state_store_def Let_def)
  note D' = kernel_invD[of x k']
  have "k_registry k' = k_registry k"
    by (rule registry_ext[of x]) (use r same D D' restored_apps in \<open>auto simp: same_state_def durable_of_def durable_of_parts_def\<close>)
  moreover have "k_artifacts k' = k_artifacts k"
    by (rule artifact_store_ext)
      (use r same D D' restored_artifacts in \<open>auto simp: same_state_def durable_of_def durable_of_parts_def\<close>)
  moreover have "k_broker k' = (k_broker k)\<lparr>br_secrets := bt_empty\<rparr>"
    by (rule broker_ext)
      (use r same D D' restored_grants in \<open>auto simp: same_state_def durable_of_def durable_of_parts_def
        durable_grants_def durable_revocations_def\<close>)
  ultimately show ?thesis
    using r same by (simp add: same_state_def durable_of_def durable_of_parts_def)
qed

end
