(* ===== verification/Kernel_Evolves.thy ===== *)
theory Kernel_Evolves
  imports Kernel_Restart
begin

text \<open>
  What every operation of the kernel leaves alone, whether it succeeds or fails: the history is
  only extended, a pending invocation stays as it is or is removed, what is removed is
  cancelled or overdue, the capability it names keeps its declaration, flags are never
  cleared, and the grant of a pending invocation stays live unless its flag is set. An operation
  may change the invocations in \<open>J\<close> and remove those in \<open>K\<close>.
\<close>

section \<open>The relation\<close>

text \<open>The grant under which an invocation waits is still issued and not revoked.\<close>

definition backed :: "kernel \<Rightarrow> pending_invocation \<Rightarrow> bool" where
  "backed k p \<longleftrightarrow> bt_get (br_grants (k_broker k)) (gr_grant_id (pn_grant p)) = Some (pn_grant p) \<and>
     \<not> bt_contains (br_revoked (k_broker k)) (gr_grant_id (pn_grant p))"

definition evolves :: "instant \<Rightarrow> u64 set \<Rightarrow> u64 set \<Rightarrow> kernel \<Rightarrow> kernel \<Rightarrow> bool" where
  "evolves now J K k k' \<longleftrightarrow>
     prefix (lg_records (k_ledger k)) (lg_records (k_ledger k')) \<and>
     k_next_invocation_id k' = k_next_invocation_id k \<and>
     (\<forall>i. k_flags k i \<longrightarrow> k_flags k' i) \<and>
     (\<forall>i p. i \<notin> J \<longrightarrow> bt_get (k_pending k') i = Some p \<longrightarrow>
        bt_get (k_pending k) i = Some p \<and>
        registry_capability (k_registry k') (pn_capability p) = registry_capability (k_registry k) (pn_capability p) \<and>
        (\<not> k_flags k' i \<longrightarrow> backed k p \<longrightarrow> backed k' p)) \<and>
     (\<forall>i p. i \<notin> J \<union> K \<longrightarrow> bt_get (k_pending k) i = Some p \<longrightarrow> bt_get (k_pending k') i = None \<longrightarrow>
        k_flags k' i \<or> pn_deadline p \<le> now)"

lemma evolvesI:
  assumes "prefix (lg_records (k_ledger k)) (lg_records (k_ledger k'))"
    "k_next_invocation_id k' = k_next_invocation_id k" "\<And>i. k_flags k i \<Longrightarrow> k_flags k' i"
    "\<And>i p. i \<notin> J \<Longrightarrow> bt_get (k_pending k') i = Some p \<Longrightarrow> bt_get (k_pending k) i = Some p"
    "\<And>i p. i \<notin> J \<Longrightarrow> bt_get (k_pending k') i = Some p \<Longrightarrow>
       registry_capability (k_registry k') (pn_capability p) = registry_capability (k_registry k) (pn_capability p)"
    "\<And>i p. i \<notin> J \<Longrightarrow> bt_get (k_pending k') i = Some p \<Longrightarrow> \<not> k_flags k' i \<Longrightarrow> backed k p \<Longrightarrow> backed k' p"
    "\<And>i p. i \<notin> J \<union> K \<Longrightarrow> bt_get (k_pending k) i = Some p \<Longrightarrow> bt_get (k_pending k') i = None \<Longrightarrow>
       k_flags k' i \<or> pn_deadline p \<le> now"
  shows "evolves now J K k k'"
  unfolding evolves_def using assms by (intro conjI allI impI) blast+

lemma evolvesD:
  assumes "evolves now J K k k'"
  shows "prefix (lg_records (k_ledger k)) (lg_records (k_ledger k'))"
    "k_next_invocation_id k' = k_next_invocation_id k" "k_flags k i \<Longrightarrow> k_flags k' i"
    "i \<notin> J \<Longrightarrow> bt_get (k_pending k') i = Some p \<Longrightarrow> bt_get (k_pending k) i = Some p"
    "i \<notin> J \<Longrightarrow> bt_get (k_pending k') i = Some p \<Longrightarrow>
       registry_capability (k_registry k') (pn_capability p) = registry_capability (k_registry k) (pn_capability p)"
    "i \<notin> J \<Longrightarrow> bt_get (k_pending k') i = Some p \<Longrightarrow> \<not> k_flags k' i \<Longrightarrow> backed k p \<Longrightarrow> backed k' p"
    "i \<notin> J \<union> K \<Longrightarrow> bt_get (k_pending k) i = Some p \<Longrightarrow> bt_get (k_pending k') i = None \<Longrightarrow>
       k_flags k' i \<or> pn_deadline p \<le> now"
  using assms unfolding evolves_def by blast+

lemma evolves_refl [simp, intro]: "evolves now J K k k"
  by (rule evolvesI) auto

lemma evolves_trans [trans]:
  assumes a: "evolves now J K k0 k1" and b: "evolves now J K k1 k2"
  shows "evolves now J K k0 k2"
proof (rule evolvesI)
  show "prefix (lg_records (k_ledger k0)) (lg_records (k_ledger k2))"
    using evolvesD(1)[OF a] evolvesD(1)[OF b] by (rule prefix_order.trans)
  show "k_next_invocation_id k2 = k_next_invocation_id k0"
    using evolvesD(2)[OF a] evolvesD(2)[OF b] by simp
  fix i p
  show "k_flags k0 i \<Longrightarrow> k_flags k2 i" using evolvesD(3)[OF a] evolvesD(3)[OF b] by blast
  { assume J: "i \<notin> J" and p: "bt_get (k_pending k2) i = Some p"
    note p1 = evolvesD(4)[OF b J p]
    show "bt_get (k_pending k0) i = Some p" by (rule evolvesD(4)[OF a J p1])
    show "registry_capability (k_registry k2) (pn_capability p) = registry_capability (k_registry k0) (pn_capability p)"
      using evolvesD(5)[OF b J p] evolvesD(5)[OF a J p1] by simp
    assume "\<not> k_flags k2 i" "backed k0 p"
    then show "backed k2 p"
      using evolvesD(6)[OF b J p] evolvesD(6)[OF a J p1] evolvesD(3)[OF b, of i] by blast }
  assume JK: "i \<notin> J \<union> K" and p: "bt_get (k_pending k0) i = Some p" and gone: "bt_get (k_pending k2) i = None"
  then have J: "i \<notin> J" by simp
  show "k_flags k2 i \<or> pn_deadline p \<le> now"
  proof (cases "bt_get (k_pending k1) i")
    case None
    with evolvesD(7)[OF a JK p] evolvesD(3)[OF b] show ?thesis by blast
  next
    case (Some q)
    with evolvesD(4)[OF a J Some] p have "q = p" by simp
    with evolvesD(7)[OF b JK Some gone] show ?thesis by simp
  qed
qed

lemma evolves_weaken: "evolves now J K k k' \<Longrightarrow> J \<subseteq> J' \<Longrightarrow> K \<subseteq> J' \<union> K' \<Longrightarrow> evolves now J' K' k k'"
  unfolding evolves_def by blast

text \<open>An update that touches neither the history, nor the invocations, nor their authority.\<close>

lemma evolves_frame:
  assumes "prefix (lg_records (k_ledger k)) (lg_records (k_ledger k'))" "k_pending k' = k_pending k"
    "k_flags k' = k_flags k" "k_next_invocation_id k' = k_next_invocation_id k"
    "k_registry k' = k_registry k" "br_grants (k_broker k') = br_grants (k_broker k)"
    "br_revoked (k_broker k') = br_revoked (k_broker k)"
  shows "evolves now J K k k'"
  by (rule evolvesI) (use assms in \<open>simp_all add: backed_def\<close>)

lemma failed_commit_evolves: "failed_commit k k' \<Longrightarrow> evolves now J K k k'"
  by (auto simp: failed_commit_def intro!: evolves_frame)

section \<open>Composition\<close>

abbreviation evolving :: "env \<Rightarrow> u64 set \<Rightarrow> u64 set \<Rightarrow> 'a kop \<Rightarrow> bool" where
  "evolving env J K m \<equiv> (\<forall>k. evolves (env_instant env) J K k (snd (m k)))"

lemma evolving_wp:
  "evolves now J K k (snd (m k)) = wp m (\<lambda>_. evolves now J K k) (\<lambda>_. evolves now J K k) k"
  by (simp add: wp_def split: prod.splits result.splits)

lemma evolving_bind [inv_intros]:
  assumes "evolving env J K m" "\<And>a. evolving env J K (f a)"
  shows "evolving env J K (bind_s m f)"
proof
  fix k
  obtain r k1 where m: "m k = (r, k1)" by fastforce
  with assms(1) have "evolves (env_instant env) J K k k1" by (metis snd_conv)
  with assms(2) m show "evolves (env_instant env) J K k (snd (bind_s m f k))"
    by (cases r) (auto simp: bind_s_def intro: evolves_trans)
qed

lemma evolving_basic [inv_intros]:
  "evolving env J K (ret a)" "evolving env J K (fail e)" "evolving env J K (fails e')" "evolving env J K (lift_k f)"
  "evolving env J K (lift_panic g)" "evolving env J K (gets h)"
  by (simp_all add: ret_def fail_def fails_def lift_k_def lift_panic_def lift_r_def gets_def)

lemma evolving_modify [inv_intros]:
  "(\<And>k. evolves (env_instant env) J K k (f k)) \<Longrightarrow> evolving env J K (modify f)"
  by (simp add: modify_def)

lemma evolving_if [inv_intros]:
  "evolving env J K m \<Longrightarrow> evolving env J K m' \<Longrightarrow> evolving env J K (if b then m else m')"
  by simp

lemma evolving_prod [inv_intros]:
  "(\<And>a b. evolving env J K (f a b)) \<Longrightarrow> evolving env J K (case p of (a, b) \<Rightarrow> f a b)"
  by (simp split: prod.splits)

lemma evolving_option [inv_intros]:
  "evolving env J K m \<Longrightarrow> (\<And>a. evolving env J K (f a)) \<Longrightarrow> evolving env J K (case v of None \<Rightarrow> m | Some a \<Rightarrow> f a)"
  by (simp split: option.splits)

lemma evolving_on_err [inv_intros]:
  assumes "evolving env J K m" "\<And>k. evolves (env_instant env) J K k (f k)"
  shows "evolving env J K (on_err m f)"
proof
  fix k
  obtain r k1 where m: "m k = (r, k1)" by fastforce
  with assms(1) have "evolves (env_instant env) J K k k1" by (metis snd_conv)
  with assms(2) m show "evolves (env_instant env) J K k (snd (on_err m f k))"
    by (cases r) (auto simp: on_err_def intro: evolves_trans)
qed

lemma evolving_record_event [inv_intros]: "evolving env J K (record_event env ev)"
  unfolding evolving_wp
  by (intro allI wp_record_event;
      (erule failed_commit_evolves | auto simp: ledger_append_Ok_iff intro!: evolves_frame))

lemma evolving_record_batch [inv_intros]: "evolving env J K (record_batch env evs)"
  unfolding evolving_wp
  by (intro allI wp_record_batch;
      (erule failed_commit_evolves | auto dest!: append_batch_records(1) intro!: evolves_frame))

lemma evolving_commit_completion [inv_intros]: "evolving env J K (commit_completion env evs as)"
  unfolding evolving_wp
  by (intro allI wp_commit_completion;
      (erule failed_commit_evolves | auto dest!: append_batch_records(1) intro!: evolves_frame))

section \<open>Runs, surfaces, leases, secrets\<close>

lemma set_cancelled_iff:
  "set_cancelled p k i \<longleftrightarrow> k_flags k i \<or> (\<exists>q. bt_get (k_pending k) i = Some q \<and> p q)"
proof -
  have "foldl (\<lambda>flags (i, pending). if p pending then flags(i := True) else flags) flags es i \<longleftrightarrow>
      flags i \<or> (\<exists>q. (i, q) \<in> set es \<and> p q)" for flags es
    by (induction es arbitrary: flags) (auto split: if_splits)
  then show ?thesis by (simp add: set_cancelled_def in_entries_iff)
qed

lemma remove_pending_where_evolves [inv_intros]: "evolves now J K k (remove_pending_where p k)"
proof (rule evolvesI)
  fix i q
  show "k_flags (remove_pending_where p k) i \<or> pn_deadline q \<le> now"
    if "bt_get (k_pending k) i = Some q" "bt_get (k_pending (remove_pending_where p k)) i = None"
  proof -
    from that have "p q" using get_remove_pending_where[of p k i q] by auto
    with that(1) show ?thesis by (auto simp: remove_pending_where_def set_cancelled_iff)
  qed
qed (simp_all add: remove_pending_where_def set_cancelled_iff backed_def)

lemma set_flag_evolves [inv_intros]: "evolves now J K k (set_flag i k)"
  by (rule evolvesI) (auto simp: set_flag_def backed_def)

lemma require_recovery_evolves [inv_intros]: "evolves now J K k (require_recovery_after_consumed_transition k)"
  by (rule evolves_frame) (simp_all add: require_recovery_after_consumed_transition_def)

lemma remove_pending_evolves: "i \<in> K \<Longrightarrow> evolves now J K k (remove_pending i k)"
  by (rule evolvesI) (auto simp: remove_pending_def backed_def bt_get_remove split: if_splits)

lemma get_remove_all:
  "bt_get (foldl (\<lambda>m (i, _). bt_remove i m) m es) j = (if j \<in> fst ` set es then None else bt_get m j)"
  by (induction es arbitrary: m) (auto simp: bt_get_remove)

lemma evolving_reap [inv_intros]: "evolving env J K (reap_cancelled_pending env)"
proof
  fix k :: kernel
  let ?now = "env_instant env"
  let ?es = "filter (\<lambda>(i, pending). k_flags k i \<or> ?now \<ge> pn_deadline pending) (bt_entries (k_pending k))"
  have gone: "evolves ?now J K k (foldl (\<lambda>k (i, _). remove_pending i k) (k' :: kernel) ?es)"
    if "prefix (lg_records (k_ledger k)) (lg_records (k_ledger k'))" "k_pending k' = k_pending k"
      "k_flags k' = k_flags k" "k_next_invocation_id k' = k_next_invocation_id k"
      "k_registry k' = k_registry k" "k_broker k' = k_broker k" for k'
    unfolding reap_frame
    by (rule evolvesI)
      (use that in \<open>auto simp: get_remove_all backed_def in_entries_iff split: if_splits\<close>)
  show "evolves ?now J K k (snd (reap_cancelled_pending env k))"
    unfolding reap_cancelled_pending_def evolving_wp wp_simps
    by (auto simp: wp_simps intro!: wp_record_batch gone intro: failed_commit_evolves
        dest!: append_batch_records(1))
qed

lemma evolving_start_run [inv_intros]: "evolving env J K (start_run env i g)"
  unfolding start_run_def Let_def by (intro inv_intros)

lemma evolving_end_run [inv_intros]: "evolving env J K (end_run env r t)"
proof -
  have "evolves now J K k ((remove_pending_for_run r k)\<lparr>k_leases := l\<rparr>)" for now k l
    unfolding remove_pending_for_run_def
    by (rule evolves_trans[OF remove_pending_where_evolves evolves_frame]) simp_all
  then show ?thesis
    unfolding end_run_def Let_def by (intro inv_intros)
qed

lemma evolving_open_surface: "evolving env J K (open_surface env' a n)"
  unfolding open_surface_def
  by (intro inv_intros evolves_frame) simp_all

lemma close_surface_evolves: "evolves now J K k (close_surface b k)"
  by (rule evolves_frame) (simp_all add: close_surface_def)

lemma evolving_show_notice [inv_intros]: "evolving env J K (show_notice n)"
  by (auto simp: show_notice_def intro!: evolves_frame split: result.splits)

lemma evolving_acquire_lease: "evolving env J K (acquire_lease env' r t d)"
  unfolding acquire_lease_def Let_def
  by (intro inv_intros evolves_frame) (simp_all add: inv_intros split: lease_outcome.splits)

lemma secret_evolves:
  "evolves now J K k (put_secret r v k)" "evolves now J K k (clear_secret r k)"
  by (auto simp: put_secret_def clear_secret_def broker_put_secret_def broker_clear_secret_def intro!: evolves_frame)

lemma evolving_drain_inbox: "evolving env J K (kernel_drain_inbox a)"
  unfolding kernel_drain_inbox_def
  by (intro inv_intros evolves_frame) simp_all

lemma evolving_publish: "evolving env J K (publish_app_data_change a ref revision kind)"
  unfolding publish_app_data_change_def by (intro inv_intros evolves_frame) simp_all

lemma cancel_run_evolves: "evolves now J K k (cancel_pending_invocations_for_run r k)"
  by (rule evolvesI)
    (auto simp: cancel_pending_invocations_for_run_def cancel_pending_for_run_def set_cancelled_iff backed_def)

section \<open>Grants\<close>

text \<open>\<open>Uuid::new_v4\<close> does not repeat the id of a grant the broker knows.\<close>

definition fresh_grant_ids :: "env \<Rightarrow> kernel \<Rightarrow> bool" where
  "fresh_grant_ids env k \<longleftrightarrow>
     (\<forall>n. bt_get (br_grants (k_broker k)) (new_grant_id (env_uuid env n)) = None)"

text \<open>A broker in which the grants of another are the same, issued and revoked as before.\<close>

definition extends_grants :: "broker \<Rightarrow> broker \<Rightarrow> bool" where
  "extends_grants b b' \<longleftrightarrow>
     (\<forall>i g. bt_get (br_grants b) i = Some g \<longrightarrow> bt_get (br_grants b') i = Some g) \<and> br_revoked b' = br_revoked b"

lemma extends_grants_refl [simp]: "extends_grants b b"
  by (simp add: extends_grants_def)

lemma extends_grants_trans: "extends_grants a b \<Longrightarrow> extends_grants b c \<Longrightarrow> extends_grants a c"
  by (simp add: extends_grants_def)

lemma issue_extends:
  assumes "issue_with_decision now u b holder request origin d = Ok (r, b')"
    and "bt_get (br_grants b0) (new_grant_id u) = None" "extends_grants b0 b"
  shows "extends_grants b0 b'"
  using assms(1) by (cases rule: issue_Ok_cases) (use assms(2,3) in \<open>auto simp: extends_grants_def bt_get_insert\<close>)

lemma extended_evolves:
  assumes "extends_grants (k_broker k) b" "\<And>c. registry_capability reg c = registry_capability (k_registry k) c \<or>
      (\<forall>i p. bt_get (k_pending k) i = Some p \<longrightarrow> pn_capability p \<noteq> c)"
  shows "evolves now J K k (k\<lparr>k_store := st, k_registry := reg, k_broker := b, k_handlers := h\<rparr>)"
  by (rule evolvesI) (use assms in \<open>auto simp: extends_grants_def backed_def\<close>)

lemma commit_issue_evolves:
  assumes "extends_grants (k_broker k) (snd issued)"
  shows "evolves now J K k (snd (commit_issue env issued k))"
proof -
  have "evolves now J K k (k\<lparr>k_store := st, k_broker := snd issued\<rparr>)" for st
    using assms by (intro evolvesI) (auto simp: extends_grants_def backed_def)
  then show ?thesis
    unfolding commit_issue_def evolving_wp
    by (auto simp: wp_simps intro!: wp_commit_state_of intro: failed_commit_evolves
        split: prod.splits issue_result.splits)
qed

lemma issued_evolves:
  assumes "fresh_grant_ids env k" "issue_with_decision t (env_uuid env 0) (k_broker k) h rq og d = Ok issued"
  shows "evolves now J K k (snd (commit_issue env issued k))"
  using assms issue_extends[of t "env_uuid env 0" "k_broker k" h rq og d "fst issued" "snd issued"]
  by (intro commit_issue_evolves) (simp add: fresh_grant_ids_def)

lemma commit_grant_evolves:
  "fresh_grant_ids env k \<Longrightarrow> evolves now J K k (snd (commit_grant env approval k))"
  using issued_evolves[of env k]
  unfolding commit_grant_def evolving_wp Let_def by (auto simp: wp_simps split: result.splits)

lemma issue_grant_evolves:
  "fresh_grant_ids env k \<Longrightarrow> evolves now J K k (snd (issue_grant env holder request k))"
  using issued_evolves[of env k]
  unfolding issue_grant_def broker_issue_def evolving_wp Let_def by (auto simp: wp_simps split: result.splits)

lemma revoked_evolves:
  assumes "br_grants b = br_grants (k_broker k)"
    and "\<And>j. bt_contains (br_revoked b) j \<longleftrightarrow> j \<in> ids \<or> bt_contains (br_revoked (k_broker k)) j"
    and "\<And>j. j \<in> ids \<Longrightarrow> f j"
  shows "evolves now J K k (k\<lparr>k_store := st, k_broker := b,
    k_flags := set_cancelled (\<lambda>p. f (gr_grant_id (pn_grant p))) (k\<lparr>k_store := st\<rparr>)\<rparr>)"
  by (rule evolvesI) (use assms in \<open>auto simp: set_cancelled_iff backed_def\<close>)

lemma revoke_grant_evolves: "evolves now J K k (snd (revoke_grant env i k))"
proof -
  have "evolves now J K k (k\<lparr>k_store := st, k_broker := b,
      k_flags := set_cancelled (\<lambda>p. gr_grant_id (pn_grant p) = i) (k\<lparr>k_store := st\<rparr>)\<rparr>)"
    if "broker_revoke (k_broker k) i = Ok b" for b st
    using revoked_evolves[of b k "{i}" "\<lambda>j. j = i"] revoke_frame[OF that] by simp
  then show ?thesis
    unfolding revoke_grant_def evolving_wp
    by (auto simp: wp_simps intro!: wp_commit_state_of intro: failed_commit_evolves split: result.splits)
qed

lemma revoke_resource_evolves:
  assumes "broker_inv (k_broker k)"
  shows "evolves now J K k (snd (revoke_grants_for_resource env r k))"
proof -
  let ?ids = "grant_ids_over_resource (k_broker k) r"
  have "evolves now J K k (k\<lparr>k_store := st, k_broker := b,
      k_flags := set_cancelled (\<lambda>p. bt_contains (bs_of_list ?ids) (gr_grant_id (pn_grant p))) (k\<lparr>k_store := st\<rparr>)\<rparr>)"
    if "try_fold broker_revoke (k_broker k) ?ids = Ok b" for b st
    by (rule revoked_evolves[of b k "set ?ids"]) (use revoke_all_frame[OF that assms] in auto)
  then show ?thesis
    unfolding revoke_grants_for_resource_def evolving_wp
    by (auto simp: wp_simps intro!: wp_commit_state_of intro: failed_commit_evolves split: result.splits)
qed

section \<open>Installation\<close>

lemma reconcile_extends:
  assumes "reconcile_manifest_grants env b a rqs og ps ds = Ok (b', rs, issued)"
    and "\<And>n. bt_get (br_grants b0) (new_grant_id (env_uuid env n)) = None" "extends_grants b0 b"
  shows "extends_grants b0 b'"
proof -
  let ?P = "\<lambda>acc :: broker \<times> issue_result list \<times> bool. extends_grants b0 (fst acc)"
  have "?P (b', rs, issued)"
    using assms(1) unfolding reconcile_manifest_grants_def
  proof (rule try_fold_invariant[where P = ?P])
    fix acc rq acc' assume "?P acc" "reconcile_request env a og ps ds acc rq = Ok acc'"
    then show "?P acc'"
      using issue_extends[OF _ assms(2)]
      by (cases acc) (auto simp: reconcile_request_def bind_r_Ok_iff split: option.splits result.splits)
  qed (simp add: assms(3))
  then show ?thesis by simp
qed

lemma bind_handlers_evolves: "evolves now J K k (bind_handlers a h k)"
  by (rule evolves_frame) (simp_all add: bind_handlers_def)

lemma commit_rebind_evolves:
  assumes "fresh_grant_ids env k"
  shows "evolves now J K k (snd (commit_rebind env approval k))"
proof -
  have committed: "evolves now J K k (bind_handlers a h (k\<lparr>k_store := st, k_broker := b\<rparr>))"
    if "reconcile_manifest_grants env (k_broker k) a' rqs og ps ds = Ok (b, rs, issued)" for a h st b a' rqs og ps ds rs issued
    using extended_evolves[of k b "k_registry k" now J K "bt_insert a h (k_handlers k)" st]
      reconcile_extends[OF that, of "k_broker k"] assms
    by (simp add: fresh_grant_ids_def bind_handlers_def)
  have plain: "evolves now J K k (bind_handlers a h k)" for a h by (rule bind_handlers_evolves)
  show ?thesis
    unfolding commit_rebind_def evolving_wp Let_def
    by (auto simp: wp_simps split!: result.splits if_splits
        intro!: wp_commit_state_of plain intro: failed_commit_evolves committed)
qed

lemma other_app_capability:
  "bt_get (rg_apps reg) (cr_provider c) = bt_get (rg_apps reg') (cr_provider c) \<Longrightarrow>
     registry_capability reg c = registry_capability reg' c"
  by (simp add: registry_capability_def registry_app_def)

lemma commit_fresh_evolves:
  assumes inv: "kernel_inv x k" and fresh: "fresh_grant_ids env k"
  shows "evolves now J K k (snd (commit_fresh x env approval k))"
proof -
  have provider_present: "bt_contains (rg_apps (k_registry k)) (cr_provider (pn_capability p))"
    if "bt_get (k_pending k) i = Some p" for i p
    using kernel_invD(11)[OF inv] that by (auto simp: pending_ok_def pending_fits_def)
  have committed: "evolves now J K k (bind_handlers a h (k\<lparr>k_store := st, k_registry := reg, k_broker := b\<rparr>))"
    if r: "reconcile_manifest_grants env (k_broker k) a' rqs og ps ds = Ok (b, rs, issued)"
      and i: "registry_install x t (k_registry k) s = Ok (app, reg)" for a h st b reg t s app a' rqs og ps ds rs issued
  proof -
    have new: "bt_get (rg_apps (k_registry k)) (mf_app_id (sm_manifest s)) = None"
      and reg: "reg = (k_registry k)\<lparr>rg_apps := bt_insert (mf_app_id (sm_manifest s)) app (rg_apps (k_registry k))\<rparr>"
      using i by (auto simp: registry_install_Ok_iff)
    have "registry_capability reg c = registry_capability (k_registry k) c \<or>
        (\<forall>i p. bt_get (k_pending k) i = Some p \<longrightarrow> pn_capability p \<noteq> c)" for c
      using provider_present new
      by (cases "cr_provider c = mf_app_id (sm_manifest s)")
        (force simp: reg bt_contains_def, auto simp: reg bt_get_insert intro!: other_app_capability)
    with extended_evolves[of k b reg now J K "bt_insert a h (k_handlers k)" st]
      reconcile_extends[OF r, of "k_broker k"] fresh
    show ?thesis by (simp add: fresh_grant_ids_def bind_handlers_def)
  qed
  show ?thesis
    unfolding commit_fresh_def evolving_wp Let_def
    by (auto simp: wp_simps split!: result.splits if_splits
        intro!: wp_commit_state_of intro: failed_commit_evolves committed)
qed

lemma upgrade_evolves: "evolves now J K k (snd (upgrade_app x env sealed handlers k))"
proof -
  have "evolves now J K k (bind_handlers a h (k\<lparr>k_store := st, k_registry := reg\<rparr>))"
    if "registry_upgrade x (k_registry k) s = Ok reg" for a h st reg s
    by (rule evolvesI) (simp_all add: bind_handlers_def backed_def upgrade_keeps_lookups(1)[OF that])
  then show ?thesis
    unfolding upgrade_app_def evolving_wp Let_def
    by (auto simp: wp_simps split!: result.splits intro!: wp_commit_state_of intro: failed_commit_evolves)
qed

lemma set_cancelled_frame [simp]:
  "set_cancelled p (k\<lparr>k_store := st\<rparr>) = set_cancelled p k"
  "set_cancelled p (k\<lparr>k_ledger := l\<rparr>) = set_cancelled p k"
  "set_cancelled p (k\<lparr>k_broker := b\<rparr>) = set_cancelled p k"
  "set_cancelled p (k\<lparr>k_registry := r\<rparr>) = set_cancelled p k"
  by (simp_all add: set_cancelled_def)

lemma torn_down_evolves:
  assumes inv: "kernel_inv x k"
    and batch: "append_batch now (k_ledger k) evs = Ok (rs, ledger)"
    and reg: "\<And>c. c \<noteq> a \<Longrightarrow> bt_get (rg_apps reg) c = bt_get (rg_apps (k_registry k)) c"
    and b: "extends_grants (strip_authority (k_broker k) a) b"
    and k': "k_ledger k' = ledger" "k_broker k' = b" "k_registry k' = reg"
      "k_pending k' = bt_retain (\<lambda>_ p. \<not> concerns_app a p) (k_pending k)"
      "k_flags k' = set_cancelled (concerns_app a) k" "k_next_invocation_id k' = k_next_invocation_id k"
  shows "evolves t J K k k'"
proof -
  have pending: "bt_get (k_pending k') i = Some p \<longleftrightarrow> bt_get (k_pending k) i = Some p \<and> \<not> concerns_app a p" for i p
    using get_remove_pending_where[of "concerns_app a" k i p] by (simp add: remove_pending_where_def k')
  have gone: "concerns_app a p" if "bt_get (k_pending k) i = Some p" "bt_get (k_pending k') i = None" for i p
    using that pending[of i p] by auto
  have "backed k' p" if p: "bt_get (k_pending k) i = Some p" "\<not> concerns_app a p" and g: "backed k p" for i p
  proof -
    have "covers_request (pn_acting_app p) (pn_capability p) (pn_requested_data_scope p) (pn_grant p)"
      using kernel_invD(11)[OF inv] p(1) by (auto simp: pending_ok_def pending_fits_def)
    then have "gr_holder (pn_grant p) \<noteq> a" "scope_provider (gr_scope (pn_grant p)) \<noteq> a"
      using p(2) by (auto simp: covers_request_def concerns_app_def dest: scope_covers_provider)
    with g b show ?thesis
      by (auto simp: backed_def k' extends_grants_def strip_authority_frame)
  qed
  then show ?thesis
    using append_batch_records(1)[OF batch]
    by (intro evolvesI)
      (auto simp: k'(1-3,5,6) pending set_cancelled_iff concerns_app_def[of a] dest: gone
        intro!: other_app_capability reg)
qed

lemma uninstall_evolves:
  assumes "kernel_inv x k"
  shows "evolves now J K k (snd (kernel_uninstall env a k))"
proof -
  note down = torn_down_evolves[OF assms, where a = a and now = "env_now env" and
      evs = "run_end_events k a" and b = "strip_authority (k_broker k) a"]
  show ?thesis
    unfolding kernel_uninstall_def evolving_wp Let_def
    by (auto simp: wp_simps registry_uninstall_Ok_iff remove_pending_for_app_def remove_pending_where_def bt_get_remove
        split!: result.splits intro!: wp_commit_state_of elim!: failed_commit_evolves)
      (rule down, assumption, simp_all add: bt_get_remove)
qed

lemma replace_evolves:
  assumes inv: "kernel_inv x k" and fresh: "fresh_grant_ids env k"
  shows "evolves now J K k (snd (replace_installed_app x env approval prev k))"
proof -
  let ?a = "mf_app_id (sm_manifest (pl_sealed_manifest (il_prepared approval)))"
  have ext: "extends_grants (strip_authority (k_broker k) ?a) b"
    if "reconcile_manifest_grants env (strip_authority (k_broker k) ?a) a' rqs og ps ds = Ok (b, rs, issued)"
    for b a' rqs og ps ds rs issued
    using reconcile_extends[OF that] fresh by (simp add: fresh_grant_ids_def strip_authority_frame)
  have reg: "bt_get (rg_apps reg) c = bt_get (rg_apps (k_registry k)) c"
    if "registry_install x t ((k_registry k)\<lparr>rg_apps := bt_remove ?a (rg_apps (k_registry k))\<rparr>)
      (pl_sealed_manifest (il_prepared approval)) = Ok (app, reg)" "c \<noteq> ?a" for reg c t app
    using that by (auto simp: registry_install_Ok_iff bt_get_insert bt_get_remove)
  note down = torn_down_evolves[OF inv _ reg ext, where now = "env_now env" and evs = "run_end_events k ?a"]
  show ?thesis
    unfolding replace_installed_app_def evolving_wp Let_def
    by (auto simp: wp_simps registry_uninstall_Ok_iff remove_pending_for_app_def remove_pending_where_def
        bind_handlers_def split!: result.splits if_splits intro!: wp_commit_state_of
        elim!: failed_commit_evolves)
      (rule down, assumption+, simp_all)
qed

lemma commit_install_evolves:
  assumes "kernel_inv x k" "fresh_grant_ids env k"
  shows "evolves now J K k (snd (commit_install x env approval k))"
  using commit_rebind_evolves[OF assms(2)] commit_fresh_evolves[OF assms] replace_evolves[OF assms]
  unfolding commit_install_def Let_def evolving_wp
  by (auto simp: wp_simps(1-7) wp_lift_k split!: result.splits install_mode.splits)

section \<open>Authorize, execute, finalize, abort\<close>

lemma evolving_pending_at [inv_intros]: "evolving env J K (pending_at i)"
  by (simp add: pending_at_def split: option.splits)

lemma evolving_either [inv_intros]:
  assumes "evolving env J K m" "\<And>e. evolving env J K (h e)" "\<And>a. evolving env J K (f a)"
  shows "evolving env J K (\<lambda>k. case m k of (Err e, k') \<Rightarrow> h e k' | (Ok a, k') \<Rightarrow> f a k')"
proof
  fix k
  obtain r k1 where m: "m k = (r, k1)" by fastforce
  with assms(1) have "evolves (env_instant env) J K k k1" by (metis snd_conv)
  with assms(2,3) m show "evolves (env_instant env) J K k
      (snd (case m k of (Err e, k') \<Rightarrow> h e k' | (Ok a, k') \<Rightarrow> f a k'))"
    by (cases r) (auto intro: evolves_trans)
qed

lemma evolving_result [inv_intros]:
  "(\<And>e k. evolves (env_instant env) J K k (snd (h e k))) \<Longrightarrow> (\<And>a k. evolves (env_instant env) J K k (snd (g a k))) \<Longrightarrow>
     evolving env J K (\<lambda>k. case f k of Err e \<Rightarrow> h e k | Ok a \<Rightarrow> g a k)"
  by (simp split: result.splits)

lemma evolving_consume [inv_intros]:
  assumes "evolving env J K m" "i \<in> K"
  shows "evolving env J K (consume_pending i m)"
proof
  fix k
  obtain r k1 where m: "m k = (r, k1)" by fastforce
  with assms(1) have k1: "evolves (env_instant env) J K k k1" by (metis snd_conv)
  have "evolves (env_instant env) J K k (remove_pending i k2)"
    if "k2 = k1 \<or> k2 = require_recovery_after_consumed_transition k1" for k2
    using that evolves_trans[OF k1] remove_pending_evolves[OF assms(2)]
      evolves_trans[OF k1 evolves_trans[OF require_recovery_evolves remove_pending_evolves[OF assms(2)]]] by blast
  with k1 m show "evolves (env_instant env) J K k (snd (consume_pending i m k))"
    by (auto simp: consume_pending_def split: result.splits failure.splits)
qed

lemma consumed_evolves:
  "i \<in> K \<Longrightarrow> evolves now J K k (remove_pending i (require_recovery_after_consumed_transition k))"
  by (rule evolves_trans[OF require_recovery_evolves remove_pending_evolves])

lemma evolving_revalidate [inv_intros]: "evolving env J K (revalidate_pending env' i p)"
proof -
  have "evolves now J K k (if b then set_flag i k else k)" for now b k by (simp add: set_flag_evolves)
  then show ?thesis unfolding revalidate_pending_def by (intro inv_intros)
qed

lemma evolving_finalize_cancelled [inv_intros]: "evolving env J K (finalize_cancelled env r c d f)"
proof -
  have "evolving env J K (bind_s (record_event env ev) (\<lambda>_. ret a))" for ev and a :: invocation_result
    by (intro inv_intros)
  moreover have "evolving env J K (fail f :: invocation_result kop)" by (rule inv_intros)
  ultimately show ?thesis unfolding finalize_cancelled_def by (simp split: failure.splits kernel_error.splits)
qed

lemma evolving_record_decision: "i \<in> K \<Longrightarrow> evolving env J K (record_decision env i d)"
  unfolding record_decision_def Let_def by (intro inv_intros consumed_evolves)

lemma evolving_record_invoked: "i \<in> K \<Longrightarrow> evolving env J K (record_invoked_after_approval x env i p)"
  unfolding record_invoked_after_approval_def by (intro inv_intros consumed_evolves)

lemma pending_update_evolves: "i \<in> J \<Longrightarrow> evolves now J K k (k\<lparr>k_pending := bt_insert i p (k_pending k)\<rparr>)"
  by (rule evolvesI) (auto simp: bt_get_insert backed_def split: if_splits)

lemma evolving_authorize: "i = apr_id approval \<Longrightarrow> evolving env {i} {i} (authorize_invocation x env approval)"
proof
  fix k assume i: "i = apr_id approval"
  have "evolving env {i} {i} (dispatch_authorized x env i)"
    unfolding dispatch_authorized_def
    by (intro inv_intros evolving_record_invoked pending_update_evolves) simp_all
  then have "evolving env {i} {i} (authorize_pending x env approval)"
    unfolding authorize_pending_def Let_def i[symmetric]
    by (intro inv_intros evolving_record_decision remove_pending_evolves) simp_all
  then have a: "evolves (env_instant env) {i} {i} k (snd (authorize_pending x env approval k))" ..
  then show "evolves (env_instant env) {i} {i} k (snd (authorize_invocation x env approval k))"
    using evolves_trans[OF a set_flag_evolves]
    by (auto simp: authorize_invocation_def i split: prod.splits result.splits authorize_invocation_outcome.splits)
qed

lemma execute_evolves: "evolves now J K k (snd (kernel_execute env progress token k))"
  by (rule evolvesI)
    (auto simp: kernel_execute_def execute_with_progress_def is_cancelled_def cancel_def Let_def backed_def
      split: prod.splits handler_run.splits)

lemma evolving_fail_invocation [inv_intros]: "evolving env J K (fail_invocation env r c g d e)"
  unfolding fail_invocation_def by (intro inv_intros)

lemma evolving_complete [inv_intros]: "evolving env J K (complete_outcome x env r c g d s oc)"
proof -
  have "evolving env J K (fail_invocation env r c g d e)" for e by (rule inv_intros)
  moreover have "evolving env J K (bind_s (lift_k f) (\<lambda>h. bind_s (commit_completion env (evs h) as) (\<lambda>_. ret a)))"
    for f :: "kernel \<Rightarrow> string kernel_result" and evs as and a :: invocation_result by (intro inv_intros)
  ultimately show ?thesis
    unfolding complete_outcome_def Let_def by (simp split: result.splits option.splits)
qed

lemma evolving_finalize_result [inv_intros]: "evolving env J K (finalize_result x env p e)"
  unfolding finalize_result_def
  by (simp add: evolving_finalize_cancelled evolving_fail_invocation evolving_complete evolving_basic
      split: option.splits result.splits)

lemma evolving_finalize: "i = ex_id e \<Longrightarrow> evolving env {} {i} (finalize_invocation x env e)"
  unfolding finalize_invocation_def Let_def by (intro inv_intros) simp_all

lemma evolving_abort_pending: "evolving env {} {i} (abort_pending env i)"
  unfolding abort_pending_def by (intro inv_intros remove_pending_evolves) simp

lemma evolving_aborts:
  "evolving env {} {pi_id t} (abort_prepared_invocation env t)" "evolving env {} {az_id a} (abort_authorized_invocation env a)"
proof -
  have "evolves (env_instant env) {} {i} k (snd (let (r, k') = abort_pending env i k in (r, set_flag i k')))" for i k
    using evolves_trans[OF evolving_abort_pending[rule_format] set_flag_evolves, of env i k]
    by (simp add: split_def Let_def)
  then show "evolving env {} {pi_id t} (abort_prepared_invocation env t)"
    "evolving env {} {az_id a} (abort_authorized_invocation env a)"
    unfolding abort_prepared_invocation_def abort_authorized_invocation_def by blast+
qed

end
