(* ===== verification/Kernel_System.thy ===== *)
theory Kernel_System
  imports Kernel_Evolves
begin

text \<open>
  The kernel together with the tokens its callers hold between the phases of an invocation, as
  a step relation: any public operation of \<open>kernel.rs\<close> may come next, with any answer of the
  chrome, of the store and of the handlers. The invariant of the reachable states says what a
  token is worth, and with it what must have happened before the code of an app runs.
\<close>

section \<open>What a prepared invocation is worth\<close>

definition recorded :: "kernel \<Rightarrow> ledger_event \<Rightarrow> bool" where
  "recorded k event \<longleftrightarrow> event \<in> lr_event ` set (lg_records (k_ledger k))"

text \<open>The user acted on a surface of the provider itself and the effect stays on this device.\<close>

definition own_surface_action :: "kernel \<Rightarrow> pending_invocation \<Rightarrow> bool" where
  "own_surface_action k p \<longleftrightarrow>
     (\<exists>surface goal d. recorded k (RunStarted (pn_run_id p)
         (SurfaceAction (cr_provider (pn_capability p)) surface) goal) \<and>
       registry_capability (k_registry k) (pn_capability p) = Ok d \<and>
       (cd_effect d = ReadOnly \<or> cd_effect d = LocalWrite))"

definition approved :: "kernel \<Rightarrow> pending_invocation \<Rightarrow> bool" where
  "approved k p \<longleftrightarrow> gr_condition (pn_grant p) \<noteq> RequiresApproval \<or> own_surface_action k p \<or>
     recorded k (ApprovalGranted (pn_run_id p) (pn_capability p) (gr_grant_id (pn_grant p))
       (pn_requested_data_scope p))"

text \<open>The question put to the user is about the invocation that waits for the answer.\<close>

definition prompt_describes :: "externals \<Rightarrow> capability_approval_prompt \<Rightarrow> pending_invocation \<Rightarrow> bool" where
  "prompt_describes x prompt p \<longleftrightarrow>
     cp_app_id prompt = pn_acting_app p \<and> cp_capability prompt = pn_capability p \<and>
     cp_data_scope prompt = pn_requested_data_scope p \<and> cp_grant_id prompt = gr_grant_id (pn_grant p) \<and>
     cp_run_id prompt = pn_run_id p \<and>
     (cp_input_summary prompt, cp_input_summary_truncated prompt) = approval_input_summary x (pn_input p)"

definition token_fits :: "externals \<Rightarrow> kernel \<Rightarrow> prepared_invocation \<Rightarrow> pending_invocation \<Rightarrow> bool" where
  "token_fits x k t p \<longleftrightarrow> pn_state p = PreparedForApproval \<and>
     (case pi_approval t of
        None \<Rightarrow> gr_condition (pn_grant p) \<noteq> RequiresApproval \<or> own_surface_action k p
      | Some prompt \<Rightarrow> prompt_describes x prompt p)"

lemma recorded_evolves: "recorded k ev \<Longrightarrow> evolves now J K k k' \<Longrightarrow> recorded k' ev"
  using evolvesD(1)[of now J K k k'] by (auto simp: recorded_def prefix_def)

lemma own_surface_evolves:
  assumes "own_surface_action k p" "evolves now J K k k'"
    "registry_capability (k_registry k') (pn_capability p) = registry_capability (k_registry k) (pn_capability p)"
  shows "own_surface_action k' p"
  using assms recorded_evolves[OF _ assms(2)] unfolding own_surface_action_def by auto

lemma kept_pending:
  assumes "evolves now J K k k'" "i \<notin> J" "bt_get (k_pending k') i = Some p"
  shows "approved k p \<Longrightarrow> approved k' p" "token_fits x k t p \<Longrightarrow> token_fits x k' t p"
  using own_surface_evolves[OF _ assms(1) evolvesD(5)[OF assms]] recorded_evolves[OF _ assms(1)]
  unfolding approved_def token_fits_def by (auto split: option.splits)

section \<open>Prepare\<close>

text \<open>A prepared invocation is the only change besides an evolution of the kernel.\<close>

definition registered :: "externals \<Rightarrow> instant \<Rightarrow> kernel \<Rightarrow> prepared_invocation \<Rightarrow> kernel \<Rightarrow> bool" where
  "registered x now k t k' \<longleftrightarrow> pi_id t = k_next_invocation_id k \<and>
     (\<exists>k1 p. evolves now {} {} k k1 \<and> backed k1 p \<and> token_fits x k1 t p \<and>
        k' = k1\<lparr>k_next_invocation_id := pi_id t + 1, k_flags := (k_flags k1)(pi_id t := False),
                k_pending := bt_insert (pi_id t) p (k_pending k1)\<rparr>)"

definition prepare_post :: "externals \<Rightarrow> instant \<Rightarrow> kernel \<Rightarrow> prepare_invocation_outcome \<Rightarrow> kernel \<Rightarrow> bool" where
  "prepare_post x now k outcome k' \<longleftrightarrow> (case outcome of
       Prepared t \<Rightarrow> registered x now k t k'
     | PrepareRefused _ \<Rightarrow> evolves now {} {} k k')"

definition pending_of ::
    "run_id \<Rightarrow> app_id \<Rightarrow> capability_ref \<Rightarrow> grant \<Rightarrow> invocation_request \<Rightarrow> string \<Rightarrow> json_object option \<Rightarrow> instant
      \<Rightarrow> pending_invocation" where
  "pending_of run_id acting_app capability grant request content_hash output_schema deadline =
     \<lparr>pn_run_id = run_id, pn_acting_app = acting_app, pn_capability = capability, pn_grant = grant,
      pn_requested_data_scope = ir_data_scope request, pn_provider_content_hash = content_hash,
      pn_output_schema = output_schema, pn_input = ir_input request, pn_deadline = deadline,
      pn_state = PreparedForApproval\<rparr>"

text \<open>Steps that change neither the registry, nor the authority, nor which runs are active.\<close>

definition calm :: "instant \<Rightarrow> kernel \<Rightarrow> kernel \<Rightarrow> bool" where
  "calm now k k' \<longleftrightarrow> evolves now {} {} k k' \<and> k_registry k' = k_registry k \<and> k_broker k' = k_broker k"

lemma calm_refl [simp]: "calm now k k"
  by (simp add: calm_def)

lemma calm_trans: "calm now k0 k1 \<Longrightarrow> calm now k1 k2 \<Longrightarrow> calm now k0 k2"
  by (auto simp: calm_def intro: evolves_trans)

lemma wp_reap_calm:
  assumes "kernel_inv x k" "\<And>k'. kernel_inv x k' \<Longrightarrow> calm (env_instant env) k k' \<Longrightarrow> Q () k'"
    and "\<And>e k'. evolves (env_instant env) {} {} k k' \<Longrightarrow> E (Failed e) k'"
  shows "wp (reap_cancelled_pending env) Q E k"
proof -
  have "wp (reap_cancelled_pending env) (\<lambda>_ k'. kernel_inv x k' \<and> k_registry k' = k_registry k \<and> k_broker k' = k_broker k)
      (\<lambda>e _. \<exists>err. e = Failed err) k"
    by (rule wp_reap[OF assms(1)]) auto
  from wp_conj[OF this evolving_reap[rule_format, unfolded evolving_wp]]
  show ?thesis by (rule wp_mono) (use assms(2,3) in \<open>auto simp: calm_def\<close>)
qed

lemma wp_record_calm:
  assumes "\<And>r k'. calm (env_instant env) k k' \<Longrightarrow> Q r k'"
    and "\<And>e k'. evolves (env_instant env) {} {} k k' \<Longrightarrow> E (Failed e) k'"
  shows "wp (record_event env ev) Q E k"
  by (rule wp_record_event;
      (rule assms(2), erule failed_commit_evolves
       | auto simp: calm_def ledger_append_Ok_iff intro!: assms(1) evolves_frame))

lemma wp_seek_calm:
  assumes "\<And>a k'. calm (env_instant env) k k' \<Longrightarrow>
      (a = None \<longrightarrow> gr_condition g \<noteq> RequiresApproval \<or> counts) \<Longrightarrow>
      (\<forall>prompt. a = Some prompt \<longrightarrow> cp_app_id prompt = app \<and> cp_capability prompt = cap \<and>
        cp_data_scope prompt = ir_data_scope rq \<and> cp_grant_id prompt = gr_grant_id g \<and> cp_run_id prompt = run_id \<and>
        (cp_input_summary prompt, cp_input_summary_truncated prompt) = approval_input_summary x (ir_input rq)) \<Longrightarrow> Q a k'"
    and "\<And>e k'. evolves (env_instant env) {} {} k k' \<Longrightarrow> E (Failed e) k'"
  shows "wp (seek_approval x env run_id run app cap decl g rq counts) Q E k"
  unfolding seek_approval_def Let_def
  by (auto simp: wp_simps split_def split!: result.splits if_splits intro!: wp_record_calm assms)

lemma register_post:
  assumes k1: "evolves now {} {} k k1" and present: "bt_get (rg_apps (k_registry k1)) (cr_provider cap) = Some app"
    and fits: "\<And>i h s d. backed k1 (pending_of run_id a cap g rq h s d) \<and>
      token_fits x k1 \<lparr>pi_id = i, pi_approval = approval, pi_chrome = k_chrome k1\<rparr> (pending_of run_id a cap g rq h s d)"
  shows "wp (register_pending env run_id a cap g rq schema timeout approval)
    (prepare_post x now k) (\<lambda>_. evolves now {} {} k) k1"
proof (cases "instant_checked_add (env_instant env) timeout")
  case None
  with k1 show ?thesis by (simp add: register_pending_def wp_simps)
next
  case (Some deadline)
  then show ?thesis
    using fits present evolvesD(2)[OF k1] k1
    unfolding register_pending_def prepare_post_def registered_def pending_of_def[symmetric]
    by (auto simp: wp_simps registry_app_def intro!: exI[of _ k1]
        exI[of _ "pending_of run_id a cap g rq (ia_content_hash app) schema deadline"])
qed

lemma live_grant_backed:
  assumes "broker_inv (k_broker k)" "g \<in> live_grants (k_broker k) now" "pn_grant p = g"
  shows "backed k p"
  using assms by (auto simp: backed_def live_grants_def known_grants_def broker_inv_def)

lemma prepare_posts:
  assumes inv: "kernel_inv x' k"
    and direct: "direct \<Longrightarrow> \<exists>surface goal. recorded k (RunStarted run_id (SurfaceAction (cr_provider cap) surface) goal)"
  shows "wp (prepare_invocation_with_context x env run_id cap rq timeout direct)
    (prepare_post x (env_instant env) k) (\<lambda>_. evolves (env_instant env) {} {} k) k"
    (is "wp _ ?Q ?E k")
  unfolding prepare_invocation_with_context_def wp_bind_s
proof (rule wp_reap_calm[OF inv], goal_cases)
  case (1 k1)
  let ?now = "env_instant env"
  have e1: "evolves ?now {} {} k k1" using 1(2) by (simp add: calm_def)
  have refuse: "?Q (PrepareRefused r) k2" if "calm ?now k1 k2" for r k2
    using that e1 by (auto simp: prepare_post_def calm_def intro: evolves_trans)
  have grant: "wp (bind_s (seek_approval x env run_id run a cap d g rq c)
      (register_pending env run_id a cap g rq schema timeout)) ?Q ?E (k1\<lparr>k_notices := n\<rparr>)"
    if d: "registry_capability (k_registry k1) cap = Ok d"
      and check: "broker_check (env_now env) (k_broker k1) a cap (ir_data_scope rq) = CheckAllowed g \<or>
        broker_check (env_now env) (k_broker k1) a cap (ir_data_scope rq) = CheckApprovalRequired g"
      and c: "c \<Longrightarrow> direct \<and> (cd_effect d = ReadOnly \<or> cd_effect d = LocalWrite)"
    for run a d g c schema n
    unfolding wp_bind_s
  proof (rule wp_seek_calm, goal_cases)
    case seek: (1 approval k2)
    have k2: "evolves ?now {} {} k k2" "k_registry k2 = k_registry k1" "k_broker k2 = k_broker k1"
      using seek(1) e1 evolves_frame[of k1 "k1\<lparr>k_notices := n\<rparr>" ?now "{}" "{}"]
      by (auto simp: calm_def intro: evolves_trans)
    obtain app where app: "bt_get (rg_apps (k_registry k2)) (cr_provider cap) = Some app"
      using registry_capability_Ok[OF d] k2(2) by auto
    have own: "own_surface_action k2 p" if "pn_run_id p = run_id" "pn_capability p = cap" c for p
      using direct recorded_evolves[OF _ k2(1)] c d that k2(2) unfolding own_surface_action_def by fastforce
    have "backed k2 (pending_of run_id a cap g rq h s dl)" for h s dl
      using kernel_invD(3)[OF 1(1)] authority.granted[OF check] k2(3)
      by (intro live_grant_backed[of _ g "env_now env"]) (simp_all add: pending_of_def)
    then show ?case
      using seek(2,3) own
      by (intro register_post[OF k2(1) app])
        (auto simp: token_fits_def prompt_describes_def pending_of_def split: option.splits)
  next
    case (2 e k2)
    then show ?case using e1 evolves_frame[of k1 "k1\<lparr>k_notices := n\<rparr>" ?now "{}" "{}"] by (auto intro: evolves_trans)
  qed
  from grant[of _ _ _ _ _ _ "k_notices k1"] have grant0: "wp (bind_s (seek_approval x env run_id run a cap d g rq c)
      (register_pending env run_id a cap g rq schema timeout)) ?Q ?E k1"
    if "registry_capability (k_registry k1) cap = Ok d"
      "broker_check (env_now env) (k_broker k1) a cap (ir_data_scope rq) = CheckAllowed g \<or>
        broker_check (env_now env) (k_broker k1) a cap (ir_data_scope rq) = CheckApprovalRequired g"
      "c \<Longrightarrow> direct \<and> (cd_effect d = ReadOnly \<or> cd_effect d = LocalWrite)"
    for run a d g c schema
    using that by simp
  show ?case
    using e1
    by (auto simp: wp_simps Let_def split!: result.splits if_splits grant_check.splits sum.splits
        intro!: wp_record_calm refuse wp_show_notice grant[unfolded wp_bind_s] grant0[unfolded wp_bind_s] intro: evolves_trans)
qed auto

lemma prepare_post_trans:
  assumes "evolves now {} {} k k1" "prepare_post x now k1 r k'"
  shows "prepare_post x now k r k'"
proof (cases r)
  case (Prepared t)
  with assms(2) show ?thesis
    unfolding prepare_post_def registered_def evolvesD(2)[OF assms(1)]
    using evolves_trans[OF assms(1)] by fastforce
next
  case PrepareRefused
  with assms show ?thesis by (auto simp: prepare_post_def intro: evolves_trans)
qed

lemma wp_start_run_recorded:
  assumes inv: "kernel_inv x k"
    and ok: "\<And>r k'. kernel_inv x k' \<Longrightarrow> evolves (env_instant env) {} {} k k' \<Longrightarrow> recorded k' (RunStarted r i g) \<Longrightarrow> Q r k'"
    and err: "\<And>e k'. evolves (env_instant env) {} {} k k' \<Longrightarrow> E (Failed e) k'"
  shows "wp (start_run env i g) Q E k"
proof -
  have "wp (start_run env i g) (\<lambda>r k'. recorded k' (RunStarted r i g)) (\<lambda>_ _. True) k"
    unfolding start_run_def Let_def
    by (auto simp: wp_simps recorded_def ledger_append_Ok_iff split!: result.splits intro!: wp_record_event)
  from wp_conj[OF this wp_conj[OF keepsE[OF start_run_maintains inv]
      evolving_start_run[rule_format, unfolded evolving_wp]]]
  show ?thesis by (rule wp_mono) (auto intro: ok err)
qed

lemma surface_action_posts:
  assumes inv: "kernel_inv x' k"
  shows "wp (prepare_surface_action x env binding intent)
    (\<lambda>r. prepare_post x (env_instant env) k (snd r)) (\<lambda>_. evolves (env_instant env) {} {} k) k"
proof -
  let ?now = "env_instant env" and ?app = "sb_app_id binding"
  let ?direct = "?app = cr_provider (ai_capability intent)"
  have step: "wp (on_err (prepare_invocation_with_context x env r (ai_capability intent) rq timeout ?direct)
        (\<lambda>k. snd (end_run env r t k)))
      (\<lambda>out. prepare_post x ?now k out) (\<lambda>_. evolves ?now {} {} k) k1"
    if k1: "kernel_inv x' k1" "evolves ?now {} {} k k1" "recorded k1 (RunStarted r (SurfaceAction ?app surface) goal)"
    for r k1 rq timeout t surface goal
    unfolding wp_on_err
  proof (rule wp_mono[OF prepare_posts[OF k1(1)]])
    show "\<exists>surface goal. recorded k1 (RunStarted r (SurfaceAction (cr_provider (ai_capability intent)) surface) goal)"
      if ?direct using k1(3) that by auto
    show "prepare_post x ?now k out k2" if "prepare_post x ?now k1 out k2" for out k2
      by (rule prepare_post_trans[OF k1(2) that])
    show "evolves ?now {} {} k (snd (end_run env r t k2))" if "evolves ?now {} {} k1 k2" for k2
      using evolves_trans[OF evolves_trans[OF k1(2) that]] evolving_end_run by blast
  qed
  show ?thesis
    unfolding prepare_surface_action_def Let_def
    by (auto simp: wp_simps(1-7) wp_lift_k wp_fails split!: result.splits if_splits
        intro!: wp_start_run_recorded[OF inv] step[unfolded wp_on_err])
qed

section \<open>Authorize\<close>

definition still_valid :: "env \<Rightarrow> kernel \<Rightarrow> u64 \<Rightarrow> pending_invocation \<Rightarrow> bool" where
  "still_valid env k i p \<longleftrightarrow>
     (\<exists>run. bt_get (lg_runs (k_ledger k)) (pn_run_id p) = Some run \<and> ri_active run \<and>
        ri_initiating_app run = pn_acting_app p) \<and>
     bt_contains (rg_apps (k_registry k)) (pn_acting_app p) \<and>
     (\<exists>provider. bt_get (rg_apps (k_registry k)) (cr_provider (pn_capability p)) = Some provider \<and>
        ia_content_hash provider = pn_provider_content_hash p) \<and>
     (\<exists>g\<in>live_grants (k_broker k) (env_now env).
        covers_request (pn_acting_app p) (pn_capability p) (pn_requested_data_scope p) g \<and>
        gr_grant_id g = gr_grant_id (pn_grant p)) \<and>
     env_instant env < pn_deadline p \<and> \<not> k_flags k i"

lemma wp_revalidate_same:
  assumes "Q () k" "\<And>e k'. k' = k \<or> k' = set_flag i k \<Longrightarrow> E (Failed e) k'"
  shows "wp (revalidate_pending env i p) Q E k"
  unfolding revalidate_pending_def
  by (auto simp: wp_simps set_flag_def assms(1) split!: result.splits option.splits if_splits grant_check.splits
      intro!: assms(2)[unfolded set_flag_def])

lemma wp_revalidate_valid:
  assumes inv: "kernel_inv x k" and p: "bt_get (k_pending k) i = Some p"
    and "still_valid env k i p \<Longrightarrow> Q () k"
    and "\<And>e k'. k' = k \<or> k' = set_flag i k \<Longrightarrow> E (Failed e) k'"
  shows "wp (revalidate_pending env i p) Q E k"
proof -
  have ok: "Q () k" if "ledger_run_view (k_ledger k) (pn_run_id p) = Ok run" "is_active run"
      "bt_get (rg_apps (k_registry k)) (pn_acting_app p) = Some app"
      "bt_get (rg_apps (k_registry k)) (cr_provider (pn_capability p)) = Some provider"
      "ia_content_hash provider = pn_provider_content_hash p"
      "broker_check (env_now env) (k_broker k) (pn_acting_app p) (pn_capability p) (pn_requested_data_scope p) = CheckAllowed g \<or>
       broker_check (env_now env) (k_broker k) (pn_acting_app p) (pn_capability p) (pn_requested_data_scope p) = CheckApprovalRequired g"
      "gr_grant_id g = gr_grant_id (pn_grant p)" "\<not> pn_deadline p \<le> env_instant env" "\<not> k_flags k i"
    for run app provider g
    using that authority.granted[OF that(6)] kernel_invD(11)[OF inv] p
    by (intro assms(3)) (auto simp: still_valid_def bt_contains_def pending_ok_def pending_fits_def)
  show ?thesis
    unfolding revalidate_pending_def
    by (auto simp: wp_simps registry_app_def set_flag_def split!: result.splits option.splits if_splits grant_check.splits
        intro!: assms(4)[unfolded set_flag_def] intro: ok)
qed

text \<open>What an authorized token says of the pending invocation it belongs to.\<close>

definition ready_for :: "kernel \<Rightarrow> authorized_invocation \<Rightarrow> pending_invocation \<Rightarrow> bool" where
  "ready_for k a p \<longleftrightarrow> pn_state p = AuthorizedForExecution \<and> az_input a = pn_input p \<and>
     ic_run_id (az_context a) = pn_run_id p \<and> ic_invoked_by (az_context a) = pn_acting_app p \<and>
     ic_authorized_data_scope (az_context a) = pn_requested_data_scope p \<and>
     ca_deadline (ic_cancellation (az_context a)) = pn_deadline p \<and> approved k p"

lemma approved_state [simp]: "approved k (p\<lparr>pn_state := s\<rparr>) = approved k p"
  by (simp add: approved_def own_surface_action_def)

lemma approved_same:
  assumes "approved k p" "k_registry k' = k_registry k" "prefix (lg_records (k_ledger k)) (lg_records (k_ledger k'))"
  shows "approved k' p"
proof -
  have "recorded k ev \<Longrightarrow> recorded k' ev" for ev using assms(3) by (auto simp: recorded_def prefix_def)
  with assms(1,2) show ?thesis unfolding approved_def own_surface_action_def by auto
qed

text \<open>The frame of recording one event.\<close>

definition only_recorded :: "kernel \<Rightarrow> ledger_event \<Rightarrow> kernel \<Rightarrow> bool" where
  "only_recorded k event k' \<longleftrightarrow> recorded k' event \<and>
     prefix (lg_records (k_ledger k)) (lg_records (k_ledger k')) \<and> k_pending k' = k_pending k \<and>
     k_flags k' = k_flags k \<and> k_registry k' = k_registry k \<and> k_broker k' = k_broker k"

lemma wp_record_only:
  assumes "\<And>r k'. only_recorded k ev k' \<Longrightarrow> Q r k'" "\<And>e k'. E (Failed e) k'"
  shows "wp (record_event env ev) Q E k"
  by (rule wp_record_event)
    (auto simp: only_recorded_def recorded_def ledger_append_Ok_iff intro!: assms)

definition authorized_post ::
    "kernel \<Rightarrow> u64 \<Rightarrow> pending_invocation \<Rightarrow> authorize_invocation_outcome \<Rightarrow> kernel \<Rightarrow> bool" where
  "authorized_post k i p outcome k' \<longleftrightarrow> (case outcome of
       Authorized a \<Rightarrow> az_id a = i \<and> ca_cell (ic_cancellation (az_context a)) = i \<and>
         bt_get (k_pending k') i = Some (p\<lparr>pn_state := AuthorizedForExecution\<rparr>) \<and>
         ready_for k' a (p\<lparr>pn_state := AuthorizedForExecution\<rparr>) \<and>
         k_broker k' = k_broker k \<and> k_flags k' = k_flags k
     | AuthorizeRefused _ \<Rightarrow> True)"

lemma dispatch_posts:
  assumes p: "bt_get (k_pending k) i = Some p" and ok: "approved k p"
  shows "wp (dispatch_authorized x env i) (authorized_post k i p) (\<lambda>_ _. True) k"
proof -
  have finish: "wp (bind_s (lift_k (\<lambda>k. ok_or err (bound_handler k c))) (\<lambda>handler.
      bind_s (lift_k (invocation_context_of i p)) (\<lambda>context.
      bind_s (pending_at i) (\<lambda>pending.
      bind_s (modify (\<lambda>k. k\<lparr>k_pending := bt_insert i (pending\<lparr>pn_state := AuthorizedForExecution\<rparr>) (k_pending k)\<rparr>)) (\<lambda>_.
      ret (Authorized \<lparr>az_id = i, az_handler = handler, az_input = pn_input pending, az_context = context\<rparr>))))))
      (authorized_post k i p) (\<lambda>_ _. True) k1"
    if "k_pending k1 = k_pending k" "k_registry k1 = k_registry k" "k_broker k1 = k_broker k"
      "k_flags k1 = k_flags k" "prefix (lg_records (k_ledger k)) (lg_records (k_ledger k1))" for k1 err c
  proof -
    let ?k = "k1\<lparr>k_pending := bt_insert i (p\<lparr>pn_state := AuthorizedForExecution\<rparr>) (k_pending k1)\<rparr>"
    have "approved ?k p" using ok that by (intro approved_same[OF ok]) simp_all
    then show ?thesis
      using that p
      by (auto simp: wp_simps authorized_post_def ready_for_def invocation_context_of_def bind_r_Ok_iff
          split!: result.splits)
  qed
  then show ?thesis
    unfolding dispatch_authorized_def record_invoked_after_approval_def wp_bind_s
    using p
    by (auto simp: wp_simps(1-7) wp_lift_k wp_pending_at wp_on_err only_recorded_def split!: result.splits if_splits
        intro!: wp_record_only)
qed

text \<open>
  An invocation is authorized only while it is valid, and when its grant asks for approval
  only after the approval was recorded.
\<close>

lemma authorize_pending_posts:
  assumes t: "token_fits x k t p" "pi_id t = i" and p: "bt_get (k_pending k) i = Some p"
  shows "wp (authorize_pending x' env (await_approval t)) (authorized_post k i p) (\<lambda>_ _. True) k"
proof -
  let ?d = "apr_decision (await_approval t)"
  have go: "wp (\<lambda>k. case revalidate_pending env i p k of
        (Err error, k') \<Rightarrow>
          bind_s (consume_pending i (finalize_cancelled env (pn_run_id p) (pn_capability p)
            (pn_requested_data_scope p) error)) (\<lambda>result. ret (AuthorizeRefused result)) k'
      | (Ok _, k') \<Rightarrow> dispatch_authorized x' env i k') (authorized_post k i p) (\<lambda>_ _. True) k1"
    if k1: "k_pending k1 = k_pending k" "k_broker k1 = k_broker k" "k_flags k1 = k_flags k" "approved k1 p" for k1
  proof -
    have post: "authorized_post k i p = authorized_post k1 i p"
      using k1 by (simp add: authorized_post_def fun_eq_iff split: authorize_invocation_outcome.splits)
    have refuse: "wp (bind_s m (\<lambda>result. ret (AuthorizeRefused result))) (authorized_post k i p) (\<lambda>_ _. True) k2"
      for m :: "invocation_result kop" and k2
      by (auto simp: wp_def bind_s_def ret_def authorized_post_def split: prod.splits result.splits)
    have "wp (dispatch_authorized x' env i) (authorized_post k i p) (\<lambda>_ _. True) k1"
      unfolding post by (rule dispatch_posts) (use k1 p in simp_all)
    then show ?thesis
      using refuse by (auto simp: wp_either intro!: wp_revalidate_same)
  qed
  show ?thesis
  proof (cases ?d)
    case None
    then have "approved k p" using t(1) by (auto simp: token_fits_def await_approval_def approved_def)
    from go[OF refl refl refl this] None p t show ?thesis
      by (auto simp: authorize_pending_def await_approval_def wp_simps(1-7) wp_gets wp_fails wp_pending_at token_fits_def)
  next
    case (Some d)
    have ap: "approved k1 p" if "only_recorded k (ApprovalGranted (pn_run_id p) (pn_capability p)
        (gr_grant_id (pn_grant p)) (pn_requested_data_scope p)) k1" for k1
      using that by (simp add: only_recorded_def approved_def)
    from Some p t show ?thesis
      by (cases d)
        (auto simp: authorize_pending_def record_decision_def Let_def await_approval_def wp_simps(1-7) wp_gets wp_fails
          wp_pending_at wp_on_err token_fits_def only_recorded_def authorized_post_def[of _ _ _ "AuthorizeRefused r" for r]
          intro!: wp_record_only go[unfolded t(2)[symmetric]] ap)
  qed
qed

lemma authorize_posts:
  assumes "token_fits x k t p" "pi_id t = i" "bt_get (k_pending k) i = Some p"
    "authorize_invocation x' env (await_approval t) k = (Ok (Authorized a), k')"
  shows "authorized_post k i p (Authorized a) k'"
  using authorize_pending_posts[OF assms(1-3), of x' env] assms(4)
  by (auto simp: authorize_invocation_def wp_def split: prod.splits result.splits authorize_invocation_outcome.splits)

lemma authorize_refused_flag:
  assumes "authorize_invocation x' env approval k = (r, k')" "\<nexists>a. r = Ok (Authorized a)"
  shows "k_flags k' (apr_id approval)"
  using assms
  by (auto simp: authorize_invocation_def set_flag_def split: prod.splits result.splits authorize_invocation_outcome.splits)

lemma authorize_needs_pending:
  assumes "authorize_invocation x' env approval k = (Ok (Authorized a), k')"
  shows "\<exists>p. bt_get (k_pending k) (apr_id approval) = Some p"
proof (rule ccontr)
  assume "\<nexists>p. bt_get (k_pending k) (apr_id approval) = Some p"
  then have "authorize_pending x' env approval k = (Err (Failed PreparedInvocationConsumed), k)"
    by (simp add: authorize_pending_def Let_def bind_s_def gets_def fails_def fail_def)
  with assms show False by (simp add: authorize_invocation_def)
qed

section \<open>The system\<close>

datatype command =
    StartRun initiator string
  | EndRun run_id run_terminal_state
  | OpenSurface app_id surface_name
  | CloseSurface surface_binding
  | AcquireLease run_id lease_target int
  | PutSecret secret_ref string
  | ClearSecret secret_ref
  | DrainInbox app_id
  | PublishAppDataChange app_id string u64 app_data_change_kind
  | CancelRun run_id
  | CommitGrant prepared_grant
  | IssueGrant app_id grant_request
  | RevokeGrant grant_id
  | RevokeGrantsForResource resource_id
  | UpgradeApp sealed_manifest handler_table
  | Uninstall app_id

definition discard :: "'a kop \<Rightarrow> unit kop" where
  "discard m = bind_s m (\<lambda>_. ret ())"

fun run_command :: "externals \<Rightarrow> env \<Rightarrow> command \<Rightarrow> unit kop" where
  "run_command x env (StartRun initiator goal) = discard (start_run env initiator goal)"
| "run_command x env (EndRun run_id terminal_state) = end_run env run_id terminal_state"
| "run_command x env (OpenSurface app_id surface) = discard (open_surface env app_id surface)"
| "run_command x env (CloseSurface binding) = modify (close_surface binding)"
| "run_command x env (AcquireLease run_id target duration) = discard (acquire_lease env run_id target duration)"
| "run_command x env (PutSecret secret_ref val) = modify (put_secret secret_ref val)"
| "run_command x env (ClearSecret secret_ref) = modify (clear_secret secret_ref)"
| "run_command x env (DrainInbox app_id) = discard (kernel_drain_inbox app_id)"
| "run_command x env (PublishAppDataChange app_id resource_ref revision change_kind) =
     publish_app_data_change app_id resource_ref revision change_kind"
| "run_command x env (CancelRun run_id) = modify (cancel_pending_invocations_for_run run_id)"
| "run_command x env (CommitGrant prepared) = discard (commit_grant env (await_grant_approval prepared))"
| "run_command x env (IssueGrant holder request) = discard (issue_grant env holder request)"
| "run_command x env (RevokeGrant grant_id) = revoke_grant env grant_id"
| "run_command x env (RevokeGrantsForResource resource_id) = revoke_grants_for_resource env resource_id"
| "run_command x env (UpgradeApp sealed handlers) = upgrade_app x env sealed handlers"
| "run_command x env (Uninstall app_id) = kernel_uninstall env app_id"

text \<open>
  The tokens in the hands of callers, by the id of their invocation: waiting for an answer,
  ready to run, or run. \<open>sy_now\<close> is the last reading of the monotonic clock.
\<close>

datatype token = Waiting prepared_invocation | Ready authorized_invocation | Ran executed_invocation

record system =
  sy_kernel :: kernel
  sy_tokens :: "u64 \<Rightarrow> token option"
  sy_plans :: "prepared_install list"
  sy_now :: instant

definition issue_token :: "prepare_invocation_outcome option \<Rightarrow> (u64 \<Rightarrow> token option) \<Rightarrow> u64 \<Rightarrow> token option" where
  "issue_token outcome tokens = (case outcome of
       Some (Prepared t) \<Rightarrow> tokens(pi_id t := Some (Waiting t))
     | _ \<Rightarrow> tokens)"

definition authorize_token ::
    "u64 \<Rightarrow> (authorize_invocation_outcome, failure) result \<Rightarrow> (u64 \<Rightarrow> token option) \<Rightarrow> u64 \<Rightarrow> token option" where
  "authorize_token i r tokens = (case r of
       Ok (Authorized a) \<Rightarrow> tokens(i := Some (Ready a))
     | _ \<Rightarrow> tokens(i := None))"

fun outcome_of :: "('a, 'e) result \<Rightarrow> 'a option" where
  "outcome_of (Ok a) = Some a"
| "outcome_of (Err _) = None"

text \<open>
  What the steps assume of their environment: the monotonic clock does not go back, a new UUID
  is not the id of a known grant, and the 64-bit counter of invocations has not wrapped.
\<close>

definition env_fits :: "env \<Rightarrow> system \<Rightarrow> bool" where
  "env_fits env s \<longleftrightarrow> sy_now s \<le> env_instant env \<and> fresh_grant_ids env (sy_kernel s)"

definition counter_free :: "system \<Rightarrow> bool" where
  "counter_free s \<longleftrightarrow> k_next_invocation_id (sy_kernel s) < - 1"

inductive sys_step :: "externals \<Rightarrow> system \<Rightarrow> system \<Rightarrow> bool" for x where
  Command: "env_fits env s \<Longrightarrow> run_command x env c (sy_kernel s) = (r, k') \<Longrightarrow>
    sys_step x s (s\<lparr>sy_kernel := k', sy_now := env_instant env\<rparr>)"
| Prepare: "env_fits env s \<Longrightarrow> counter_free s \<Longrightarrow>
    prepare_invocation_with_timeout x env run_id capability request timeout (sy_kernel s) = (r, k') \<Longrightarrow>
    sys_step x s (s\<lparr>sy_kernel := k', sy_tokens := issue_token (outcome_of r) (sy_tokens s), sy_now := env_instant env\<rparr>)"
| Act: "env_fits env s \<Longrightarrow> counter_free s \<Longrightarrow> prepare_surface_action x env binding intent (sy_kernel s) = (r, k') \<Longrightarrow>
    sys_step x s (s\<lparr>sy_kernel := k', sy_tokens := issue_token (map_option snd (outcome_of r)) (sy_tokens s),
      sy_now := env_instant env\<rparr>)"
| Authorize: "env_fits env s \<Longrightarrow> sy_tokens s i = Some (Waiting t) \<Longrightarrow>
    authorize_invocation x env (await_approval t) (sy_kernel s) = (r, k') \<Longrightarrow>
    sys_step x s (s\<lparr>sy_kernel := k', sy_tokens := authorize_token i r (sy_tokens s), sy_now := env_instant env\<rparr>)"
| Execute: "env_fits env s \<Longrightarrow> sy_tokens s i = Some (Ready a) \<Longrightarrow>
    kernel_execute env progress a (sy_kernel s) = (e, k') \<Longrightarrow>
    sys_step x s (s\<lparr>sy_kernel := k', sy_tokens := (sy_tokens s)(i := Some (Ran e)), sy_now := env_instant env\<rparr>)"
| Finalize: "env_fits env s \<Longrightarrow> sy_tokens s i = Some (Ran e) \<Longrightarrow>
    finalize_invocation x env e (sy_kernel s) = (r, k') \<Longrightarrow>
    sys_step x s (s\<lparr>sy_kernel := k', sy_tokens := (sy_tokens s)(i := None), sy_now := env_instant env\<rparr>)"
| AbortPrepared: "env_fits env s \<Longrightarrow> sy_tokens s i = Some (Waiting t) \<Longrightarrow>
    abort_prepared_invocation env t (sy_kernel s) = (r, k') \<Longrightarrow>
    sys_step x s (s\<lparr>sy_kernel := k', sy_tokens := (sy_tokens s)(i := None), sy_now := env_instant env\<rparr>)"
| AbortAuthorized: "env_fits env s \<Longrightarrow> sy_tokens s i = Some (Ready a) \<Longrightarrow>
    abort_authorized_invocation env a (sy_kernel s) = (r, k') \<Longrightarrow>
    sys_step x s (s\<lparr>sy_kernel := k', sy_tokens := (sy_tokens s)(i := None), sy_now := env_instant env\<rparr>)"
| Drop: "sy_tokens s i = Some t \<Longrightarrow>
    sys_step x s (s\<lparr>sy_kernel := drop_token i (sy_kernel s), sy_tokens := (sy_tokens s)(i := None)\<rparr>)"
| PlanInstall: "prepare_install_with_grant_origin x env (sy_kernel s) sealed handlers origin = Ok p \<Longrightarrow>
    sys_step x s (s\<lparr>sy_plans := p # sy_plans s\<rparr>)"
| CommitInstall: "env_fits env s \<Longrightarrow> p \<in> set (sy_plans s) \<Longrightarrow>
    commit_install x env (await_install_approval p) (sy_kernel s) = (r, k') \<Longrightarrow>
    sys_step x s (s\<lparr>sy_kernel := k', sy_now := env_instant env\<rparr>)"
| Restart: "with_clock_and_state_store x env chrome flags next_id loaded = (Ok (), k') \<Longrightarrow>
    sys_step x s \<lparr>sy_kernel = k', sy_tokens = (\<lambda>_. None), sy_plans = [], sy_now = env_instant env\<rparr>"

definition sys_init :: "trusted_chrome \<Rightarrow> system" where
  "sys_init chrome = \<lparr>sy_kernel = with_clock chrome (\<lambda>_. False) 1, sy_tokens = (\<lambda>_. None),
     sy_plans = [], sy_now = 0\<rparr>"

inductive reachable :: "externals \<Rightarrow> system \<Rightarrow> bool" for x where
  Init: "reachable x (sys_init chrome)"
| Step: "reachable x s \<Longrightarrow> sys_step x s s' \<Longrightarrow> reachable x s'"

section \<open>The invariant of the system\<close>

definition token_inv :: "externals \<Rightarrow> kernel \<Rightarrow> instant \<Rightarrow> u64 \<Rightarrow> token \<Rightarrow> bool" where
  "token_inv x k now i tok \<longleftrightarrow> i < k_next_invocation_id k \<and> (case tok of
       Waiting t \<Rightarrow> pi_id t = i \<and> (\<forall>p. bt_get (k_pending k) i = Some p \<longrightarrow> token_fits x k t p)
     | Ready a \<Rightarrow> az_id a = i \<and> ca_cell (ic_cancellation (az_context a)) = i \<and>
         (case bt_get (k_pending k) i of
            None \<Rightarrow> k_flags k i \<or> ca_deadline (ic_cancellation (az_context a)) \<le> now
          | Some p \<Rightarrow> ready_for k a p)
     | Ran e \<Rightarrow> ex_id e = i \<and> executed_ok e)"

definition waiting_ok :: "kernel \<Rightarrow> u64 \<Rightarrow> bool" where
  "waiting_ok k i \<longleftrightarrow> (\<forall>p. bt_get (k_pending k) i = Some p \<longrightarrow>
     i < k_next_invocation_id k \<and> (k_flags k i \<or> backed k p))"

definition sys_inv :: "externals \<Rightarrow> system \<Rightarrow> bool" where
  "sys_inv x s \<longleftrightarrow> kernel_inv x (sy_kernel s) \<and> (\<forall>i. waiting_ok (sy_kernel s) i) \<and>
     (\<forall>i tok. sy_tokens s i = Some tok \<longrightarrow> token_inv x (sy_kernel s) (sy_now s) i tok) \<and>
     (\<forall>p\<in>set (sy_plans s). prepared_install_ok p)"

lemma sys_invD:
  assumes "sys_inv x s"
  shows "kernel_inv x (sy_kernel s)" "waiting_ok (sy_kernel s) i"
    "sy_tokens s i = Some tok \<Longrightarrow> token_inv x (sy_kernel s) (sy_now s) i tok"
    "p \<in> set (sy_plans s) \<Longrightarrow> prepared_install_ok p"
  using assms by (auto simp: sys_inv_def)

lemma waiting_ok_evolves: "evolves now J K k k' \<Longrightarrow> i \<notin> J \<Longrightarrow> waiting_ok k i \<Longrightarrow> waiting_ok k' i"
  using evolvesD(2)[of now J K k k'] evolvesD(3)[of now J K k k' i] evolvesD(4,6)[of now J K k k' i]
  unfolding waiting_ok_def by metis

lemma token_inv_evolves:
  assumes e: "evolves now J K k k'" and JK: "i \<notin> J \<union> K" and tok: "token_inv x k old i tok" and le: "old \<le> now"
  shows "token_inv x k' now i tok"
proof -
  have J: "i \<notin> J" using JK by simp
  note D = evolvesD[OF e] and same = evolvesD(4)[OF e J] and kept = kept_pending[OF e J]
  show ?thesis
  proof (cases tok)
    case (Waiting t)
    with tok D(2) same kept(2)[of _ x t] show ?thesis by (auto simp: token_inv_def)
  next
    case (Ready a)
    have "case bt_get (k_pending k') i of
        None \<Rightarrow> k_flags k' i \<or> ca_deadline (ic_cancellation (az_context a)) \<le> now
      | Some p \<Rightarrow> ready_for k' a p"
    proof (cases "bt_get (k_pending k') i")
      case None
      then show ?thesis
        using tok Ready D(3)[of i] evolvesD(7)[OF e JK _ None] le
        by (auto simp: token_inv_def ready_for_def split: option.splits)
    next
      case (Some p)
      then show ?thesis using tok Ready same[OF Some] kept(1)[OF Some] by (auto simp: token_inv_def ready_for_def)
    qed
    with tok Ready D(2) show ?thesis by (simp add: token_inv_def)
  next
    case (Ran e)
    with tok D(2) show ?thesis by (simp add: token_inv_def)
  qed
qed

text \<open>An operation on one invocation keeps the invariant if it does so for that one.\<close>

lemma sys_inv_step:
  assumes inv: "sys_inv x s" and k': "kernel_inv x k'" and e: "evolves now J K (sy_kernel s) k'" and le: "sy_now s \<le> now"
    and J: "\<And>i. i \<in> J \<Longrightarrow> waiting_ok k' i"
    and K: "\<And>i tok. i \<in> J \<union> K \<Longrightarrow> tokens i = Some tok \<Longrightarrow> token_inv x k' now i tok"
    and same: "\<And>i. i \<notin> J \<union> K \<Longrightarrow> tokens i = sy_tokens s i"
  shows "sys_inv x (s\<lparr>sy_kernel := k', sy_tokens := tokens, sy_now := now\<rparr>)"
proof -
  have "waiting_ok k' i" for i
    using inv J waiting_ok_evolves[OF e, of i] by (cases "i \<in> J") (auto simp: sys_inv_def)
  moreover have "token_inv x k' now i tok" if "tokens i = Some tok" for i tok
  proof (cases "i \<in> J \<union> K")
    case False
    with that same inv have "token_inv x (sy_kernel s) (sy_now s) i tok" by (simp add: sys_inv_def)
    from token_inv_evolves[OF e False this le] show ?thesis .
  qed (use that K in blast)
  ultimately show ?thesis using inv k' by (auto simp: sys_inv_def)
qed

lemma sys_inv_evolved:
  assumes "sys_inv x s" "kernel_inv x k'" "evolves now {} {} (sy_kernel s) k'" "sy_now s \<le> now"
  shows "sys_inv x (s\<lparr>sy_kernel := k', sy_now := now\<rparr>)"
  using sys_inv_step[OF assms, of "sy_tokens s"] by (cases s) simp

section \<open>Every step keeps it\<close>

lemma discard_snd: "snd (discard m k) = snd (m k)"
  by (simp add: discard_def bind_s_def ret_def split: prod.splits result.splits)

lemma discard_maintains: "maintains x m \<Longrightarrow> maintains x (discard m)"
  unfolding discard_def wp_simps by blast

lemma modify_maintains: "(\<And>k. kernel_inv x k \<Longrightarrow> kernel_inv x (f k)) \<Longrightarrow> maintains x (modify f)"
  by (simp add: wp_simps)

lemmas operations_maintain =
  end_run_maintains publish_app_data_change_maintains revoke_grant_maintains
  revoke_grants_for_resource_maintains upgrade_app_maintains uninstall_maintains
  discard_maintains[OF start_run_maintains] discard_maintains[OF open_surface_maintains]
  discard_maintains[OF acquire_lease_maintains] discard_maintains[OF drain_inbox_maintains]
  discard_maintains[OF commit_grant_maintains] discard_maintains[OF issue_grant_maintains]
  modify_maintains[OF close_surface_inv] modify_maintains[OF put_secret_inv]
  modify_maintains[OF clear_secret_inv] modify_maintains[OF cancel_pending_inv]

lemma command_maintains: "maintains x (run_command x env c)"
  by (cases c; simp only: run_command.simps; (rule operations_maintain | rule operations_maintain, assumption))

lemma command_evolves:
  assumes "kernel_inv x k" "fresh_grant_ids env k"
  shows "evolves (env_instant env) {} {} k (snd (run_command x env c k))"
  using kernel_invD(3)[OF assms(1)]
  by (cases c)
    (simp_all add: discard_snd modify_def evolving_start_run evolving_end_run evolving_open_surface
      close_surface_evolves evolving_acquire_lease secret_evolves evolving_drain_inbox evolving_publish
      cancel_run_evolves commit_grant_evolves[OF assms(2)] issue_grant_evolves[OF assms(2)]
      revoke_grant_evolves revoke_resource_evolves upgrade_evolves uninstall_evolves[OF assms(1)])

lemma below_next: "(i::u64) < n \<Longrightarrow> n < - 1 \<Longrightarrow> i < n + 1" "(n::u64) < - 1 \<Longrightarrow> n < n + 1"
  by unat_arith+

lemma sys_inv_registered:
  assumes inv: "sys_inv x s" and k': "kernel_inv x k'" and r: "registered x now (sy_kernel s) t k'"
    and le: "sy_now s \<le> now" and free: "counter_free s"
  shows "sys_inv x (s\<lparr>sy_kernel := k', sy_tokens := (sy_tokens s)(pi_id t := Some (Waiting t)), sy_now := now\<rparr>)"
proof -
  let ?i = "pi_id t"
  from r obtain k1 p where k1: "evolves now {} {} (sy_kernel s) k1" "backed k1 p" "token_fits x k1 t p"
      "?i = k_next_invocation_id (sy_kernel s)"
    and k'_def: "k' = k1\<lparr>k_next_invocation_id := ?i + 1, k_flags := (k_flags k1)(?i := False),
      k_pending := bt_insert ?i p (k_pending k1)\<rparr>"
    by (auto simp: registered_def)
  have n: "k_next_invocation_id k1 = ?i" "?i < - 1"
    using evolvesD(2)[OF k1(1)] k1(4) free by (simp_all add: counter_free_def)
  have same: "recorded k' ev = recorded k1 ev" "backed k' q = backed k1 q" "k_registry k' = k_registry k1" for ev q
    by (simp_all add: k'_def recorded_def backed_def)
  have fits: "token_fits x k' t q = token_fits x k1 t q" "ready_for k' a q = ready_for k1 a q" for t q a
    by (simp_all add: token_fits_def ready_for_def approved_def own_surface_action_def same split: option.splits)
  have w1: "waiting_ok k1 j" for j
    using waiting_ok_evolves[OF k1(1), of j] inv by (simp add: sys_inv_def)
  have t1: "token_inv x k1 now j tok" if "sy_tokens s j = Some tok" for j tok
    using token_inv_evolves[OF k1(1) _ _ le, of j x tok] inv that by (simp add: sys_inv_def)
  have "waiting_ok k' j" for j
    using w1[of j] k1(2) n below_next(1)[of j ?i] below_next(2)[of ?i]
    by (auto simp: waiting_ok_def same) (auto simp: k'_def bt_get_insert split: if_splits)
  moreover have "token_inv x k' now j tok" if "((sy_tokens s)(?i := Some (Waiting t))) j = Some tok" for j tok
  proof (cases "j = ?i")
    case True
    with that have "tok = Waiting t" by simp
    moreover have "bt_get (k_pending k') ?i = Some p" "k_next_invocation_id k' = ?i + 1" by (simp_all add: k'_def)
    ultimately show ?thesis
      using True k1(3) below_next(2)[OF n(2)] by (simp add: token_inv_def fits)
  next
    case False
    then have "token_inv x k1 now j tok" using t1 that by simp
    with False show ?thesis
      using below_next(1)[OF _ n(2), of j] n(1)
      by (auto simp: token_inv_def fits split: token.splits option.splits) (auto simp: k'_def bt_get_insert)
  qed
  ultimately show ?thesis using inv k' by (simp add: sys_inv_def)
qed

lemma sys_inv_prepared:
  assumes inv: "sys_inv x s" and k': "kernel_inv x k'" and le: "sy_now s \<le> now" and free: "counter_free s"
    and out: "case outcome of Some r \<Rightarrow> prepare_post x now (sy_kernel s) r k' | None \<Rightarrow> evolves now {} {} (sy_kernel s) k'"
  shows "sys_inv x (s\<lparr>sy_kernel := k', sy_tokens := issue_token outcome (sy_tokens s), sy_now := now\<rparr>)"
proof (cases "\<exists>t. outcome = Some (Prepared t)")
  case True
  then obtain t where t: "outcome = Some (Prepared t)" ..
  with out have "registered x now (sy_kernel s) t k'" by (simp add: prepare_post_def)
  from sys_inv_registered[OF inv k' this le free] t show ?thesis by (simp add: issue_token_def)
next
  case False
  then have "issue_token outcome (sy_tokens s) = sy_tokens s"
    by (auto simp: issue_token_def split: option.splits prepare_invocation_outcome.splits)
  moreover have "evolves now {} {} (sy_kernel s) k'"
    using out False by (auto simp: prepare_post_def split: option.splits prepare_invocation_outcome.splits)
  ultimately show ?thesis using sys_inv_step[OF inv k' _ le] by (metis Un_empty empty_iff)
qed

lemma sys_inv_authorized:
  assumes inv: "sys_inv x s" and k': "kernel_inv x k'" and le: "sy_now s \<le> env_instant env"
    and tok: "sy_tokens s i = Some (Waiting t)"
    and a: "authorize_invocation x env (await_approval t) (sy_kernel s) = (r, k')"
  shows "sys_inv x (s\<lparr>sy_kernel := k', sy_tokens := authorize_token i r (sy_tokens s), sy_now := env_instant env\<rparr>)"
proof (rule sys_inv_step[OF inv k' _ le])
  have t: "pi_id t = i" "i < k_next_invocation_id (sy_kernel s)"
      "bt_get (k_pending (sy_kernel s)) i = Some p \<Longrightarrow> token_fits x (sy_kernel s) t p" for p
    using sys_invD(3)[OF inv tok] by (auto simp: token_inv_def)
  have id: "apr_id (await_approval t) = i" by (simp add: await_approval_def t(1))
  show e: "evolves (env_instant env) {i} {i} (sy_kernel s) k'"
    using evolving_authorize[of i "await_approval t" env x] a id by (metis snd_conv)
  have next': "k_next_invocation_id k' = k_next_invocation_id (sy_kernel s)" by (rule evolvesD(2)[OF e])
  show "waiting_ok k' j" if "j \<in> {i}" for j
  proof (cases "\<exists>a. r = Ok (Authorized a)")
    case True
    then obtain a' where r: "r = Ok (Authorized a')" ..
    then obtain p where p: "bt_get (k_pending (sy_kernel s)) i = Some p"
      using authorize_needs_pending[of x env "await_approval t" "sy_kernel s" a' k'] a id by auto
    have "authorized_post (sy_kernel s) i p (Authorized a') k'"
      using authorize_posts[OF t(3)[OF p] t(1) p, of x env a' k'] a r by simp
    moreover have "waiting_ok (sy_kernel s) i" using inv by (simp add: sys_inv_def)
    ultimately show ?thesis
      using that p t(2) by (auto simp: waiting_ok_def authorized_post_def backed_def next')
  next
    case False
    then have "k_flags k' i" using authorize_refused_flag[OF a] id by simp
    then show ?thesis using that t(2) by (auto simp: waiting_ok_def next')
  qed
  show "token_inv x k' (env_instant env) j tok'"
    if "j \<in> {i} \<union> {i}" "authorize_token i r (sy_tokens s) j = Some tok'" for j tok'
  proof -
    from that obtain a' where r: "r = Ok (Authorized a')" "tok' = Ready a'" "j = i"
      by (auto simp: authorize_token_def split: result.splits authorize_invocation_outcome.splits)
    then obtain p where p: "bt_get (k_pending (sy_kernel s)) i = Some p"
      using authorize_needs_pending[of x env "await_approval t" "sy_kernel s" a' k'] a id by auto
    have "authorized_post (sy_kernel s) i p (Authorized a') k'"
      using authorize_posts[OF t(3)[OF p] t(1) p, of x env a' k'] a r by simp
    with r t(2) show ?thesis by (auto simp: token_inv_def authorized_post_def next')
  qed
  show "authorize_token i r (sy_tokens s) j = sy_tokens s j" if "j \<notin> {i} \<union> {i}" for j
    using that by (auto simp: authorize_token_def split: result.splits authorize_invocation_outcome.splits)
qed

lemma sys_inv_spent:
  assumes "sys_inv x s" "kernel_inv x k'" "evolves now {} {i} (sy_kernel s) k'" "sy_now s \<le> now"
    "\<And>tok. tok' = Some tok \<Longrightarrow> token_inv x k' now i tok"
  shows "sys_inv x (s\<lparr>sy_kernel := k', sy_tokens := (sy_tokens s)(i := tok'), sy_now := now\<rparr>)"
  using assms(5) by (intro sys_inv_step[OF assms(1-4)]) auto

lemma start_sys_inv:
  assumes "kernel_inv x k" "bt_entries (k_pending k) = []"
  shows "sys_inv x \<lparr>sy_kernel = k, sy_tokens = (\<lambda>_. None), sy_plans = [], sy_now = now\<rparr>"
  using assms by (auto simp: sys_inv_def waiting_ok_def in_entries_iff[symmetric])

lemma restore_keeps_pending:
  "wp (restore_services x env state) (\<lambda>_ k'. k_pending k' = k_pending k) (\<lambda>_ _. True) k"
  unfolding restore_services_def interrupt_active_runs_def
  by (auto simp: wp_simps split!: result.splits intro!: wp_record_batch)

lemma started_pending:
  assumes "with_clock_and_state_store x env chrome flags next_id loaded = (Ok (), k)"
  shows "k_pending k = bt_empty"
  using assms wpD_Ok[OF restore_keeps_pending]
  by (auto simp: with_clock_and_state_store_def with_clock_def Let_def split: result.splits option.splits)

lemma step_command:
  assumes "sys_inv x s" "env_fits env s" "run_command x env c (sy_kernel s) = (r, k')"
  shows "sys_inv x (s\<lparr>sy_kernel := k', sy_now := env_instant env\<rparr>)"
  using sys_inv_evolved[OF assms(1), of k' "env_instant env"] assms(2,3) sys_invD(1)[OF assms(1)]
    maintains_snd[OF command_maintains[of x env c], of "sy_kernel s"] command_evolves[of x "sy_kernel s" env c]
  by (simp add: env_fits_def)

lemma step_prepare:
  assumes "sys_inv x s" "env_fits env s" "counter_free s"
    "prepare_invocation_with_timeout x env run_id cap rq timeout (sy_kernel s) = (r, k')"
  shows "sys_inv x (s\<lparr>sy_kernel := k', sy_tokens := issue_token (outcome_of r) (sy_tokens s), sy_now := env_instant env\<rparr>)"
proof (rule sys_inv_prepared[OF assms(1) _ _ assms(3)])
  note inv = sys_invD(1)[OF assms(1)]
  show "kernel_inv x k'"
    using maintains_snd[OF keeps_prepare_wrappers(1) inv, of x env run_id cap rq timeout] assms(4) by simp
  have "wp (prepare_invocation_with_timeout x env run_id cap rq timeout)
      (prepare_post x (env_instant env) (sy_kernel s)) (\<lambda>_. evolves (env_instant env) {} {} (sy_kernel s)) (sy_kernel s)"
    unfolding prepare_invocation_with_timeout_def by (rule prepare_posts[OF inv]) simp
  then show "case outcome_of r of Some r \<Rightarrow> prepare_post x (env_instant env) (sy_kernel s) r k'
      | None \<Rightarrow> evolves (env_instant env) {} {} (sy_kernel s) k'"
    using assms(4) by (cases r) (auto simp: wp_def)
qed (use assms(2) in \<open>simp add: env_fits_def\<close>)

lemma step_act:
  assumes "sys_inv x s" "env_fits env s" "counter_free s"
    "prepare_surface_action x env binding intent (sy_kernel s) = (r, k')"
  shows "sys_inv x (s\<lparr>sy_kernel := k', sy_tokens := issue_token (map_option snd (outcome_of r)) (sy_tokens s),
    sy_now := env_instant env\<rparr>)"
proof (rule sys_inv_prepared[OF assms(1) _ _ assms(3)])
  note inv = sys_invD(1)[OF assms(1)]
  show "kernel_inv x k'"
    using maintains_snd[OF prepare_surface_action_maintains inv, of x env binding intent] assms(4) by simp
  show "case map_option snd (outcome_of r) of Some r \<Rightarrow> prepare_post x (env_instant env) (sy_kernel s) r k'
      | None \<Rightarrow> evolves (env_instant env) {} {} (sy_kernel s) k'"
    using surface_action_posts[OF inv, of x env binding intent] assms(4) by (cases r) (auto simp: wp_def)
qed (use assms(2) in \<open>simp add: env_fits_def\<close>)

lemma step_authorize:
  assumes "sys_inv x s" "env_fits env s" "sy_tokens s i = Some (Waiting t)"
    "authorize_invocation x env (await_approval t) (sy_kernel s) = (r, k')"
  shows "sys_inv x (s\<lparr>sy_kernel := k', sy_tokens := authorize_token i r (sy_tokens s), sy_now := env_instant env\<rparr>)"
  using maintains_snd[OF authorize_maintains[of x x env "await_approval t"] sys_invD(1)[OF assms(1)]] assms(2,4)
  by (intro sys_inv_authorized[OF assms(1) _ _ assms(3,4)]) (simp_all add: env_fits_def)

lemma step_execute:
  assumes "sys_inv x s" "env_fits env s" "sy_tokens s i = Some (Ready a)"
    "kernel_execute env progress a (sy_kernel s) = (e, k')"
  shows "sys_inv x (s\<lparr>sy_kernel := k', sy_tokens := (sy_tokens s)(i := Some (Ran e)), sy_now := env_instant env\<rparr>)"
proof -
  have t: "az_id a = i" "i < k_next_invocation_id (sy_kernel s)"
    using sys_invD(3)[OF assms(1,3)] by (auto simp: token_inv_def)
  have ev: "evolves (env_instant env) {} {i} (sy_kernel s) k'"
    using execute_evolves[of "env_instant env" "{}" "{i}" "sy_kernel s" env progress a] assms(4) by simp
  have "executed_ok e \<and> ex_id e = az_id a"
    using assms(4) by (auto simp: kernel_execute_def dest: execute_ok split: prod.splits)
  then show ?thesis
    using sys_inv_spent[OF assms(1) _ ev, of "Some (Ran e)"] kernel_execute_inv[OF assms(4), of x] sys_invD(1)[OF assms(1)]
      t evolvesD(2)[OF ev] assms(2)
    by (simp add: token_inv_def env_fits_def)
qed

lemma step_finalize:
  assumes "sys_inv x s" "env_fits env s" "sy_tokens s i = Some (Ran e)"
    "finalize_invocation x env e (sy_kernel s) = (r, k')"
  shows "sys_inv x (s\<lparr>sy_kernel := k', sy_tokens := (sy_tokens s)(i := None), sy_now := env_instant env\<rparr>)"
proof -
  have t: "ex_id e = i" "executed_ok e" using sys_invD(3)[OF assms(1,3)] by (auto simp: token_inv_def)
  have "evolves (env_instant env) {} {i} (sy_kernel s) k'"
    using evolving_finalize[OF t(1)[symmetric], of env x] assms(4) by (metis snd_conv)
  moreover have "kernel_inv x k'"
    using finalize_keeps[OF sys_invD(1)[OF assms(1)] t(2), of x env] assms(4) by (auto simp: wp_def split: result.splits)
  ultimately show ?thesis using sys_inv_spent[OF assms(1), of k' _ i None] assms(2) by (simp add: env_fits_def)
qed

lemma step_abort:
  assumes "sys_inv x s" "env_fits env s" "maintains x m" "evolving env {} {i} m" "m (sy_kernel s) = (r, k')"
  shows "sys_inv x (s\<lparr>sy_kernel := k', sy_tokens := (sy_tokens s)(i := None), sy_now := env_instant env\<rparr>)"
proof -
  have "evolves (env_instant env) {} {i} (sy_kernel s) k'" using assms(4,5) by (metis snd_conv)
  moreover have "kernel_inv x k'" using maintains_snd[OF assms(3) sys_invD(1)[OF assms(1)]] assms(5) by simp
  ultimately show ?thesis using sys_inv_spent[OF assms(1), of k' _ i None] assms(2) by (simp add: env_fits_def)
qed

lemma step_drop:
  assumes "sys_inv x s"
  shows "sys_inv x (s\<lparr>sy_kernel := drop_token i (sy_kernel s), sy_tokens := (sy_tokens s)(i := None)\<rparr>)"
proof -
  have "evolves (sy_now s) {} {i} (sy_kernel s) (drop_token i (sy_kernel s))"
    unfolding drop_token_def by (rule set_flag_evolves)
  with sys_inv_spent[OF assms, of "drop_token i (sy_kernel s)" "sy_now s" i None] sys_invD(1)[OF assms]
  show ?thesis by (cases s) (simp add: drop_token_def)
qed

lemma step_commit_install:
  assumes "sys_inv x s" "env_fits env s" "p \<in> set (sy_plans s)"
    "commit_install x env (await_install_approval p) (sy_kernel s) = (r, k')"
  shows "sys_inv x (s\<lparr>sy_kernel := k', sy_now := env_instant env\<rparr>)"
proof (rule sys_inv_evolved[OF assms(1)])
  note inv = sys_invD(1)[OF assms(1)]
  have "prepared_install_ok (il_prepared (await_install_approval p))"
    using sys_invD(4)[OF assms(1,3)] by (simp add: await_install_approval_def Let_def)
  from commit_install_keeps[OF inv this, of env] assms(4) show "kernel_inv x k'"
    by (auto simp: wp_def split: result.splits)
  show "evolves (env_instant env) {} {} (sy_kernel s) k'"
    using commit_install_evolves[OF inv, of env "env_instant env" "{}" "{}" "await_install_approval p"] assms(2,4)
    by (simp add: env_fits_def)
qed (use assms(2) in \<open>simp add: env_fits_def\<close>)

lemma step_keeps_sys_inv:
  assumes "sys_step x s s'" "sys_inv x s"
  shows "sys_inv x s'"
  using assms
proof (cases rule: sys_step.cases)
  case (AbortPrepared env i t r k')
  have "pi_id t = i" using sys_invD(3)[OF assms(2) AbortPrepared(3)] by (auto simp: token_inv_def)
  with step_abort[OF assms(2) AbortPrepared(2) abort_maintains(1) _ AbortPrepared(4)] evolving_aborts(1)[of env t]
  show ?thesis by (simp add: AbortPrepared(1))
next
  case (AbortAuthorized env i a r k')
  have "az_id a = i" using sys_invD(3)[OF assms(2) AbortAuthorized(3)] by (auto simp: token_inv_def)
  with step_abort[OF assms(2) AbortAuthorized(2) abort_maintains(2) _ AbortAuthorized(4)] evolving_aborts(2)[of env a]
  show ?thesis by (simp add: AbortAuthorized(1))
next
  case (PlanInstall env sealed handlers origin p)
  then show ?thesis
    using assms(2) prepared_install_makes_ok[OF PlanInstall(2)] by (auto simp: sys_inv_def)
next
  case (Restart env chrome flags next_id loaded k')
  then show ?thesis
    using start_sys_inv[OF start_inv[OF Restart(2)]] started_pending[OF Restart(2)] by simp
qed (use assms(2) in \<open>auto intro: step_command step_prepare step_act step_authorize step_execute step_finalize
      step_drop step_commit_install\<close>)

theorem reachable_sys_inv: "reachable x s \<Longrightarrow> sys_inv x s"
proof (induction rule: reachable.induct)
  case (Init chrome)
  have "kernel_inv x ((with_clock chrome (\<lambda>_. False) 1)\<lparr>k_store := None\<rparr>)" by (rule new_kernel_inv) simp
  then have "kernel_inv x (with_clock chrome (\<lambda>_. False) 1)" by (simp add: with_clock_def)
  then show ?case unfolding sys_init_def by (rule start_sys_inv) (simp add: with_clock_def)
qed (rule step_keeps_sys_inv)

end
