(* ===== verification/Kernel_Scenario.thy ===== *)
theory Kernel_Scenario
  imports Kernel_System
begin

text \<open>
  A concrete history of the system, for the witnesses: an empty store is opened, an app is
  installed without its grant, the user adds a grant that asks for approval, the app starts a
  run and prepares an invocation, the user approves it, and it is authorized.
\<close>

definition scene_externals :: externals where
  "scene_externals = sample_externals\<lparr>x_json_pretty := (\<lambda>_. ''{}'')\<rparr>"

definition scene_chrome :: trusted_chrome where
  "scene_chrome = \<lparr>ch_ptr = 0, ch_confirm_grant = (\<lambda>_. DecisionApproved),
     ch_approve_capability = (\<lambda>_. DecisionApproved), ch_confirm_event_subscriptions = (\<lambda>_. DecisionApproved),
     ch_confirm_install = (\<lambda>prompt. \<lparr>iad_event_decision = Some DecisionApproved,
       iad_grant_decisions = map (\<lambda>_. DecisionDenied) (ip_grants prompt)\<rparr>),
     ch_show_notice = (\<lambda>_. Ok ())\<rparr>"

definition scene_env :: "int \<Rightarrow> string \<Rightarrow> env" where
  "scene_env t uuid = \<lparr>env_now = t, env_instant = t, env_uuid = (\<lambda>_. uuid),
     env_commit = (\<lambda>_. Committed), env_lands = (\<lambda>_. True)\<rparr>"

definition scene_handlers :: handler_table where
  "scene_handlers = bt_of_list [(''save'', \<lambda>_ _. (HandlerReturned (Ok
     \<lparr>oc_result = JNull, oc_artifacts = [\<lparr>dr_artifact_type = ''note'', dr_title = ''t'', dr_content = JNull\<rparr>]\<rparr>), False))]"

definition scene_request :: grant_request where
  "scene_request = (sample_request ''n'')\<lparr>rq_condition := RequiresApproval, rq_data_scope := ScopeNone\<rparr>"

definition scene_sealed :: sealed_manifest where
  "scene_sealed = seal scene_externals ((sample_manifest ''n'')\<lparr>mf_connectors := [],
     mf_event_subscriptions := [], mf_grant_requests := []\<rparr>)"

definition scene_empty :: system where
  "scene_empty = \<lparr>sy_kernel = snd (with_clock_and_state_store scene_externals (scene_env 0 ''u0'') scene_chrome
     (\<lambda>_. False) 1 (Ok None)), sy_tokens = (\<lambda>_. None), sy_plans = [], sy_now = 0\<rparr>"

definition scene_plan :: "prepared_install kernel_result" where
  "scene_plan = prepare_install_with_grant_origin scene_externals (scene_env 1 ''u1'') (sy_kernel scene_empty)
     scene_sealed scene_handlers ManifestRequested"

definition ok_value :: "('a, 'e) result \<Rightarrow> 'a" where
  "ok_value r = (case r of Ok a \<Rightarrow> a)"

definition scene_planned :: system where
  "scene_planned = scene_empty\<lparr>sy_plans := ok_value scene_plan # sy_plans scene_empty\<rparr>"

definition scene_installed :: system where
  "scene_installed = scene_planned\<lparr>sy_kernel := snd (commit_install scene_externals (scene_env 2 ''u2'')
     (await_install_approval (ok_value scene_plan)) (sy_kernel scene_planned)), sy_now := 2\<rparr>"

definition scene_command :: "int \<Rightarrow> string \<Rightarrow> command \<Rightarrow> system \<Rightarrow> system" where
  "scene_command t uuid c s =
     s\<lparr>sy_kernel := snd (run_command scene_externals (scene_env t uuid) c (sy_kernel s)), sy_now := t\<rparr>"

definition scene_capability :: capability_ref where
  "scene_capability = CapabilityRef ''n'' ''save''"

definition scene_prepare ::
    "int \<Rightarrow> string \<Rightarrow> system \<Rightarrow> (prepare_invocation_outcome, failure) result \<times> kernel" where
  "scene_prepare t uuid s = prepare_invocation_with_timeout scene_externals (scene_env t uuid) (new_run_id ''u4'')
     scene_capability \<lparr>ir_input = [], ir_data_scope = ScopeNone\<rparr> 20 (sy_kernel s)"

definition scene_act ::
    "int \<Rightarrow> string \<Rightarrow> surface_binding \<Rightarrow> system \<Rightarrow> (run_id \<times> prepare_invocation_outcome, failure) result \<times> kernel" where
  "scene_act t uuid binding s = prepare_surface_action scene_externals (scene_env t uuid) binding
     \<lparr>ai_capability = scene_capability, ai_input = [], ai_data_scope = ScopeNone, ai_goal = ''g''\<rparr> (sy_kernel s)"

definition after_prepare ::
    "int \<Rightarrow> (prepare_invocation_outcome, failure) result \<times> kernel \<Rightarrow> system \<Rightarrow> system" where
  "after_prepare t step s = s\<lparr>sy_kernel := snd step,
     sy_tokens := issue_token (outcome_of (fst step)) (sy_tokens s), sy_now := t\<rparr>"

fun prepared_token :: "(prepare_invocation_outcome, failure) result \<Rightarrow> prepared_invocation option" where
  "prepared_token (Ok (Prepared t)) = Some t"
| "prepared_token _ = None"

definition scene_authorize ::
    "int \<Rightarrow> string \<Rightarrow> prepared_invocation \<Rightarrow> system \<Rightarrow> (authorize_invocation_outcome, failure) result \<times> kernel" where
  "scene_authorize t uuid token s =
     authorize_invocation scene_externals (scene_env t uuid) (await_approval token) (sy_kernel s)"

fun authorized_token :: "(authorize_invocation_outcome, failure) result \<Rightarrow> authorized_invocation option" where
  "authorized_token (Ok (Authorized a)) = Some a"
| "authorized_token _ = None"

definition after_authorize ::
    "int \<Rightarrow> u64 \<Rightarrow> (authorize_invocation_outcome, failure) result \<times> kernel \<Rightarrow> system \<Rightarrow> system" where
  "after_authorize t i step s = s\<lparr>sy_kernel := snd step,
     sy_tokens := authorize_token i (fst step) (sy_tokens s), sy_now := t\<rparr>"

definition scene_execute :: "int \<Rightarrow> string \<Rightarrow> authorized_invocation \<Rightarrow> system \<Rightarrow> executed_invocation \<times> kernel" where
  "scene_execute t uuid token s = kernel_execute (scene_env t uuid) default_reporter token (sy_kernel s)"

definition after_execute :: "int \<Rightarrow> u64 \<Rightarrow> executed_invocation \<times> kernel \<Rightarrow> system \<Rightarrow> system" where
  "after_execute t i step s = s\<lparr>sy_kernel := snd step, sy_tokens := (sy_tokens s)(i := Some (Ran (fst step))),
     sy_now := t\<rparr>"

definition scene_finalize ::
    "int \<Rightarrow> string \<Rightarrow> executed_invocation \<Rightarrow> system \<Rightarrow> (invocation_result, failure) result \<times> kernel" where
  "scene_finalize t uuid token s = finalize_invocation scene_externals (scene_env t uuid) token (sy_kernel s)"

definition after_spent :: "int \<Rightarrow> u64 \<Rightarrow> 'a \<times> kernel \<Rightarrow> system \<Rightarrow> system" where
  "after_spent t i step s = s\<lparr>sy_kernel := snd step, sy_tokens := (sy_tokens s)(i := None), sy_now := t\<rparr>"

definition scene_restart :: "system \<Rightarrow> (unit, failure) result \<times> kernel" where
  "scene_restart s = with_clock_and_state_store scene_externals (scene_env 0 ''u9'') scene_chrome (\<lambda>_. False) 1
     (Ok (the (k_store (sy_kernel s))))"

section \<open>The main history\<close>

definition scene_granted :: system where
  "scene_granted = scene_command 3 ''u3'' (IssueGrant ''n'' scene_request) scene_installed"

definition scene_running :: system where
  "scene_running = scene_command 4 ''u4'' (StartRun (InitiatorApp ''n'' ''main'') ''goal'') scene_granted"

definition scene_preparing :: "(prepare_invocation_outcome, failure) result \<times> kernel" where
  "scene_preparing = scene_prepare 5 ''u5'' scene_running"

definition scene_waiting :: prepared_invocation where
  "scene_waiting = the (prepared_token (fst scene_preparing))"

definition scene_prepared :: system where
  "scene_prepared = after_prepare 5 scene_preparing scene_running"

definition scene_authorizing :: "(authorize_invocation_outcome, failure) result \<times> kernel" where
  "scene_authorizing = scene_authorize 6 ''u6'' scene_waiting scene_prepared"

definition scene_ready :: authorized_invocation where
  "scene_ready = the (authorized_token (fst scene_authorizing))"

definition scene_authorized :: system where
  "scene_authorized = after_authorize 6 1 scene_authorizing scene_prepared"

definition scene_executing :: "executed_invocation \<times> kernel" where
  "scene_executing = scene_execute 7 ''u7'' scene_ready scene_authorized"

definition scene_ran :: system where
  "scene_ran = after_execute 7 1 scene_executing scene_authorized"

definition scene_finalizing :: "(invocation_result, failure) result \<times> kernel" where
  "scene_finalizing = scene_finalize 8 ''u8'' (fst scene_executing) scene_ran"

definition scene_done :: system where
  "scene_done = after_spent 8 1 scene_finalizing scene_ran"

definition unknown_grant :: "string \<Rightarrow> system \<Rightarrow> bool" where
  "unknown_grant uuid s \<longleftrightarrow> \<not> bt_contains (br_grants (k_broker (sy_kernel s))) (new_grant_id uuid)"

fun completed :: "(invocation_result, failure) result \<Rightarrow> bool" where
  "completed (Ok (InvocationCompleted _ _)) = True"
| "completed _ = False"

section \<open>Side branches\<close>

definition scene_uninstall :: "(unit, failure) result \<times> kernel" where
  "scene_uninstall = kernel_uninstall (scene_env 4 ''u4'') ''n'' (sy_kernel scene_granted)"

definition scene_upgrade :: "(unit, failure) result \<times> kernel" where
  "scene_upgrade = upgrade_app scene_externals (scene_env 4 ''u4'') scene_sealed scene_handlers (sy_kernel scene_granted)"

definition scene_refused :: "(unit, failure) result \<times> kernel" where
  "scene_refused = run_command scene_externals (scene_env 4 ''u4'') (EndRun (new_run_id ''u9'') RunCompleted)
     (sy_kernel scene_granted)"

text \<open>
  The user acts on a surface of the provider itself, which counts as the approval; the
  invocation completes and its run is ended.
\<close>

definition direct_opening :: "(surface_binding, failure) result \<times> kernel" where
  "direct_opening = open_surface (scene_env 4 ''u4'') ''n'' ''main'' (sy_kernel scene_granted)"

definition direct_acting :: "(run_id \<times> prepare_invocation_outcome, failure) result \<times> kernel" where
  "direct_acting = scene_act 5 ''u5'' (ok_value (fst direct_opening)) (scene_granted\<lparr>sy_kernel := snd direct_opening\<rparr>)"

definition direct_waiting :: prepared_invocation where
  "direct_waiting = the (prepared_token (Ok (snd (ok_value (fst direct_acting)))))"

definition direct_authorizing :: "(authorize_invocation_outcome, failure) result \<times> kernel" where
  "direct_authorizing = scene_authorize 6 ''u6'' direct_waiting (scene_granted\<lparr>sy_kernel := snd direct_acting\<rparr>)"

definition direct_executing :: "executed_invocation \<times> kernel" where
  "direct_executing = scene_execute 7 ''u7'' (the (authorized_token (fst direct_authorizing)))
     (scene_granted\<lparr>sy_kernel := snd direct_authorizing\<rparr>)"

definition direct_finalizing :: "(invocation_result, failure) result \<times> kernel" where
  "direct_finalizing = scene_finalize 8 ''u8'' (fst direct_executing) (scene_granted\<lparr>sy_kernel := snd direct_executing\<rparr>)"

definition direct_ending :: "(unit, failure) result \<times> kernel" where
  "direct_ending = end_run (scene_env 9 ''u9'') (new_run_id ''u5'') RunCompleted (snd direct_finalizing)"

text \<open>
  Two invocations of the same capability and data scope are open in one run: the first is
  authorized, the second is prepared and aborted, then the first completes.
\<close>

definition twin_preparing :: "(prepare_invocation_outcome, failure) result \<times> kernel" where
  "twin_preparing = scene_prepare 7 ''u7'' scene_authorized"

definition twin_aborting :: "(invocation_result, failure) result \<times> kernel" where
  "twin_aborting = abort_prepared_invocation (scene_env 8 ''u8'') (the (prepared_token (fst twin_preparing))) (snd twin_preparing)"

definition twin_executing :: "executed_invocation \<times> kernel" where
  "twin_executing = scene_execute 9 ''u9'' scene_ready (scene_authorized\<lparr>sy_kernel := snd twin_aborting\<rparr>)"

definition twin_finalizing :: "(invocation_result, failure) result \<times> kernel" where
  "twin_finalizing = scene_finalize 10 ''v0'' (fst twin_executing) (scene_authorized\<lparr>sy_kernel := snd twin_executing\<rparr>)"

fun has_state :: "'a option option \<Rightarrow> bool" where
  "has_state (Some (Some _)) = True"
| "has_state _ = False"

section \<open>What evaluation tells about it\<close>

text \<open>One evaluation of the whole history and its branches: the intermediate systems are shared.\<close>

definition scene_checks :: "bool list" where
  "scene_checks = (let s1 = scene_installed;
     s2 = scene_command 3 ''u3'' (IssueGrant ''n'' scene_request) s1;
     s3 = scene_command 4 ''u4'' (StartRun (InitiatorApp ''n'' ''main'') ''goal'') s2;
     pr = scene_prepare 5 ''u5'' s3; t = the (prepared_token (fst pr)); s5 = after_prepare 5 pr s3;
     au = scene_authorize 6 ''u6'' t s5; a = the (authorized_token (fst au)); s6 = after_authorize 6 1 au s5;
     ex = scene_execute 7 ''u7'' a s6; s7 = after_execute 7 1 ex s6;
     fi = scene_finalize 8 ''u8'' (fst ex) s7; s8 = after_spent 8 1 fi s7;
     d0 = open_surface (scene_env 4 ''u4'') ''n'' ''main'' (sy_kernel s2);
     d1 = scene_act 5 ''u5'' (ok_value (fst d0)) (s2\<lparr>sy_kernel := snd d0\<rparr>);
     d2 = scene_authorize 6 ''u6'' (the (prepared_token (Ok (snd (ok_value (fst d1)))))) (s2\<lparr>sy_kernel := snd d1\<rparr>);
     d3 = scene_execute 7 ''u7'' (the (authorized_token (fst d2))) (s2\<lparr>sy_kernel := snd d2\<rparr>);
     d4 = scene_finalize 8 ''u8'' (fst d3) (s2\<lparr>sy_kernel := snd d3\<rparr>);
     d5 = end_run (scene_env 9 ''u9'') (new_run_id ''u5'') RunCompleted (snd d4);
     w1 = scene_prepare 7 ''u7'' s6;
     w2 = abort_prepared_invocation (scene_env 8 ''u8'') (the (prepared_token (fst w1))) (snd w1);
     w3 = scene_execute 9 ''u9'' a (s6\<lparr>sy_kernel := snd w2\<rparr>);
     w4 = scene_finalize 10 ''v0'' (fst w3) (s6\<lparr>sy_kernel := snd w3\<rparr>)
   in [is_ok scene_plan, unknown_grant ''u3'' s1, unknown_grant ''u4'' s2, unknown_grant ''u5'' s3,
       unknown_grant ''u6'' s5, unknown_grant ''u7'' s6, unknown_grant ''u8'' s7,
       k_next_invocation_id (sy_kernel s3) < - 1, pi_id t = 1,
       prepared_token (fst pr) \<noteq> None \<and> is_ok (fst pr), is_ok (fst au) \<and> authorized_token (fst au) \<noteq> None,
       \<not> ex_cancelled_before_dispatch (fst ex), completed (fst fi), is_ok (fst (scene_restart s8)),
       has_state (k_store (sy_kernel s8)), \<not> k_recovery_required (sy_kernel s8),
       bt_contains (rg_apps (k_registry (sy_kernel s1))) ''n'' \<and> bt_contains (k_handlers (sy_kernel s1)) ''n'',
       is_ok (fst (kernel_uninstall (scene_env 4 ''u4'') ''n'' (sy_kernel s2))),
       is_ok (fst (upgrade_app scene_externals (scene_env 4 ''u4'') scene_sealed scene_handlers (sy_kernel s2))),
       \<not> is_ok (fst (run_command scene_externals (scene_env 4 ''u4'') (EndRun (new_run_id ''u9'') RunCompleted) (sy_kernel s2))),
       is_ok (fst d0) \<and> is_ok (fst d1) \<and> authorized_token (fst d2) \<noteq> None \<and> completed (fst d4) \<and> is_ok (fst d5),
       \<not> k_recovery_required (snd d5) \<and> has_state (k_store (snd d5)) \<and>
         \<not> is_ok (fst (scene_restart (s2\<lparr>sy_kernel := snd d5\<rparr>))),
       prepared_token (fst w1) \<noteq> None \<and> is_ok (fst w2) \<and> completed (fst w4),
       \<not> k_recovery_required (snd w4) \<and> has_state (k_store (snd w4)) \<and>
         \<not> is_ok (fst (scene_restart (s6\<lparr>sy_kernel := snd w4\<rparr>)))])"

lemma scene_checks_value: "list_all (\<lambda>b. b) scene_checks"
  by code_simp

lemmas scene_folds =
  scene_granted_def[symmetric] scene_running_def[symmetric]
  scene_preparing_def[symmetric] scene_waiting_def[symmetric] scene_prepared_def[symmetric]
  scene_authorizing_def[symmetric] scene_ready_def[symmetric] scene_authorized_def[symmetric]
  scene_executing_def[symmetric] scene_ran_def[symmetric] scene_finalizing_def[symmetric]
  scene_done_def[symmetric] scene_uninstall_def[symmetric] scene_upgrade_def[symmetric] scene_refused_def[symmetric]
  direct_opening_def[symmetric] direct_acting_def[symmetric] direct_waiting_def[symmetric]
  direct_authorizing_def[symmetric] direct_executing_def[symmetric] direct_finalizing_def[symmetric]
  direct_ending_def[symmetric] twin_preparing_def[symmetric] twin_aborting_def[symmetric]
  twin_executing_def[symmetric] twin_finalizing_def[symmetric]

lemma scene_facts:
  "is_ok scene_plan" "unknown_grant ''u3'' scene_installed" "unknown_grant ''u4'' scene_granted"
  "unknown_grant ''u5'' scene_running" "unknown_grant ''u6'' scene_prepared"
  "unknown_grant ''u7'' scene_authorized" "unknown_grant ''u8'' scene_ran"
  "k_next_invocation_id (sy_kernel scene_running) < - 1" "pi_id scene_waiting = 1"
  "prepared_token (fst scene_preparing) \<noteq> None" "authorized_token (fst scene_authorizing) \<noteq> None"
  "\<not> ex_cancelled_before_dispatch (fst scene_executing)" "completed (fst scene_finalizing)"
  "is_ok (fst (scene_restart scene_done))" "has_state (k_store (sy_kernel scene_done))"
  "\<not> k_recovery_required (sy_kernel scene_done)"
  "bt_contains (rg_apps (k_registry (sy_kernel scene_installed))) ''n''"
  "bt_contains (k_handlers (sy_kernel scene_installed)) ''n''"
  "is_ok (fst scene_uninstall)" "is_ok (fst scene_upgrade)" "\<not> is_ok (fst scene_refused)"
  using scene_checks_value unfolding scene_checks_def Let_def scene_folds by simp_all

lemma branch_facts:
  "is_ok (fst direct_opening) \<and> is_ok (fst direct_acting) \<and> authorized_token (fst direct_authorizing) \<noteq> None \<and>
   completed (fst direct_finalizing) \<and> is_ok (fst direct_ending)"
  "\<not> k_recovery_required (snd direct_ending) \<and> has_state (k_store (snd direct_ending)) \<and>
   \<not> is_ok (fst (scene_restart (scene_granted\<lparr>sy_kernel := snd direct_ending\<rparr>)))"
  "prepared_token (fst twin_preparing) \<noteq> None \<and> is_ok (fst twin_aborting) \<and> completed (fst twin_finalizing)"
  "\<not> k_recovery_required (snd twin_finalizing) \<and> has_state (k_store (snd twin_finalizing)) \<and>
   \<not> is_ok (fst (scene_restart (scene_authorized\<lparr>sy_kernel := snd twin_finalizing\<rparr>)))"
  using scene_checks_value unfolding scene_checks_def Let_def scene_folds by simp_all

section \<open>The history is reachable\<close>

lemma scene_env_fits: "unknown_grant uuid s \<Longrightarrow> sy_now s \<le> t \<Longrightarrow> env_fits (scene_env t uuid) s"
  by (simp add: env_fits_def fresh_grant_ids_def scene_env_def unknown_grant_def bt_contains_def)

lemma scene_times:
  "sy_now scene_installed = 2" "sy_now scene_granted = 3" "sy_now scene_running = 4" "sy_now scene_prepared = 5"
  "sy_now scene_authorized = 6" "sy_now scene_ran = 7"
  by (simp_all add: scene_installed_def scene_granted_def scene_running_def scene_command_def scene_prepared_def
      after_prepare_def scene_authorized_def after_authorize_def scene_ran_def after_execute_def)

lemma scene_instant [simp]: "env_instant (scene_env t uuid) = t"
  by (simp add: scene_env_def)

end
