(* ===== verification/Kernel_Operations.thy ===== *)
theory Kernel_Operations
  imports Kernel_System
begin

text \<open>
  What single operations of the kernel guarantee: a command that fails changes nothing durable,
  an invocation is authorized and completed only while its authority holds, a token is spent
  once, and installing or uninstalling an app moves exactly the authority it should.
\<close>

section \<open>Failure and recovery\<close>

text \<open>The durable services and the store are as before, unless the outcome of a write is unknown.\<close>

definition unchanged :: "kernel \<Rightarrow> kernel \<Rightarrow> bool" where
  "unchanged k k' \<longleftrightarrow> durable_of k' = durable_of k \<and> (k_store k' = k_store k \<or> k_recovery_required k')"

lemma failed_commit_unchanged: "failed_commit k k' \<Longrightarrow> unchanged k k'"
  by (auto simp: failed_commit_def unchanged_def)

lemma unchanged_refl [simp]: "unchanged k k"
  by (simp add: unchanged_def)

lemma wp_record_event_fails:
  "(\<And>r k'. Q r k') \<Longrightarrow> (\<And>e k'. unchanged k k' \<Longrightarrow> E (Failed e) k') \<Longrightarrow> wp (record_event env ev) Q E k"
  by (rule wp_record_event) (auto dest: failed_commit_unchanged)

lemma wp_record_batch_fails:
  "(\<And>r k'. Q r k') \<Longrightarrow> (\<And>e k'. unchanged k k' \<Longrightarrow> E (Failed e) k') \<Longrightarrow> wp (record_batch env evs) Q E k"
  by (rule wp_record_batch) (auto dest: failed_commit_unchanged)

lemma discard_fails: "wp m (\<lambda>_ _. True) E k \<Longrightarrow> wp (discard m) (\<lambda>_ _. True) E k"
  by (auto simp: discard_def wp_simps)

lemma run_operations_fail:
  "wp (start_run env i g) (\<lambda>_ _. True) (\<lambda>_. unchanged k) k"
  "wp (end_run env r t) (\<lambda>_ _. True) (\<lambda>_. unchanged k) k"
  "wp (acquire_lease env r tg d) (\<lambda>_ _. True) (\<lambda>_. unchanged k) k"
  "wp (open_surface env a n) (\<lambda>_ _. True) (\<lambda>_. unchanged k) k"
  "wp (kernel_drain_inbox a) (\<lambda>_ _. True) (\<lambda>_. unchanged k) k"
  "wp (publish_app_data_change a ref revision kind) (\<lambda>_ _. True) (\<lambda>_. unchanged k) k"
  unfolding start_run_def end_run_def acquire_lease_def open_surface_def kernel_drain_inbox_def
    publish_app_data_change_def Let_def
  by (auto simp: wp_simps unchanged_def split!: result.splits prod.splits lease_outcome.splits if_splits
      intro!: wp_record_event_fails wp_record_batch_fails wp_show_notice)

lemma commit_issue_fails: "wp (commit_issue env issued) (\<lambda>_ _. True) (\<lambda>_. unchanged k) k"
  unfolding commit_issue_def
  by (auto simp: wp_simps split!: prod.splits issue_result.splits intro!: wp_commit_state_of dest: failed_commit_unchanged)

lemma grant_operations_fail:
  "wp (commit_grant env ap) (\<lambda>_ _. True) (\<lambda>_. unchanged k) k"
  "wp (issue_grant env h rq) (\<lambda>_ _. True) (\<lambda>_. unchanged k) k"
  "wp (revoke_grant env i) (\<lambda>_ _. True) (\<lambda>_. unchanged k) k"
  "wp (revoke_grants_for_resource env res) (\<lambda>_ _. True) (\<lambda>_. unchanged k) k"
  unfolding commit_grant_def issue_grant_def revoke_grant_def revoke_grants_for_resource_def Let_def
  by (auto simp: wp_simps commit_issue_fails split!: result.splits if_splits
      intro!: wp_commit_state_of dest: failed_commit_unchanged)

lemma app_operations_fail:
  "wp (upgrade_app x env sealed handlers) (\<lambda>_ _. True) (\<lambda>_. unchanged k) k"
  "wp (kernel_uninstall env a) (\<lambda>_ _. True) (\<lambda>_. unchanged k) k"
  unfolding upgrade_app_def kernel_uninstall_def Let_def
  by (auto simp: wp_simps split!: result.splits intro!: wp_commit_state_of dest: failed_commit_unchanged)

lemma command_fails: "wp (run_command x env c) (\<lambda>_ _. True) (\<lambda>_. unchanged k) k"
  by (cases c)
    (simp_all add: run_operations_fail grant_operations_fail app_operations_fail discard_fails wp_simps)

text \<open>While recovery is required, nothing durable happens any more.\<close>

definition frozen :: "kernel \<Rightarrow> kernel \<Rightarrow> bool" where
  "frozen k k' \<longleftrightarrow> durable_of k' = durable_of k \<and> k_store k' = k_store k \<and> k_recovery_required k'"

abbreviation freezes :: "'a kop \<Rightarrow> bool" where
  "freezes m \<equiv> (\<forall>k0 k. frozen k0 k \<longrightarrow> wp m (\<lambda>_. frozen k0) (\<lambda>_. frozen k0) k)"

lemma failed_commit_recovery: "k_recovery_required k \<Longrightarrow> failed_commit k k' \<longleftrightarrow> k' = k"
  by (auto simp: failed_commit_def)

lemma frozen_recovery: "frozen k0 k \<Longrightarrow> k_recovery_required k"
  by (simp add: frozen_def)

lemma frozen_failed: "frozen k0 k \<Longrightarrow> failed_commit k k' \<Longrightarrow> frozen k0 k'"
  by (simp add: failed_commit_recovery frozen_recovery)

lemma recording_blocked:
  assumes "k_recovery_required k" "\<And>e. E (Failed e) k"
  shows "wp (record_event env ev) Q E k" "wp (record_batch env evs) Q' E k" "wp (commit_completion env evs as) Q' E k"
  by (rule wp_record_event wp_record_batch wp_commit_completion; use assms in \<open>auto simp: failed_commit_recovery\<close>)+

lemma freezes_commit:
  "frozen k0 k \<Longrightarrow> (\<And>e. E (Failed e) k) \<Longrightarrow> wp (\<lambda>k. commit_parts env (fr k) (fl k) (fb k) (fa k) k) Q E k"
  by (rule wp_commit_state_of) (auto simp: failed_commit_recovery dest: frozen_recovery)

lemma freezes_bind: "freezes m \<Longrightarrow> (\<And>a. freezes (f a)) \<Longrightarrow> freezes (bind_s m f)"
  unfolding wp_bind_s by (blast intro: wp_mono)

lemma freezes_record:
  "freezes (record_event env ev)" "freezes (record_batch env evs)" "freezes (commit_completion env evs as)"
  by (auto intro!: recording_blocked frozen_recovery)

lemma freezes_basic:
  "freezes (ret a)" "freezes (fail e)" "freezes (fails e')" "freezes (lift_k f)" "freezes (lift_panic g)" "freezes (gets h)"
  "freezes (pending_at i)"
  by (auto simp: wp_simps split: result.splits option.splits)

lemma freezes_modify: "(\<And>k. durable_of (f k) = durable_of k) \<Longrightarrow> (\<And>k. k_store (f k) = k_store k) \<Longrightarrow>
    (\<And>k. k_recovery_required (f k) = k_recovery_required k) \<Longrightarrow> freezes (modify f)"
  by (simp add: wp_simps frozen_def)

lemma freezes_if: "freezes m \<Longrightarrow> freezes m' \<Longrightarrow> freezes (if b then m else m')"
  by simp

lemma freezes_prod: "(\<And>a b. freezes (f a b)) \<Longrightarrow> freezes (case p of (a, b) \<Rightarrow> f a b)"
  by (simp split: prod.splits)

lemma freezes_option: "freezes m \<Longrightarrow> (\<And>a. freezes (f a)) \<Longrightarrow> freezes (case v of None \<Rightarrow> m | Some a \<Rightarrow> f a)"
  by (simp split: option.splits)

lemma freezes_on_err: "freezes m \<Longrightarrow> (\<And>k0 k. frozen k0 k \<Longrightarrow> frozen k0 (f k)) \<Longrightarrow> freezes (on_err m f)"
  unfolding wp_on_err by (blast intro: wp_mono)

text \<open>A commit and the update it guards: the update is never reached.\<close>

lemma freezes_commit_then:
  "freezes (bind_s (\<lambda>k. commit_parts env (fr k) (fl k) (fb k) (fa k) k) f)"
  unfolding wp_bind_s by (auto intro: freezes_commit)

lemma freezes_notice: "freezes (show_notice n)"
  by (auto simp: show_notice_def wp_def frozen_def split: result.splits)

lemmas freeze_intros = freezes_commit_then freezes_bind freezes_record freezes_basic freezes_if freezes_prod
  freezes_option freezes_on_err freezes_notice

lemma freezes_run_operations:
  "freezes (start_run env i g)" "freezes (end_run env r t)" "freezes (acquire_lease env r tg d)"
  "freezes (open_surface env a n)" "freezes (kernel_drain_inbox a)"
  "freezes (publish_app_data_change a ref revision kind)"
proof -
  have "frozen k0 k \<Longrightarrow> wp (end_run env r t) (\<lambda>_. frozen k0) (\<lambda>_. frozen k0) k" for k0 k
    unfolding end_run_def
    by (auto simp: wp_simps intro!: recording_blocked frozen_recovery)
  then show "freezes (end_run env r t)" by blast
  have "freezes (case outcome of LeaseAcquired l \<Rightarrow> ret () | LeaseHeld holder \<Rightarrow> show_notice (n holder))" for outcome n
    by (simp add: freeze_intros split: lease_outcome.splits)
  then show "freezes (acquire_lease env r tg d)"
    unfolding acquire_lease_def Let_def
    by (intro freeze_intros freezes_modify) (simp_all)
  show "freezes (start_run env i g)" "freezes (open_surface env a n)" "freezes (kernel_drain_inbox a)"
    "freezes (publish_app_data_change a ref revision kind)"
    unfolding start_run_def open_surface_def kernel_drain_inbox_def publish_app_data_change_def Let_def
    by (intro freeze_intros freezes_modify; simp)+
qed

lemma freezes_reap: "freezes (reap_cancelled_pending env)"
  unfolding reap_cancelled_pending_def reap_frame
  by (intro freeze_intros freezes_modify) simp_all

lemma freezes_grants:
  "freezes (commit_grant env ap)" "freezes (issue_grant env h rq)" "freezes (revoke_grant env i)"
  "freezes (revoke_grants_for_resource env res)"
proof -
  have "freezes (commit_issue env issued)" for issued
    unfolding commit_issue_def by (simp add: freezes_commit_then freezes_basic split: prod.splits issue_result.splits)
  then show "freezes (commit_grant env ap)" "freezes (issue_grant env h rq)" "freezes (revoke_grant env i)"
    "freezes (revoke_grants_for_resource env res)"
    unfolding commit_grant_def issue_grant_def revoke_grant_def revoke_grants_for_resource_def Let_def
    by (intro freeze_intros; simp)+
qed

lemma freezes_apps:
  "freezes (upgrade_app x env sealed handlers)" "freezes (kernel_uninstall env a)"
  "freezes (commit_fresh x env ap)" "freezes (replace_installed_app x env ap prev)"
  unfolding upgrade_app_def kernel_uninstall_def commit_fresh_def replace_installed_app_def Let_def
  by (intro freeze_intros)+

lemma freezes_rebind: "freezes (commit_rebind env ap)"
  unfolding commit_rebind_def Let_def
  by (intro freeze_intros freezes_modify) (simp_all add: bind_handlers_def)

lemma freezes_commit_install: "freezes (commit_install x env ap)"
proof -
  have "freezes (case mode of Fresh \<Rightarrow> commit_fresh x env ap | Rebind \<Rightarrow> commit_rebind env ap
      | Replace prev \<Rightarrow> replace_installed_app x env ap prev)" for mode
    by (simp add: freezes_apps freezes_rebind split: install_mode.splits)
  then show ?thesis unfolding commit_install_def Let_def by (intro freeze_intros)
qed

lemma freezes_prepare: "freezes (prepare_invocation_with_timeout x env r c rq timeout)"
proof -
  have seek: "freezes (seek_approval x env r run a c d g rq counts)" for run a d g counts
    unfolding seek_approval_def Let_def by (intro freeze_intros)
  have reg: "freezes (register_pending env r a c g rq schema timeout ap)" for a g schema ap
    unfolding register_pending_def by (intro freeze_intros freezes_modify) simp_all
  have sum: "freezes (case v of Inl reason \<Rightarrow> f reason | Inr g \<Rightarrow> h g)"
    if "\<And>e. freezes (f e)" "\<And>g. freezes (h g)" for v and f :: "_ \<Rightarrow> 'b kop" and h
    using that by (simp split: sum.splits)
  show ?thesis
    unfolding prepare_invocation_with_timeout_def prepare_invocation_with_context_def Let_def
    by (intro freeze_intros freezes_reap sum seek reg)
qed

lemma recovery_frozen: "frozen k0 k \<Longrightarrow> frozen k0 (require_recovery_after_consumed_transition k)"
  by (auto simp: frozen_def require_recovery_after_consumed_transition_def)

lemma removed_frozen [simp]: "frozen k0 (remove_pending i k) = frozen k0 k" "frozen k0 (set_flag i k) = frozen k0 k"
  by (simp_all add: frozen_def remove_pending_def set_flag_def)

lemma freezes_case:
  "(\<And>e. freezes (h e)) \<Longrightarrow> (\<And>a. freezes (g a)) \<Longrightarrow> freezes (\<lambda>k. case f k of Err e \<Rightarrow> h e k | Ok a \<Rightarrow> g a k)"
  by (simp add: wp_result_case split: result.splits)

lemma freezes_either:
  "freezes m \<Longrightarrow> (\<And>e. freezes (h e)) \<Longrightarrow> (\<And>a. freezes (f a)) \<Longrightarrow>
     freezes (\<lambda>k. case m k of (Err e, k') \<Rightarrow> h e k' | (Ok a, k') \<Rightarrow> f a k')"
  unfolding wp_either by (blast intro: wp_mono)

lemma freezes_consume:
  assumes "freezes m"
  shows "freezes (consume_pending i m)"
proof (intro allI impI)
  fix k0 k assume "frozen k0 k"
  with assms have "wp m (\<lambda>_. frozen k0) (\<lambda>_. frozen k0) k" by blast
  then show "wp (consume_pending i m) (\<lambda>_. frozen k0) (\<lambda>_. frozen k0) k"
    unfolding wp_consume_pending by (rule wp_mono) (auto simp: recovery_frozen split: failure.splits)
qed

lemma freezes_finalize: "freezes (finalize_invocation x env e)"
proof -
  have cancelled: "freezes (finalize_cancelled env r c d f)" for r c d f
    unfolding finalize_cancelled_def
    by (auto simp: wp_simps split!: failure.splits kernel_error.splits intro!: recording_blocked dest: frozen_recovery)
  have failing: "freezes (fail_invocation env r c g d er)" for r c g d er
    unfolding fail_invocation_def by (intro freeze_intros)
  have complete: "freezes (complete_outcome x env r c g d sc oc)" for r c g d sc oc
    unfolding complete_outcome_def Let_def by (intro freeze_intros freezes_case failing)
  have result: "freezes (finalize_result x env p e)" for p
    unfolding finalize_result_def
    by (simp add: cancelled failing complete freezes_basic split: option.splits result.splits)
  have "freezes (revalidate_pending env i p)" for i p
    by (auto intro!: wp_revalidate_same)
  then show ?thesis
    unfolding finalize_invocation_def Let_def
    by (intro freeze_intros freezes_either freezes_consume cancelled result)
qed

lemma freezes_command: "freezes (run_command x env c)"
proof -
  have discards: "freezes m \<Longrightarrow> freezes (discard m)" for m :: "'b kop"
    unfolding discard_def by (intro freeze_intros)
  have plain: "freezes (modify (close_surface b))" "freezes (modify (put_secret r v))"
    "freezes (modify (clear_secret r))" "freezes (modify (cancel_pending_invocations_for_run i))" for b r v i
    by (rule freezes_modify;
        simp add: close_surface_def put_secret_def clear_secret_def broker_put_secret_def broker_clear_secret_def
          cancel_pending_invocations_for_run_def cancel_pending_for_run_def durable_of_def durable_of_parts_def
          durable_grants_def durable_revocations_def)+
  show ?thesis
    by (cases c; simp only: run_command.simps;
        intro discards freezes_run_operations freezes_grants freezes_apps plain)
qed

lemma freezes_snd:
  assumes "freezes m" "frozen k0 k"
  shows "frozen k0 (snd (m k))"
proof -
  obtain r k1 where m: "m k = (r, k1)" by fastforce
  have "wp m (\<lambda>_. frozen k0) (\<lambda>_. frozen k0) k" using assms by blast
  with m show ?thesis by (cases r) (simp_all add: wp_def)
qed

section \<open>Failed and frozen operations\<close>

text \<open>
  C7: commit before visible. A command of the kernel that fails leaves the registry, the
  ledger, the grants and the artifacts as they were, and leaves the store as it was too unless
  the outcome of the write is unknown and recovery is now required.
\<close>

theorem failed_command_changes_nothing:
  assumes "run_command x env c k = (Err e, k')"
  shows "durable_of k' = durable_of k \<and> (k_store k' = k_store k \<or> k_recovery_required k')"
  using wpD_Err[OF command_fails assms] by (simp add: unchanged_def)


section \<open>Authority at authorization and completion\<close>

lemma still_valid_same:
  assumes "still_valid env k1 i p" "k_registry k1 = k_registry k" "k_broker k1 = k_broker k"
    "k_flags k1 = k_flags k" "lg_runs (k_ledger k1) = lg_runs (k_ledger k)"
  shows "still_valid env k i p"
  using assms by (simp add: still_valid_def)

definition valid_post :: "env \<Rightarrow> kernel \<Rightarrow> u64 \<Rightarrow> pending_invocation \<Rightarrow> authorize_invocation_outcome \<Rightarrow> bool" where
  "valid_post env k i p outcome \<longleftrightarrow> (case outcome of
       Authorized a \<Rightarrow> pn_state p = PreparedForApproval \<and> still_valid env k i p \<and> az_input a = pn_input p
     | AuthorizeRefused _ \<Rightarrow> True)"

lemma dispatch_input:
  assumes "bt_get (k_pending k) i = Some p"
  shows "wp (dispatch_authorized x env i) (\<lambda>r _. \<forall>a. r = Authorized a \<longrightarrow> az_input a = pn_input p) (\<lambda>_ _. True) k"
  unfolding dispatch_authorized_def record_invoked_after_approval_def
  using assms
  by (auto simp: wp_simps split!: result.splits if_splits option.splits intro!: wp_record_only simp: only_recorded_def)

lemma authorize_checked_valid:
  assumes inv: "kernel_inv x' k1" and p: "bt_get (k_pending k1) i = Some p" "pn_state p = PreparedForApproval"
    and same: "k_registry k1 = k_registry k" "k_broker k1 = k_broker k" "k_flags k1 = k_flags k"
      "lg_runs (k_ledger k1) = lg_runs (k_ledger k)"
  shows "wp (\<lambda>k. case revalidate_pending env i p k of
      (Err error, k') \<Rightarrow> bind_s (consume_pending i (finalize_cancelled env (pn_run_id p) (pn_capability p)
          (pn_requested_data_scope p) error)) (\<lambda>result. ret (AuthorizeRefused result)) k'
    | (Ok _, k') \<Rightarrow> dispatch_authorized x env i k') (\<lambda>r _. valid_post env k i p r) (\<lambda>_ _. True) k1"
proof -
  have refuse: "wp (bind_s m (\<lambda>result. ret (AuthorizeRefused result))) (\<lambda>r _. valid_post env k i p r) (\<lambda>_ _. True) k2"
    for m :: "invocation_result kop" and k2
    by (auto simp: wp_def bind_s_def ret_def valid_post_def split: prod.splits result.splits)
  have "wp (dispatch_authorized x env i) (\<lambda>r _. valid_post env k i p r) (\<lambda>_ _. True) k1" if "still_valid env k1 i p"
    using dispatch_input[OF p(1), of x env] still_valid_same[OF that same] p(2)
    by (auto elim!: wp_mono simp: valid_post_def split: authorize_invocation_outcome.splits)
  with refuse show ?thesis
    by (auto simp: wp_either intro!: wp_revalidate_valid[OF inv p(1)])
qed

lemma wp_record_decision:
  assumes inv: "kernel_inv x k" and p: "bt_get (k_pending k) i = Some p"
    and ok: "\<And>k1. kernel_inv x k1 \<Longrightarrow> k_pending k1 = k_pending k \<Longrightarrow> k_registry k1 = k_registry k \<Longrightarrow>
      k_broker k1 = k_broker k \<Longrightarrow> k_flags k1 = k_flags k \<Longrightarrow> lg_runs (k_ledger k1) = lg_runs (k_ledger k) \<Longrightarrow> Q () k1"
    and err: "\<And>e k1. E (Failed e) k1"
  shows "wp (record_decision env i d) Q E k"
proof -
  have "wp (record_event env ev) (\<lambda>_ k1. Q () k1) (\<lambda>e k1. E e (f k1)) k" if "plain ev" for ev f
  proof -
    have "wp (record_event env ev) (\<lambda>_ k1. only_recorded k ev k1) (\<lambda>e _. \<exists>err. e = Failed err) k"
      by (rule wp_record_only) auto
    moreover have "wp (record_event env ev) (\<lambda>_ k1. kernel_inv x k1 \<and> lg_runs (k_ledger k1) = lg_runs (k_ledger k))
        (\<lambda>_ _. True) k"
      by (rule wp_record_plain[OF inv that]) auto
    ultimately show ?thesis
      by (rule wp_mono[OF wp_conj]) (auto simp: only_recorded_def intro: ok err)
  qed
  then show ?thesis
    unfolding record_decision_def Let_def using p by (auto simp: wp_simps plain_def)
qed

text \<open>
  C2: an invocation is authorized only if it was prepared and not yet used, its run is active,
  acting app and provider are installed, the provider is the one that was asked for (same
  content hash), a live grant with the same id still covers the request, its deadline has not
  passed and it was not cancelled. The authorized code receives the input that was prepared.
\<close>

theorem authorized_only_if_valid:
  assumes inv: "kernel_inv x' k"
    and auth: "authorize_invocation x env approval k = (Ok (Authorized a), k')"
  shows "\<exists>p. bt_get (k_pending k) (apr_id approval) = Some p \<and> pn_state p = PreparedForApproval \<and>
    still_valid env k (apr_id approval) p \<and> az_input a = pn_input p"
proof -
  let ?i = "apr_id approval"
  obtain p where p: "bt_get (k_pending k) ?i = Some p" using authorize_needs_pending[OF auth] by auto
  have "wp (authorize_pending x env approval) (\<lambda>r _. valid_post env k ?i p r) (\<lambda>_ _. True) k"
  proof (cases "pn_state p = PreparedForApproval")
    case False
    with p show ?thesis
      by (auto simp: authorize_pending_def Let_def wp_simps)
  next
    case True
    note go = authorize_checked_valid[where k = k and env = env and x = x and i = ?i and p = p, OF _ _ True]
    show ?thesis
      unfolding authorize_pending_def Let_def
      using p True inv
      by (cases "apr_decision approval")
        (auto simp: wp_simps(1-7) wp_gets wp_fails wp_pending_at valid_post_def[of _ _ _ _ "AuthorizeRefused r" for r]
          intro!: wp_record_decision[OF inv p] go)
  qed
  with auth have "valid_post env k ?i p (Authorized a)"
    by (auto simp: authorize_invocation_def wp_def split: prod.splits result.splits authorize_invocation_outcome.splits)
  with p show ?thesis by (simp add: valid_post_def)
qed

text \<open>What a completed invocation has left behind.\<close>

definition completion_of ::
    "externals \<Rightarrow> env \<Rightarrow> kernel \<Rightarrow> pending_invocation \<Rightarrow> capability_outcome \<Rightarrow> json \<Rightarrow> artifact list \<Rightarrow> kernel \<Rightarrow> bool" where
  "completion_of x env k p outcome val produced k' \<longleftrightarrow>
     val = oc_result outcome \<and>
     produced = stamp_all env (pn_run_id p) (pn_capability p) (pn_grant p) (oc_artifacts outcome) \<and>
     (\<forall>schema. pn_output_schema p = Some schema \<longrightarrow>
        validate_against_schema x val schema ViolatesCapabilityOutput (qualified_name (pn_capability p)) = Ok ()) \<and>
     (\<forall>draft\<in>set (oc_artifacts outcome). validate_draft x k (cr_provider (pn_capability p)) draft = Ok ()) \<and>
     k_artifacts k' = put_all (k_artifacts k) produced \<and>
     (\<exists>hash new. lg_records (k_ledger k') = lg_records (k_ledger k) @ new \<and>
        map lr_event new = map (\<lambda>a. ArtifactProduced (pn_run_id p) (at_artifact_id a) (at_artifact_type a)) produced @
          [CapabilityCompleted (pn_run_id p) (pn_capability p) (gr_grant_id (pn_grant p)) hash (pn_requested_data_scope p)])"

abbreviation completes ::
    "externals \<Rightarrow> env \<Rightarrow> kernel \<Rightarrow> pending_invocation \<Rightarrow> executed_invocation \<Rightarrow> invocation_result \<Rightarrow> kernel \<Rightarrow> bool" where
  "completes x env k p executed r k' \<equiv> (\<forall>val produced. r = InvocationCompleted val produced \<longrightarrow>
     (\<exists>outcome. ex_outcome executed = Some (Ok outcome) \<and> completion_of x env k p outcome val produced k'))"

abbreviation not_completed :: "invocation_result \<Rightarrow> kernel \<Rightarrow> bool" where
  "not_completed r _ \<equiv> (\<forall>val produced. r \<noteq> InvocationCompleted val produced)"

lemma refusals_not_completed:
  "wp (fail_invocation env r c g d e) not_completed (\<lambda>_ _. True) k"
  "wp (finalize_cancelled env r c d f) not_completed (\<lambda>_ _. True) k"
  unfolding fail_invocation_def finalize_cancelled_def
  by (auto simp: wp_simps split!: failure.splits kernel_error.splits intro!: wp_record_only)

lemmas refused = wp_mono[OF refusals_not_completed(1)] wp_mono[OF refusals_not_completed(2)]

lemma complete_outcome_posts:
  assumes "k_artifacts k1 = k_artifacts k" "k_ledger k1 = k_ledger k" "k_registry k1 = k_registry k"
  shows "wp (complete_outcome x env (pn_run_id p) (pn_capability p) (pn_grant p) (pn_requested_data_scope p)
      (pn_output_schema p) outcome)
    (\<lambda>r k'. \<forall>val produced. r = InvocationCompleted val produced \<longrightarrow> completion_of x env k p outcome val produced k')
    (\<lambda>_ _. True) k1"
proof -
  have draft: "validate_draft x k1 = validate_draft x k" by (simp add: fun_eq_iff validate_draft_def assms(3))
  show ?thesis
    unfolding complete_outcome_def Let_def wp_result_case draft
    by (auto simp: wp_simps completion_of_def assms(1,2) split!: result.splits option.splits
        intro!: wp_commit_completion refused exI dest: append_batch_records)
qed

lemma finalize_result_posts:
  assumes "k_artifacts k1 = k_artifacts k" "k_ledger k1 = k_ledger k" "k_registry k1 = k_registry k"
  shows "wp (finalize_result x env p executed) (completes x env k p executed) (\<lambda>_ _. True) k1"
  unfolding finalize_result_def
  using complete_outcome_posts[OF assms, of x env p]
  by (auto simp: wp_simps split!: option.splits result.splits intro!: refused elim!: wp_mono)


lemma finalize_errors:
  "wp (fail_invocation env r c g d e) (\<lambda>_ _. True) (\<lambda>e _. \<exists>err. e = Failed err) k"
  "wp (finalize_cancelled env r c d (Failed e')) (\<lambda>_ _. True) (\<lambda>e _. \<exists>err. e = Failed err) k"
  "wp (complete_outcome x env r c g d sc oc) (\<lambda>_ _. True) (\<lambda>e _. \<exists>err. e = Failed err) k"
proof -
  show fails: "wp (fail_invocation env r c g d e) (\<lambda>_ _. True) (\<lambda>e _. \<exists>err. e = Failed err) k" for e
    unfolding fail_invocation_def by (auto simp: wp_simps intro!: wp_record_only)
  show "wp (finalize_cancelled env r c d (Failed e')) (\<lambda>_ _. True) (\<lambda>e _. \<exists>err. e = Failed err) k"
    unfolding finalize_cancelled_def
    by (auto simp: wp_simps split!: kernel_error.splits intro!: wp_record_only)
  show "wp (complete_outcome x env r c g d sc oc) (\<lambda>_ _. True) (\<lambda>e _. \<exists>err. e = Failed err) k"
    unfolding complete_outcome_def Let_def wp_result_case
    by (auto simp: fails wp_simps split!: result.splits option.splits intro!: wp_commit_completion)
qed

lemma finalize_result_errors:
  assumes "executed_ok executed"
  shows "wp (finalize_result x env p executed) (\<lambda>_ _. True) (\<lambda>e _. \<exists>err. e = Failed err) k"
  unfolding finalize_result_def
  using assms by (auto simp: finalize_errors executed_ok_def split!: option.splits result.splits)

lemma consumed_removed:
  assumes "wp m (\<lambda>_ _. True) (\<lambda>e _. \<exists>err. e = Failed err) k"
  shows "wp (consume_pending i m) (\<lambda>_ k'. bt_get (k_pending k') i = None) (\<lambda>_ k'. bt_get (k_pending k') i = None) k"
  unfolding wp_consume_pending using assms by (rule wp_mono) auto

text \<open>
  C12: an executed invocation is finalized at most once. Whatever the first finalization
  answered, a second one for the same invocation fails as already consumed and changes nothing.
\<close>

theorem finalized_once:
  assumes "executed_ok executed" "finalize_invocation x env executed k = (r, k1)" "ex_id again = ex_id executed"
  shows "finalize_invocation x' env' again k1 = (Err (Failed PreparedInvocationConsumed), k1)"
proof -
  let ?i = "ex_id executed"
  let ?gone = "\<lambda>k'. \<forall>p. bt_get (k_pending k') ?i = Some p \<longrightarrow> pn_state p \<noteq> AuthorizedForExecution"
  have gone: "wp (consume_pending ?i m) (\<lambda>_. ?gone) (\<lambda>_. ?gone) k'"
    if "wp m (\<lambda>_ _. True) (\<lambda>e _. \<exists>err. e = Failed err) k'" for m :: "invocation_result kop" and k'
    by (rule wp_mono[OF consumed_removed[OF that]]) auto
  have "wp (finalize_invocation x env executed) (\<lambda>_. ?gone) (\<lambda>_. ?gone) k"
    unfolding finalize_invocation_def Let_def
    by (auto simp: wp_simps(1-7) wp_gets wp_fails wp_pending_at wp_either split!: option.splits
        intro!: wp_revalidate_same gone finalize_errors finalize_result_errors[OF assms(1)])
  then have "?gone k1" using assms(2) by (cases r) (auto simp: wp_def)
  then show ?thesis
    by (auto simp: finalize_invocation_def Let_def bind_s_def gets_def fails_def fail_def assms(3) split: option.splits)
qed

section \<open>Installing and uninstalling\<close>


definition consented_grant :: "install_approval \<Rightarrow> grant \<Rightarrow> bool" where
  "consented_grant approval g \<longleftrightarrow>
     gr_holder g = mf_app_id (sm_manifest (pl_sealed_manifest (il_prepared approval))) \<and>
     gr_origin g = pl_grant_origin (il_prepared approval) \<and>
     (\<exists>prompt. (prompt, DecisionApproved) \<in> set (zip (pl_grant_prompts (il_prepared approval)) (il_grant_decisions approval)) \<and>
        gp_scope prompt = gr_scope g \<and> gp_data_scope prompt = gr_data_scope g \<and> gp_condition prompt = gr_condition g)"

definition only_consented :: "install_approval \<Rightarrow> broker \<Rightarrow> broker \<Rightarrow> bool" where
  "only_consented approval b0 b \<longleftrightarrow> (\<forall>i g. bt_get (br_grants b) i = Some g \<longrightarrow>
     bt_get (br_grants b0) i = Some g \<or> consented_grant approval g)"

lemma issue_consented:
  assumes "only_consented approval b0 b"
    and i: "issue_with_decision now u b holder request origin d = Ok (r, b')"
    and d: "prompt_decision (pl_grant_prompts (il_prepared approval)) (il_grant_decisions approval) request = Some d"
    and app: "holder = mf_app_id (sm_manifest (pl_sealed_manifest (il_prepared approval)))"
      "origin = pl_grant_origin (il_prepared approval)"
  shows "only_consented approval b0 b'"
  using i
proof (cases rule: issue_Ok_cases)
  case 2
  have "consented_grant approval (grant_of_request now u holder request origin)"
    using d 2(1) app
    by (auto simp: consented_grant_def grant_of_request_def prompt_decision_def dest!: find_SomeD)
  with 2 assms(1) show ?thesis by (auto simp: only_consented_def bt_get_insert)
qed (use assms(1) in simp)

lemma reconcile_consented:
  assumes "reconcile_manifest_grants env b (mf_app_id (sm_manifest (pl_sealed_manifest (il_prepared approval)))) rqs
      (pl_grant_origin (il_prepared approval)) (pl_grant_prompts (il_prepared approval)) (il_grant_decisions approval) = Ok (b', rs, issued)"
    and "only_consented approval b0 b"
  shows "only_consented approval b0 b'"
proof -
  let ?P = "\<lambda>acc :: broker \<times> issue_result list \<times> bool. only_consented approval b0 (fst acc)"
  have "?P (b', rs, issued)"
    using assms(1) unfolding reconcile_manifest_grants_def
  proof (rule try_fold_invariant[where P = ?P])
    fix acc rq acc'
    assume "?P acc" "reconcile_request env (mf_app_id (sm_manifest (pl_sealed_manifest (il_prepared approval))))
      (pl_grant_origin (il_prepared approval)) (pl_grant_prompts (il_prepared approval)) (il_grant_decisions approval) acc rq = Ok acc'"
    then show "?P acc'"
      using issue_consented[of approval b0]
      by (cases acc) (auto simp: reconcile_request_def bind_r_Ok_iff split: option.splits result.splits)
  qed (simp add: assms(2))
  then show ?thesis by simp
qed



end
