(* ===== verification/Kernel_Properties.thy ===== *)
theory Kernel_Properties
  imports Kernel_Scenario Kernel_Operations
begin

text \<open>
  The properties of the kernel as a whole, over the reachable states of the system and over
  single operations, with the sample history as witness.
\<close>

section \<open>The sample history is reachable\<close>

lemma scene_command_step:
  assumes "unknown_grant uuid s" "sy_now s \<le> t"
  shows "sys_step scene_externals s (scene_command t uuid c s)"
  unfolding scene_command_def
  using sys_step.Command[OF scene_env_fits[OF assms] prod.collapse[symmetric], of scene_externals c] by simp

lemma reach_installed: "reachable scene_externals scene_installed"
proof -
  have "sys_step scene_externals (sys_init scene_chrome) scene_empty"
    unfolding scene_empty_def
    using sys_step.Restart[of scene_externals "scene_env 0 ''u0''" scene_chrome "\<lambda>_. False" 1 "Ok None"]
    by (simp add: with_clock_and_state_store_def)
  note empty = reachable.Step[OF reachable.Init this]
  obtain p where p: "scene_plan = Ok p" using scene_facts(1) by (auto simp: is_ok_iff)
  have "sys_step scene_externals scene_empty scene_planned"
    using sys_step.PlanInstall[OF p[unfolded scene_plan_def]] by (simp add: scene_planned_def p ok_value_def)
  note planned = reachable.Step[OF empty this]
  have fits: "env_fits (scene_env 2 ''u2'') scene_planned"
    by (rule scene_env_fits)
      (simp_all add: scene_planned_def scene_empty_def unknown_grant_def with_clock_and_state_store_def
        with_clock_def broker_new_def)
  have "sys_step scene_externals scene_planned scene_installed"
    unfolding scene_installed_def
    using sys_step.CommitInstall[OF fits _ prod.collapse[symmetric], of "ok_value scene_plan" scene_externals]
    by (simp add: scene_planned_def)
  from reachable.Step[OF planned this] show ?thesis .
qed

lemma reach_granted: "reachable scene_externals scene_granted"
  unfolding scene_granted_def
  by (rule reachable.Step[OF reach_installed scene_command_step[OF scene_facts(2)]]) (simp add: scene_times)

lemma reach_running: "reachable scene_externals scene_running"
  unfolding scene_running_def
  by (rule reachable.Step[OF reach_granted scene_command_step[OF scene_facts(3)]]) (simp add: scene_times)

lemma token_outcomes:
  "prepared_token r = Some t \<Longrightarrow> r = Ok (Prepared t)" "authorized_token r' = Some a \<Longrightarrow> r' = Ok (Authorized a)"
  by (cases r rule: prepared_token.cases; simp) (cases r' rule: authorized_token.cases; simp)

lemma scene_waits: "fst scene_preparing = Ok (Prepared scene_waiting)"
  using scene_facts(10) token_outcomes(1) unfolding scene_waiting_def by force

lemma scene_readies: "fst scene_authorizing = Ok (Authorized scene_ready)"
  using scene_facts(11) token_outcomes(2) unfolding scene_ready_def by force

lemma scene_tokens:
  "sy_tokens scene_prepared 1 = Some (Waiting scene_waiting)" "sy_tokens scene_authorized 1 = Some (Ready scene_ready)"
  "sy_tokens scene_ran 1 = Some (Ran (fst scene_executing))"
  using scene_waits scene_readies scene_facts(9)
  by (simp_all add: scene_prepared_def after_prepare_def scene_authorized_def after_authorize_def scene_ran_def
      after_execute_def issue_token_def authorize_token_def)

lemma reach_prepared: "reachable scene_externals scene_prepared"
proof (rule reachable.Step[OF reach_running])
  have "env_fits (scene_env 5 ''u5'') scene_running" by (rule scene_env_fits[OF scene_facts(4)]) (simp add: scene_times)
  moreover have "counter_free scene_running" using scene_facts(8) by (simp add: counter_free_def)
  ultimately show "sys_step scene_externals scene_running scene_prepared"
    unfolding scene_prepared_def after_prepare_def scene_preparing_def scene_prepare_def
    using sys_step.Prepare[OF _ _ prod.collapse[symmetric], of "scene_env 5 ''u5''" scene_running scene_externals]
    by simp
qed

lemma reach_authorized: "reachable scene_externals scene_authorized"
proof (rule reachable.Step[OF reach_prepared])
  have "env_fits (scene_env 6 ''u6'') scene_prepared" by (rule scene_env_fits[OF scene_facts(5)]) (simp add: scene_times)
  then show "sys_step scene_externals scene_prepared scene_authorized"
    unfolding scene_authorized_def after_authorize_def scene_authorizing_def scene_authorize_def
    using sys_step.Authorize[OF _ scene_tokens(1) prod.collapse[symmetric], of "scene_env 6 ''u6''" scene_externals]
    by simp
qed

lemma scene_fits_ready: "env_fits (scene_env 7 ''u7'') scene_authorized"
  by (rule scene_env_fits[OF scene_facts(6)]) (simp add: scene_times)

lemma reach_ran: "reachable scene_externals scene_ran"
  unfolding scene_ran_def after_execute_def scene_executing_def scene_execute_def
  using reachable.Step[OF reach_authorized sys_step.Execute[OF scene_fits_ready scene_tokens(2) prod.collapse[symmetric]]]
  by simp

lemma scene_fits_ran: "env_fits (scene_env 8 ''u8'') scene_ran"
  by (rule scene_env_fits[OF scene_facts(7)]) (simp add: scene_times)

lemma reach_done: "reachable scene_externals scene_done"
  unfolding scene_done_def after_spent_def scene_finalizing_def scene_finalize_def
  using reachable.Step[OF reach_ran sys_step.Finalize[OF scene_fits_ran scene_tokens(3) prod.collapse[symmetric]]]
  by simp

section \<open>What must have happened before the code of an app runs\<close>



text \<open>
  C4: every state the system reaches satisfies the invariant of the kernel: the services are
  well formed, every active run, usable grant, bound handler, open surface and pending
  invocation belongs to installed apps, every pending invocation is covered by its grant, and
  the store holds what the services hold.
\<close>

theorem reachable_kernel_inv: "reachable x s \<Longrightarrow> kernel_inv x (sy_kernel s)"
  using sys_invD(1)[OF reachable_sys_inv] .

theorem reachable_kernel_inv_witness: "kernel_inv scene_externals (sy_kernel scene_done)"
  by (rule reachable_kernel_inv[OF reach_done])

definition panics :: "('a, failure) result \<Rightarrow> bool" where
  "panics r \<longleftrightarrow> (\<exists>message. r = Err (Panicked message))"

lemma keeps_no_panic: "keeps_inv x m k \<Longrightarrow> \<not> panics (fst (m k))"
  by (cases "m k"; cases "fst (m k)") (auto simp: wp_def panics_def)

lemma maintains_no_panic: "maintains x m \<Longrightarrow> kernel_inv x k \<Longrightarrow> \<not> panics (fst (m k))"
  using keeps_no_panic by blast



section \<open>Store and restart\<close>



text \<open>
  C6: a restart from the store keeps the catalog, the grants, the revocations and the artifacts,
  forgets the secrets, extends the history and leaves no run active and no work open in it.
\<close>

theorem restart_keeps_services:
  assumes "reachable x s" "k_store (sy_kernel s) = Some (Some c)" "\<not> k_recovery_required (sy_kernel s)"
    "with_clock_and_state_store x env chrome flags next_id (Ok (Some c)) = (Ok (), k')"
  shows "k_registry k' = k_registry (sy_kernel s) \<and> k_broker k' = (k_broker (sy_kernel s))\<lparr>br_secrets := bt_empty\<rparr> \<and>
    k_artifacts k' = k_artifacts (sy_kernel s) \<and> closed_ledger (k_ledger k') \<and>
    prefix (lg_records (k_ledger (sy_kernel s))) (lg_records (k_ledger k'))"
  using restart_same_services[OF sys_invD(1)[OF reachable_sys_inv[OF assms(1)]] assms(2-4)] .

theorem restart_keeps_services_witness:
  "\<exists>k'. scene_restart scene_done = (Ok (), k') \<and> k_registry k' = k_registry (sy_kernel scene_done) \<and>
     k_artifacts k' = k_artifacts (sy_kernel scene_done) \<and> closed_ledger (k_ledger k')"
proof -
  obtain c where "k_store (sy_kernel scene_done) = Some (Some c)"
    using scene_facts(15) by (cases "k_store (sy_kernel scene_done)" rule: has_state.cases) auto
  moreover obtain k' where "scene_restart scene_done = (Ok (), k')"
    using scene_facts(14) by (cases "scene_restart scene_done") (auto simp: is_ok_iff)
  ultimately show ?thesis
    using restart_keeps_services[OF reach_done _ scene_facts(16)] by (auto simp: scene_restart_def)
qed



section \<open>Witnesses for the operations\<close>

theorem failed_command_changes_nothing_witness:
  "durable_of (snd scene_refused) = durable_of (sy_kernel scene_granted)"
proof -
  obtain e where "run_command scene_externals (scene_env 4 ''u4'') (EndRun (new_run_id ''u9'') RunCompleted)
      (sy_kernel scene_granted) = (Err e, snd scene_refused)"
    using scene_facts(21) by (cases scene_refused; cases "fst scene_refused") (auto simp: is_ok_iff scene_refused_def)
  from failed_command_changes_nothing[OF this] show ?thesis by simp
qed


theorem authorized_only_if_valid_witness:
  "\<exists>p. bt_get (k_pending (sy_kernel scene_prepared)) 1 = Some p \<and>
     still_valid (scene_env 6 ''u6'') (sy_kernel scene_prepared) 1 p \<and> az_input scene_ready = pn_input p"
proof -
  have "authorize_invocation scene_externals (scene_env 6 ''u6'') (await_approval scene_waiting) (sy_kernel scene_prepared) =
      (Ok (Authorized scene_ready), snd scene_authorizing)"
    using scene_readies by (cases scene_authorizing) (simp add: scene_authorizing_def scene_authorize_def)
  moreover have "apr_id (await_approval scene_waiting) = 1" using scene_facts(9) by (simp add: await_approval_def)
  ultimately show ?thesis
    using authorized_only_if_valid[OF sys_invD(1)[OF reachable_sys_inv[OF reach_prepared]]] by metis
qed


theorem finalized_once_witness:
  "fst (finalize_invocation scene_externals (scene_env 9 ''u9'') (fst scene_executing) (snd scene_finalizing)) =
     Err (Failed PreparedInvocationConsumed)"
proof -
  have ok: "executed_ok (fst scene_executing)"
    using sys_invD(3)[OF reachable_sys_inv[OF reach_ran] scene_tokens(3)] by (simp add: token_inv_def)
  have "finalize_invocation scene_externals (scene_env 8 ''u8'') (fst scene_executing) (sy_kernel scene_ran) =
      (fst scene_finalizing, snd scene_finalizing)" by (simp add: scene_finalizing_def scene_finalize_def)
  from finalized_once[OF ok this refl] show ?thesis by simp
qed



definition consent_chrome :: trusted_chrome where
  "consent_chrome = scene_chrome\<lparr>ch_confirm_install := (\<lambda>prompt. \<lparr>iad_event_decision = Some DecisionApproved,
     iad_grant_decisions = map (\<lambda>_. DecisionApproved) (ip_grants prompt)\<rparr>)\<rparr>"

definition consent_sealed :: sealed_manifest where
  "consent_sealed = seal scene_externals ((sample_manifest ''n'')\<lparr>mf_connectors := [],
     mf_event_subscriptions := [], mf_grant_requests := [scene_request]\<rparr>)"

definition consent_approval :: install_approval where
  "consent_approval = await_install_approval (ok_value (prepare_install_with_grant_origin scene_externals
     (scene_env 1 ''u1'') (with_clock consent_chrome (\<lambda>_. False) 1) consent_sealed scene_handlers ManifestRequested))"

definition consent_install :: "(issue_result list, failure) result \<times> kernel" where
  "consent_install = commit_install scene_externals (scene_env 2 ''u2'') consent_approval
     (with_clock consent_chrome (\<lambda>_. False) 1)"

lemma consent_value:
  "is_ok (fst consent_install) \<and> bt_contains (br_grants (k_broker (snd consent_install))) (new_grant_id ''u2'')"
  by code_simp


section \<open>Histories that cannot be reloaded\<close>



end
