(* ===== verification/Host_Files.thy ===== *)
theory Host_Files
  imports BTree_Map "HOL-Library.Sublist"
begin

text \<open>
  \<open>host/src-tauri/src/atomic_json.rs\<close>: the one way the host writes a document to disk, through
  a temporary file that is renamed over the old one, and the one way it reads it back. A path
  is the list of its components. The disk is the files with their contents and the directories;
  what the operating system answers to each call is the record \<open>io\<close>. The locale \<open>atomic_cell\<close> is
  what the stores of the host rely on; the protocol by which they keep a document in memory
  equal to its file is proved in it once.
\<close>

section \<open>The disk\<close>

type_synonym path = "string list"

definition path_parent :: "path \<Rightarrow> path option" where
  "path_parent p = (if p = [] then None else Some (butlast p))"

definition path_file_name :: "path \<Rightarrow> string" where
  "path_file_name p = (if p = [] then [] else last p)"

definition with_file_name :: "path \<Rightarrow> string \<Rightarrow> path" where
  "with_file_name p name = butlast p @ [name]"

definition path_display :: "path \<Rightarrow> string" where
  "path_display p = ''/'' @ str_join ''/'' p"

record disk =
  dk_files :: "(path, string) btree_map"
  dk_dirs :: "path list"

datatype io_error = IoNotFound string | IoOther string

fun io_text :: "io_error \<Rightarrow> string" where
  "io_text (IoNotFound s) = s"
| "io_text (IoOther s) = s"

text \<open>
  The answers of the operating system: \<open>None\<close> for success, the error text otherwise. A write
  that fails may leave any part of the bytes behind.
\<close>

record io =
  io_create_dir :: "string option"
  io_write :: "(string \<times> string option) option"
  io_rename :: "string option"
  io_remove :: "path \<Rightarrow> string option"
  io_sync :: "string option"
  io_read_dir :: "string option"
  io_open :: "string option"
  io_restrict :: "string option"
  io_read :: "string option"
  io_uuid :: string
    \<comment> \<open>\<open>Uuid::new_v4\<close>\<close>
  io_is_uuid :: "string \<Rightarrow> bool"
    \<comment> \<open>\<open>Uuid::parse_str\<close> accepts\<close>

definition file_at :: "path \<Rightarrow> disk \<Rightarrow> string option" where
  "file_at p d = bt_get (dk_files d) p"

type_synonym 'a disk_op = "disk \<Rightarrow> ('a, io_error) result \<times> disk"

definition write_and_sync :: "io \<Rightarrow> path \<Rightarrow> string \<Rightarrow> unit disk_op" where
  "write_and_sync io p bytes d =
     (if bt_contains (dk_files d) p then (Err (IoOther ''File exists (os error 17)''), d)
      else case io_write io of
        None \<Rightarrow> (Ok (), d\<lparr>dk_files := bt_insert p bytes (dk_files d)\<rparr>)
      | Some (error, None) \<Rightarrow> (Err (IoOther error), d)
      | Some (error, Some part) \<Rightarrow> (Err (IoOther error), d\<lparr>dk_files := bt_insert p part (dk_files d)\<rparr>))"

definition rename_file :: "io \<Rightarrow> path \<Rightarrow> path \<Rightarrow> unit disk_op" where
  "rename_file io from_path to_path d =
     (case bt_get (dk_files d) from_path of
        None \<Rightarrow> (Err (IoNotFound ''No such file or directory (os error 2)''), d)
      | Some bytes \<Rightarrow>
          (case io_rename io of
             Some error \<Rightarrow> (Err (IoOther error), d)
           | None \<Rightarrow> (Ok (), d\<lparr>dk_files := bt_insert to_path bytes (bt_remove from_path (dk_files d))\<rparr>)))"

definition remove_file :: "io \<Rightarrow> path \<Rightarrow> unit disk_op" where
  "remove_file io p d =
     (if \<not> bt_contains (dk_files d) p then (Err (IoNotFound ''No such file or directory (os error 2)''), d)
      else case io_remove io p of
        Some error \<Rightarrow> (Err (IoOther error), d)
      | None \<Rightarrow> (Ok (), d\<lparr>dk_files := bt_remove p (dk_files d)\<rparr>))"

definition sync_parent_dir :: "io \<Rightarrow> path \<Rightarrow> unit disk_op" where
  "sync_parent_dir io p d =
     (case path_parent p of
        None \<Rightarrow> (Ok (), d)
      | Some _ \<Rightarrow> (case io_sync io of None \<Rightarrow> (Ok (), d) | Some error \<Rightarrow> (Err (IoOther error), d)))"

definition create_dir_all :: "io \<Rightarrow> path \<Rightarrow> unit disk_op" where
  "create_dir_all io p d =
     (case io_create_dir io of
        Some error \<Rightarrow> (Err (IoOther error), d)
      | None \<Rightarrow> (Ok (), d\<lparr>dk_dirs := prefixes p @ dk_dirs d\<rparr>))"

section \<open>Writing a document\<close>

datatype atomic_json_error = WriteNotCommitted string | WriteIndeterminate string

fun is_indeterminate :: "atomic_json_error \<Rightarrow> bool" where
  "is_indeterminate (WriteIndeterminate _) = True"
| "is_indeterminate (WriteNotCommitted _) = False"

fun into_message :: "atomic_json_error \<Rightarrow> string" where
  "into_message (WriteNotCommitted message) = message"
| "into_message (WriteIndeterminate message) = message @
     ''; candidate was committed but directory durability is indeterminate; retry or restart Kestral before making further changes''"

definition temporary_path :: "path \<Rightarrow> string \<Rightarrow> path" where
  "temporary_path p uuid = with_file_name p (''.'' @ path_file_name p @ ''.'' @ uuid @ ''.tmp'')"

definition format_failure_with_cleanup :: "io \<Rightarrow> string \<Rightarrow> path \<Rightarrow> disk \<Rightarrow> string \<times> disk" where
  "format_failure_with_cleanup io failure temp_path d =
     (case remove_file io temp_path d of
        (Ok _, d') \<Rightarrow> (failure, d')
      | (Err (IoNotFound _), d') \<Rightarrow> (failure, d')
      | (Err error, d') \<Rightarrow>
          (failure @ ''; discard temporary file '' @ quoted (path_display temp_path) @
           '' failed; preserved it for recovery: '' @ io_text error, d'))"

definition not_committed_after_cleanup ::
    "io \<Rightarrow> string \<Rightarrow> path \<Rightarrow> disk \<Rightarrow> (unit, atomic_json_error) result \<times> disk" where
  "not_committed_after_cleanup io failure temp_path d =
     (let (message, d') = format_failure_with_cleanup io failure temp_path d
      in (Err (WriteNotCommitted message), d'))"

definition create_parent_dir :: "io \<Rightarrow> path \<Rightarrow> unit disk_op" where
  "create_parent_dir io p d = (case path_parent p of None \<Rightarrow> (Ok (), d) | Some parent \<Rightarrow> create_dir_all io parent d)"

text \<open>\<open>serialized\<close> is what \<open>serde_json::to_vec_pretty\<close> makes of the document.\<close>

definition persist_json_document ::
    "io \<Rightarrow> path \<Rightarrow> string \<Rightarrow> (string, string) result \<Rightarrow> disk \<Rightarrow> (unit, atomic_json_error) result \<times> disk" where
  "persist_json_document io p label serialized d =
     (case create_parent_dir io p d of
        (Err error, d1) \<Rightarrow>
          (Err (WriteNotCommitted (''create '' @ label @ '' directory failed: '' @ io_text error)), d1)
      | (Ok _, d1) \<Rightarrow>
     (case serialized of
        Err error \<Rightarrow> (Err (WriteNotCommitted (''serialize '' @ label @ '' failed: '' @ error)), d1)
      | Ok bytes \<Rightarrow>
     (let temp_path = temporary_path p (io_uuid io) in
      case write_and_sync io temp_path bytes d1 of
        (Err error, d2) \<Rightarrow>
          not_committed_after_cleanup io (''write '' @ label @ '' failed: '' @ io_text error) temp_path d2
      | (Ok _, d2) \<Rightarrow>
     (case rename_file io temp_path p d2 of
        (Err error, d3) \<Rightarrow>
          not_committed_after_cleanup io (''replace '' @ label @ '' failed: '' @ io_text error) temp_path d3
      | (Ok _, d3) \<Rightarrow>
     (case sync_parent_dir io p d3 of
        (Err error, d4) \<Rightarrow>
          (Err (WriteIndeterminate (''sync '' @ label @ '' directory failed: '' @ io_text error)), d4)
      | (Ok _, d4) \<Rightarrow> (Ok (), d4))))))"

section \<open>Reading it back\<close>

definition strip_prefix :: "string \<Rightarrow> string \<Rightarrow> string option" where
  "strip_prefix pre s = (if take (length pre) s = pre then Some (drop (length pre) s) else None)"

definition strip_suffix :: "string \<Rightarrow> string \<Rightarrow> string option" where
  "strip_suffix suf s = map_option rev (strip_prefix (rev suf) (rev s))"

definition is_stale_temporary :: "io \<Rightarrow> path \<Rightarrow> path \<Rightarrow> bool" where
  "is_stale_temporary io p q =
     (case strip_prefix (''.'' @ path_file_name p @ ''.'') (path_file_name q) of
        None \<Rightarrow> False
      | Some rest \<Rightarrow>
          (case strip_suffix ''.tmp'' rest of None \<Rightarrow> False | Some uuid \<Rightarrow> io_is_uuid io uuid))"

fun discard_each :: "io \<Rightarrow> string \<Rightarrow> path list \<Rightarrow> disk \<Rightarrow> (unit, string) result \<times> disk" where
  "discard_each io label [] d = (Ok (), d)"
| "discard_each io label (q # qs) d =
     (case remove_file io q d of
        (Err error, d') \<Rightarrow>
          (Err (''discard stale '' @ label @ '' temporary file '' @ quoted (path_display q) @
             '' failed; preserved it for recovery: '' @ io_text error), d')
      | (Ok _, d') \<Rightarrow> discard_each io label qs d')"

definition discard_stale_temporary_files :: "io \<Rightarrow> path \<Rightarrow> string \<Rightarrow> disk \<Rightarrow> (unit, string) result \<times> disk" where
  "discard_stale_temporary_files io p label d =
     (case path_parent p of
        None \<Rightarrow> (Ok (), d)
      | Some parent \<Rightarrow>
          if parent \<notin> set (dk_dirs d) then (Ok (), d)
          else case io_read_dir io of
            Some error \<Rightarrow> (Err (''inspect stale '' @ label @ '' temporary files failed: '' @ error), d)
          | None \<Rightarrow> discard_each io label
              (filter (\<lambda>q. path_parent q = Some parent \<and> is_stale_temporary io p q) (bt_keys (dk_files d))) d)"

definition load_json_document ::
    "io \<Rightarrow> (string \<Rightarrow> ('a, string) result) \<Rightarrow> path \<Rightarrow> string \<Rightarrow> disk \<Rightarrow> ('a option, string) result \<times> disk" where
  "load_json_document io parse p label d =
     (case discard_stale_temporary_files io p label d of
        (Err error, d1) \<Rightarrow> (Err error, d1)
      | (Ok _, d1) \<Rightarrow>
     (case file_at p d1 of
        None \<Rightarrow> (Ok None, d1)
      | Some raw \<Rightarrow>
     (case io_open io of Some error \<Rightarrow> (Err (''open '' @ label @ '' failed: '' @ error), d1) | None \<Rightarrow>
     (case io_restrict io of
        Some error \<Rightarrow> (Err (''restrict '' @ label @ '' permissions failed: '' @ error), d1) | None \<Rightarrow>
     (case io_read io of Some error \<Rightarrow> (Err (''read '' @ label @ '' failed: '' @ error), d1) | None \<Rightarrow>
     (map_ok Some (map_err (\<lambda>error. ''parse '' @ label @ '' failed; preserved '' @ quoted (path_display p) @
        '': '' @ error) (parse raw)), d1))))))"

section \<open>What each step does to the files\<close>

lemma file_at_insert: "file_at p (d\<lparr>dk_files := bt_insert q b (dk_files d')\<rparr>) = (if p = q then Some b else file_at p d')"
  by (simp add: file_at_def bt_get_insert)

lemma file_at_remove: "file_at p (d\<lparr>dk_files := bt_remove q (dk_files d')\<rparr>) = (if p = q then None else file_at p d')"
  by (simp add: file_at_def bt_get_remove)

lemma temporary_differs: "p \<noteq> [] \<Longrightarrow> temporary_path p uuid \<noteq> p"
proof
  assume p: "p \<noteq> []" and "temporary_path p uuid = p"
  then have "last (temporary_path p uuid) = last p" by simp
  then have "length (last (temporary_path p uuid)) = length (last p)" by simp
  with p show False by (simp add: temporary_path_def with_file_name_def path_file_name_def)
qed

lemma create_parent_files: "create_parent_dir io p d = (r, d') \<Longrightarrow> dk_files d' = dk_files d"
  by (auto simp: create_parent_dir_def create_dir_all_def split: option.splits)

lemma remove_file_at: "remove_file io q d = (r, d') \<Longrightarrow> p \<noteq> q \<Longrightarrow> file_at p d' = file_at p d"
  by (auto simp: remove_file_def file_at_def bt_get_remove split: if_splits option.splits)

lemma cleanup_at:
  "not_committed_after_cleanup io f q d = (r, d') \<Longrightarrow> p \<noteq> q \<Longrightarrow> file_at p d' = file_at p d"
  by (auto simp: not_committed_after_cleanup_def format_failure_with_cleanup_def Let_def remove_file_at
      split: prod.splits result.splits io_error.splits dest: remove_file_at)

lemma cleanup_result: "not_committed_after_cleanup io f q d = (r, d') \<Longrightarrow> \<exists>m. r = Err (WriteNotCommitted m)"
  by (auto simp: not_committed_after_cleanup_def split: prod.splits)

lemma write_at: "write_and_sync io q b d = (r, d') \<Longrightarrow> p \<noteq> q \<Longrightarrow> file_at p d' = file_at p d"
  by (auto simp: write_and_sync_def file_at_def bt_get_insert split: if_splits option.splits prod.splits)

text \<open>How a write ends: with the old bytes and a refusal, or with the new bytes.\<close>

lemma persist_cases:
  assumes "persist_json_document io p label serialized d = (r, d')" "p \<noteq> []"
  obtains (refused) m where "r = Err (WriteNotCommitted m)" "file_at p d' = file_at p d"
  | (landed) bytes where "serialized = Ok bytes" "file_at p d' = Some bytes" "r = Ok ()"
  | (unknown) bytes m where "serialized = Ok bytes" "file_at p d' = Some bytes" "r = Err (WriteIndeterminate m)"
proof -
  let ?t = "temporary_path p (io_uuid io)"
  have t: "p \<noteq> ?t" using temporary_differs[OF assms(2)] by metis
  obtain r1 d1 where c: "create_parent_dir io p d = (r1, d1)" by force
  note f1 = create_parent_files[OF c]
  have same: "file_at p d1 = file_at p d" by (simp add: file_at_def f1)
  show thesis
  proof (cases r1)
    case (Err e)
    with assms(1) c same show thesis by (intro refused) (auto simp: persist_json_document_def)
  next
    case (Ok u)
    show thesis
    proof (cases serialized)
      case (Err e)
      with assms(1) c Ok same show thesis by (intro refused) (auto simp: persist_json_document_def)
    next
      case ser: (Ok bytes)
      obtain r2 d2 where w: "write_and_sync io ?t bytes d1 = (r2, d2)" by force
      note keep = write_at[OF w t]
      show thesis
      proof (cases r2)
        case (Err e)
        with assms(1) c Ok ser w have "\<exists>m. not_committed_after_cleanup io m ?t d2 = (r, d')"
          by (auto simp: persist_json_document_def Let_def)
        then show thesis using cleanup_at[OF _ t] cleanup_result keep same refused by metis
      next
        case w2: (Ok u2)
        then have tmp: "bt_get (dk_files d2) ?t = Some bytes"
          using w by (auto simp: write_and_sync_def split: if_splits option.splits prod.splits)
        let ?d3 = "d2\<lparr>dk_files := bt_insert p bytes (bt_remove ?t (dk_files d2))\<rparr>"
        have new: "file_at p ?d3 = Some bytes" by (simp add: file_at_def)
        show thesis
        proof (cases "io_rename io")
          case None
          with tmp have "rename_file io ?t p d2 = (Ok (), ?d3)" by (simp add: rename_file_def)
          with assms(1,2) c Ok ser w w2 have "r = Ok () \<and> d' = ?d3 \<or> (\<exists>m. r = Err (WriteIndeterminate m)) \<and> d' = ?d3"
            by (auto simp: persist_json_document_def Let_def sync_parent_dir_def split: option.splits)
          with ser new show thesis using landed unknown by metis
        next
          case (Some e)
          with tmp have "rename_file io ?t p d2 = (Err (IoOther e), d2)" by (simp add: rename_file_def)
          with assms(1) c Ok ser w w2 have "\<exists>m. not_committed_after_cleanup io m ?t d2 = (r, d')"
            by (auto simp: persist_json_document_def Let_def)
          then show thesis using cleanup_at[OF _ t] cleanup_result keep same refused by metis
        qed
      qed
    qed
  qed
qed

lemma persist_elsewhere:
  assumes "persist_json_document io p label serialized d = (r, d')" "q \<noteq> p" "q \<noteq> temporary_path p (io_uuid io)"
  shows "file_at q d' = file_at q d"
proof -
  note frames = cleanup_at[OF _ assms(3)] write_at[OF _ assms(3)]
  have create: "file_at q d1 = file_at q d0" if "create_parent_dir io p d0 = (r1, d1)" for r1 d0 d1
    using create_parent_files[OF that] by (simp add: file_at_def)
  have rename: "file_at q d1 = file_at q d0" if "rename_file io (temporary_path p (io_uuid io)) p d0 = (r1, d1)" for r1 d0 d1
    using that assms(2,3) by (auto simp: rename_file_def file_at_def bt_get_insert bt_get_remove split: option.splits)
  have sync: "d1 = d0" if "sync_parent_dir io p d0 = (r1, d1)" for r1 d0 d1
    using that by (auto simp: sync_parent_dir_def split: option.splits)
  show ?thesis
    using assms(1)
    by (auto simp: persist_json_document_def Let_def split: prod.splits result.splits
        dest!: frames create rename sync)
qed

lemma cleanup_gone:
  "not_committed_after_cleanup io f q d = (r, d') \<Longrightarrow> io_remove io q = None \<Longrightarrow> file_at q d' = None"
  by (auto simp: not_committed_after_cleanup_def format_failure_with_cleanup_def Let_def remove_file_def file_at_def
      bt_contains_def bt_get_remove split: prod.splits result.splits io_error.splits if_splits option.splits)

lemma persist_temporary:
  assumes "persist_json_document io p label serialized d = (r, d')" "p \<noteq> []"
    "file_at (temporary_path p (io_uuid io)) d = None" "io_remove io (temporary_path p (io_uuid io)) = None"
  shows "file_at (temporary_path p (io_uuid io)) d' = None"
proof -
  let ?t = "temporary_path p (io_uuid io)"
  have create: "file_at ?t d1 = None" if "create_parent_dir io p d = (r1, d1)" for r1 d1
    using create_parent_files[OF that] assms(3) by (simp add: file_at_def)
  have rename: "file_at ?t d1 = None" if "rename_file io ?t p d0 = (Ok u, d1)" for u d0 d1
    using that temporary_differs[OF assms(2), of "io_uuid io"]
    by (auto simp: rename_file_def file_at_def bt_get_insert bt_get_remove split: option.splits)
  have sync: "d1 = d0" if "sync_parent_dir io p d0 = (r1, d1)" for r1 d0 d1
    using that by (auto simp: sync_parent_dir_def split: option.splits)
  show ?thesis
    using assms(1)
    by (auto simp: persist_json_document_def Let_def split: prod.splits result.splits
        dest!: cleanup_gone[OF _ assms(4)] create rename sync)
qed

section \<open>Stale temporary files\<close>

lemma strip_prefix_iff: "strip_prefix pre s = Some rest \<longleftrightarrow> s = pre @ rest"
  by (auto simp: strip_prefix_def) (metis append_take_drop_id)

lemma strip_suffix_iff: "strip_suffix suf s = Some rest \<longleftrightarrow> s = rest @ suf"
proof -
  have "strip_suffix suf s = Some rest \<longleftrightarrow> strip_prefix (rev suf) (rev s) = Some (rev rest)"
    by (auto simp: strip_suffix_def)
  also have "\<dots> \<longleftrightarrow> rev s = rev suf @ rev rest" by (rule strip_prefix_iff)
  also have "\<dots> \<longleftrightarrow> s = rest @ suf" by (metis rev_append rev_rev_ident)
  finally show ?thesis .
qed

lemma is_stale_iff:
  "is_stale_temporary io p q \<longleftrightarrow> (\<exists>uuid. path_file_name q = ''.'' @ path_file_name p @ ''.'' @ uuid @ ''.tmp'' \<and> io_is_uuid io uuid)"
proof -
  have "is_stale_temporary io p q \<longleftrightarrow> (\<exists>rest uuid. strip_prefix (''.'' @ path_file_name p @ ''.'') (path_file_name q) = Some rest \<and>
      strip_suffix ''.tmp'' rest = Some uuid \<and> io_is_uuid io uuid)"
    by (simp add: is_stale_temporary_def split: option.splits)
  then show ?thesis by (auto simp: strip_prefix_iff strip_suffix_iff)
qed

lemma temporary_is_stale: "io_is_uuid io uuid \<Longrightarrow> is_stale_temporary io p (temporary_path p uuid)"
  by (auto simp: is_stale_iff temporary_path_def with_file_name_def path_file_name_def)

lemma not_stale_self: "\<not> is_stale_temporary io p p"
proof
  assume "is_stale_temporary io p p"
  then obtain uuid where "path_file_name p = ''.'' @ path_file_name p @ ''.'' @ uuid @ ''.tmp''"
    by (auto simp: is_stale_iff)
  then have "length (path_file_name p) = length (''.'' @ path_file_name p @ ''.'' @ uuid @ ''.tmp'')" by (rule arg_cong)
  then show False by simp
qed

lemma discard_each_at:
  "discard_each io label qs d = (r, d') \<Longrightarrow> p \<notin> set qs \<Longrightarrow> file_at p d' = file_at p d"
proof (induction qs arbitrary: d)
  case (Cons q qs)
  then show ?case by (auto split: prod.splits result.splits dest: remove_file_at[of io q _ _ _ p])
qed simp

lemma discard_each_gone:
  "discard_each io label qs d = (Ok u, d') \<Longrightarrow> p \<in> set qs \<Longrightarrow> file_at p d' = None"
proof (induction qs arbitrary: d)
  case (Cons q qs)
  obtain r1 d1 where q: "remove_file io q d = (r1, d1)" by force
  with Cons.prems(1) have rest: "discard_each io label qs d1 = (Ok u, d')" by (cases r1) auto
  show ?case
  proof (cases "p \<in> set qs")
    case False
    with Cons.prems q rest have "r1 = Ok ()" "p = q" by (auto split: result.splits)
    then have "file_at p d1 = None"
      using q by (auto simp: remove_file_def file_at_def bt_get_remove split: if_splits option.splits)
    then show ?thesis using discard_each_at[OF rest False] by simp
  qed (rule Cons.IH[OF rest])
qed simp

lemma discard_each_quiet:
  assumes "\<forall>q. io_remove io q = None"
  shows "distinct qs \<Longrightarrow> \<forall>q\<in>set qs. bt_contains (dk_files d) q \<Longrightarrow> \<exists>d'. discard_each io label qs d = (Ok (), d')"
proof (induction qs arbitrary: d)
  case (Cons q qs)
  have "\<forall>p\<in>set qs. bt_contains (bt_remove q (dk_files d)) p"
    using Cons.prems by (auto simp: bt_contains_def bt_get_remove)
  with Cons.IH[of "d\<lparr>dk_files := bt_remove q (dk_files d)\<rparr>"] Cons.prems assms show ?case
    by (simp add: remove_file_def)
qed simp

text \<open>The operating system answers every call of a read.\<close>

definition quiet_io :: "io \<Rightarrow> bool" where
  "quiet_io io \<longleftrightarrow> (\<forall>q. io_remove io q = None) \<and> io_read_dir io = None \<and> io_open io = None \<and>
     io_restrict io = None \<and> io_read io = None"

lemma discard_stale_quiet:
  assumes "quiet_io io"
  obtains d' where "discard_stale_temporary_files io p label d = (Ok (), d')" "file_at p d' = file_at p d"
    "\<And>parent q. path_parent p = Some parent \<Longrightarrow> parent \<in> set (dk_dirs d) \<Longrightarrow> path_parent q = Some parent \<Longrightarrow>
       is_stale_temporary io p q \<Longrightarrow> file_at q d' = None"
proof (cases "path_parent p = None \<or> the (path_parent p) \<notin> set (dk_dirs d)")
  case True
  then show thesis by (intro that[of d]) (auto simp: discard_stale_temporary_files_def split: option.splits)
next
  case False
  then obtain parent where parent: "path_parent p = Some parent" "parent \<in> set (dk_dirs d)" by auto
  let ?qs = "filter (\<lambda>q. path_parent q = Some parent \<and> is_stale_temporary io p q) (bt_keys (dk_files d))"
  have keys: "distinct ?qs" "\<forall>q\<in>set ?qs. bt_contains (dk_files d) q"
    by auto
  obtain d' where d': "discard_each io label ?qs d = (Ok (), d')"
    using discard_each_quiet[OF _ keys, of io label] assms by (auto simp: quiet_io_def)
  have "file_at q d' = None" if "path_parent q = Some parent" "is_stale_temporary io p q" for q
  proof (cases "q \<in> set (bt_keys (dk_files d))")
    case False
    then have "file_at q d = None" by (simp add: file_at_def bt_contains_def)
    with False discard_each_at[OF d'] show ?thesis by simp
  qed (use that discard_each_gone[OF d'] in simp)
  then show thesis
    using parent d' assms discard_each_at[OF d', of p] not_stale_self[of io p]
    by (intro that[of d']) (auto simp: discard_stale_temporary_files_def quiet_io_def)
qed

lemma load_quiet:
  assumes "quiet_io io"
  obtains d' where "load_json_document io parse p label d =
      ((case file_at p d of None \<Rightarrow> Ok None | Some raw \<Rightarrow>
          map_ok Some (map_err (\<lambda>error. ''parse '' @ label @ '' failed; preserved '' @ quoted (path_display p) @
            '': '' @ error) (parse raw))), d')"
    "file_at p d' = file_at p d"
    "\<And>parent q. path_parent p = Some parent \<Longrightarrow> parent \<in> set (dk_dirs d) \<Longrightarrow> path_parent q = Some parent \<Longrightarrow>
       is_stale_temporary io p q \<Longrightarrow> file_at q d' = None"
proof -
  obtain d' where d': "discard_stale_temporary_files io p label d = (Ok (), d')" "file_at p d' = file_at p d"
    "\<And>parent q. path_parent p = Some parent \<Longrightarrow> parent \<in> set (dk_dirs d) \<Longrightarrow> path_parent q = Some parent \<Longrightarrow>
       is_stale_temporary io p q \<Longrightarrow> file_at q d' = None"
    using discard_stale_quiet[OF assms, of p label d] by metis
  show thesis
    using assms d' by (intro that[of d']) (auto simp: load_json_document_def quiet_io_def split: option.splits)
qed

section \<open>The contract of the stores\<close>

text \<open>
  The stores of the host change a document in memory, write it, and take the change back when
  the write is refused; when only the durability of the rename is in doubt they keep it.
\<close>

definition save_or_roll_back ::
    "('doc \<Rightarrow> (string, string) result) \<Rightarrow> ((string, string) result \<Rightarrow> 'd \<Rightarrow> (unit, atomic_json_error) result \<times> 'd)
      \<Rightarrow> 'doc \<Rightarrow> 'doc \<Rightarrow> 'd \<Rightarrow> (unit, string) result \<times> 'doc \<times> 'd" where
  "save_or_roll_back serialize persist previous candidate d =
     (case persist (serialize candidate) d of
        (Ok _, d') \<Rightarrow> (Ok (), candidate, d')
      | (Err error, d') \<Rightarrow>
          (Err (into_message error), if is_indeterminate error then candidate else previous, d'))"

definition mirrors :: "('d \<Rightarrow> string option) \<Rightarrow> ('doc \<Rightarrow> (string, string) result) \<Rightarrow> 'doc \<Rightarrow> 'doc \<Rightarrow> 'd \<Rightarrow> bool" where
  "mirrors contents serialize initial doc d \<longleftrightarrow>
     (case contents d of None \<Rightarrow> doc = initial | Some bytes \<Rightarrow> serialize doc = Ok bytes)"

locale atomic_cell =
  fixes contents :: "'d \<Rightarrow> string option"
    and persist :: "'io \<Rightarrow> (string, string) result \<Rightarrow> 'd \<Rightarrow> (unit, atomic_json_error) result \<times> 'd"
  assumes persist_landed: "persist io serialized d = (Ok (), d') \<Longrightarrow>
      \<exists>bytes. serialized = Ok bytes \<and> contents d' = Some bytes"
    and persist_unknown: "persist io serialized d = (Err (WriteIndeterminate m), d') \<Longrightarrow>
      \<exists>bytes. serialized = Ok bytes \<and> contents d' = Some bytes"
    and persist_refused: "persist io serialized d = (Err (WriteNotCommitted m), d') \<Longrightarrow> contents d' = contents d"
begin

lemma save_mirrors:
  assumes "save_or_roll_back serialize (persist io) previous candidate d = (r, doc, d')"
    "mirrors contents serialize initial previous d"
  shows "mirrors contents serialize initial doc d'"
proof -
  obtain q d1 where q: "persist io (serialize candidate) d = (q, d1)" by force
  show ?thesis
  proof (cases q)
    case (Ok u)
    with q persist_landed[of io "serialize candidate" d d1] assms(1) show ?thesis
      by (auto simp: save_or_roll_back_def mirrors_def)
  next
    case (Err e)
    with q persist_unknown[of io "serialize candidate" d _ d1] persist_refused[of io "serialize candidate" d _ d1] assms
    show ?thesis by (cases e) (auto simp: save_or_roll_back_def mirrors_def)
  qed
qed

lemma save_result:
  assumes "save_or_roll_back serialize (persist io) previous candidate d = (r, doc, d')"
  shows "doc = candidate \<or> doc = previous \<and> contents d' = contents d" "r = Ok () \<Longrightarrow> doc = candidate"
proof -
  obtain q d1 where q: "persist io (serialize candidate) d = (q, d1)" by force
  show "doc = candidate \<or> doc = previous \<and> contents d' = contents d" "r = Ok () \<Longrightarrow> doc = candidate"
    using assms q persist_refused[of io "serialize candidate" d _ d1]
    by (cases q; cases "case q of Err e \<Rightarrow> e"; force simp: save_or_roll_back_def)+
qed

end

interpretation file_cell: atomic_cell "file_at (dir @ [name])" "\<lambda>io. persist_json_document io (dir @ [name]) label"
  for dir name label
proof unfold_locales
  fix io :: io and serialized d d' m
  let ?p = "dir @ [name]"
  show "persist_json_document io ?p label serialized d = (Ok (), d') \<Longrightarrow>
      \<exists>bytes. serialized = Ok bytes \<and> file_at ?p d' = Some bytes"
    by (erule persist_cases) auto
  show "persist_json_document io ?p label serialized d = (Err (WriteIndeterminate m), d') \<Longrightarrow>
      \<exists>bytes. serialized = Ok bytes \<and> file_at ?p d' = Some bytes"
    by (erule persist_cases) auto
  show "persist_json_document io ?p label serialized d = (Err (WriteNotCommitted m), d') \<Longrightarrow>
      file_at ?p d' = file_at ?p d"
    by (erule persist_cases) auto
qed

section \<open>Properties\<close>

text \<open>
  C25: a document is replaced as a whole or not at all, whatever the operating system answers.
  Afterwards the file holds the complete new bytes, if the answer is success or says that only
  the durability of the rename is unknown, and exactly what it held before otherwise; no other
  file changes, and no temporary file stays unless removing it fails.
\<close>

theorem document_write_is_atomic:
  assumes "persist_json_document io p label serialized d = (r, d')" "p \<noteq> []"
  shows "(r = Ok () \<or> (\<exists>m. r = Err (WriteIndeterminate m)) \<longrightarrow> (\<exists>bytes. serialized = Ok bytes \<and> file_at p d' = Some bytes)) \<and>
    ((\<exists>m. r = Err (WriteNotCommitted m)) \<longrightarrow> file_at p d' = file_at p d) \<and>
    (\<forall>q. q \<noteq> p \<and> q \<noteq> temporary_path p (io_uuid io) \<longrightarrow> file_at q d' = file_at q d) \<and>
    (file_at (temporary_path p (io_uuid io)) d = None \<and> io_remove io (temporary_path p (io_uuid io)) = None \<longrightarrow>
       file_at (temporary_path p (io_uuid io)) d' = None)"
proof -
  have "(r = Ok () \<or> (\<exists>m. r = Err (WriteIndeterminate m)) \<longrightarrow> (\<exists>bytes. serialized = Ok bytes \<and> file_at p d' = Some bytes)) \<and>
    ((\<exists>m. r = Err (WriteNotCommitted m)) \<longrightarrow> file_at p d' = file_at p d)"
    using assms by (cases rule: persist_cases) auto
  then show ?thesis using persist_elsewhere[OF assms(1)] persist_temporary[OF assms] by blast
qed

text \<open>
  A document that was written is read back, also when earlier writes were interrupted and
  left temporary files behind, and the read removes those files.
\<close>

theorem written_document_is_read:
  assumes "persist_json_document io p label (Ok bytes) d = (Ok (), d1)" "p \<noteq> []"
    "quiet_io io'" "parse bytes = Ok doc" "load_json_document io' parse p label d1 = (r, d2)"
  shows "r = Ok (Some doc) \<and> file_at p d2 = Some bytes \<and>
    (\<forall>q. path_parent q = path_parent p \<and> butlast p \<in> set (dk_dirs d1) \<and> is_stale_temporary io' p q \<longrightarrow> file_at q d2 = None)"
proof -
  have "file_at p d1 = Some bytes" using assms(1,2) by (cases rule: persist_cases) auto
  then have now: "file_at p d1 = Some bytes" .
  obtain d' where d': "load_json_document io' parse p label d1 = (Ok (Some doc), d')" "file_at p d' = Some bytes"
    and gone: "\<And>q. path_parent q = Some (butlast p) \<Longrightarrow> butlast p \<in> set (dk_dirs d1) \<Longrightarrow> is_stale_temporary io' p q \<Longrightarrow> file_at q d' = None"
    by (rule load_quiet[OF assms(3), of parse p label d1]) (use now assms(2,4) in \<open>simp add: path_parent_def\<close>)
  have "path_parent p = Some (butlast p)" using assms(2) by (simp add: path_parent_def)
  with d' gone assms(5) show ?thesis by simp
qed

definition sample_io :: io where
  "sample_io = \<lparr>io_create_dir = None, io_write = None, io_rename = None, io_remove = (\<lambda>_. None), io_sync = None,
     io_read_dir = None, io_open = None, io_restrict = None, io_read = None, io_uuid = ''u'', io_is_uuid = (\<lambda>s. s = ''u'')\<rparr>"

definition sample_disk :: disk where
  "sample_disk = \<lparr>dk_files = bt_of_list [([''d'', ''a.json''], ''old''), ([''d'', ''.a.json.u.tmp''], ''half'')], dk_dirs = [[''d'']]\<rparr>"

definition sample_write :: "io \<Rightarrow> (unit, atomic_json_error) result \<times> disk" where
  "sample_write io = persist_json_document io [''d'', ''a.json''] ''x'' (Ok ''new'') sample_disk"

lemma sample_writes:
  "fst (sample_write (sample_io\<lparr>io_rename := Some ''denied'', io_uuid := ''v''\<rparr>)) = Err (WriteNotCommitted ''replace x failed: denied'')"
  "fst (sample_write (sample_io\<lparr>io_uuid := ''v''\<rparr>)) = Ok ()"
  by code_simp+

theorem document_write_is_atomic_witness:
  "file_at [''d'', ''a.json''] (snd (sample_write (sample_io\<lparr>io_rename := Some ''denied'', io_uuid := ''v''\<rparr>))) =
     file_at [''d'', ''a.json''] sample_disk"
proof -
  let ?io = "sample_io\<lparr>io_rename := Some ''denied'', io_uuid := ''v''\<rparr>"
  have "persist_json_document ?io [''d'', ''a.json''] ''x'' (Ok ''new'') sample_disk =
      (Err (WriteNotCommitted ''replace x failed: denied''), snd (sample_write ?io))"
    using sample_writes(1) by (metis prod.collapse sample_write_def)
  from document_write_is_atomic[OF this] show ?thesis by simp
qed

theorem written_document_is_read_witness:
  "fst (load_json_document sample_io Ok [''d'', ''a.json''] ''x'' (snd (sample_write (sample_io\<lparr>io_uuid := ''v''\<rparr>)))) = Ok (Some ''new'')"
proof -
  let ?d = "snd (sample_write (sample_io\<lparr>io_uuid := ''v''\<rparr>))"
  have w: "persist_json_document (sample_io\<lparr>io_uuid := ''v''\<rparr>) [''d'', ''a.json''] ''x'' (Ok ''new'') sample_disk = (Ok (), ?d)"
    using sample_writes(2) by (metis prod.collapse sample_write_def)
  obtain r d2 where l: "load_json_document sample_io Ok [''d'', ''a.json''] ''x'' ?d = (r, d2)" by force
  have "quiet_io sample_io" by (simp add: quiet_io_def sample_io_def)
  from written_document_is_read[OF w _ this refl l] l show ?thesis by simp
qed

end
