(* ===== verification/Host_Kernel_Store.thy ===== *)
theory Host_Kernel_Store
  imports Host_Files Kernel_State
begin

text \<open>
  \<open>host/src-tauri/src/kernel_state.rs\<close>: the file that stands behind the persistence port of the
  kernel. The document carries a checksum over the compact form of the state, which the reader
  recomputes from the indented text it finds in the file. The serializer is the record
  \<open>state_codec\<close>; \<open>codec_ok\<close> is what its documentation promises for one state.
\<close>

section \<open>The document\<close>

record state_codec =
  sc_compact :: "durable_kernel_state \<Rightarrow> (string, string) result"
    \<comment> \<open>\<open>serde_json::to_vec\<close>\<close>
  sc_document :: "32 word \<Rightarrow> string \<Rightarrow> durable_kernel_state \<Rightarrow> (string, string) result"
    \<comment> \<open>\<open>serde_json::to_vec_pretty\<close> of a \<open>KernelStateDocument\<close>\<close>
  sc_read :: "string \<Rightarrow> (32 word \<times> string \<times> string, string) result"
    \<comment> \<open>\<open>serde_json::from_str\<close> with the state as \<open>RawValue\<close>\<close>
  sc_state :: "string \<Rightarrow> (durable_kernel_state, string) result"
  sc_sha256_hex :: "string \<Rightarrow> string"

definition kernel_state_format_version :: "32 word" where
  "kernel_state_format_version = 1"

definition is_ascii_whitespace :: "char \<Rightarrow> bool" where
  "is_ascii_whitespace c \<longleftrightarrow> c \<in> {CHR '' '', CHR 0x09, CHR 0x0A, CHR 0x0C, CHR 0x0D}"

fun compact_bytes :: "bool \<Rightarrow> bool \<Rightarrow> string \<Rightarrow> string" where
  "compact_bytes in_string escaped [] = []"
| "compact_bytes in_string escaped (byte # rest) =
     (if in_string then
        byte # (if escaped then compact_bytes True False rest
                else if byte = CHR 0x5C then compact_bytes True True rest
                else if byte = CHR 0x22 then compact_bytes False escaped rest
                else compact_bytes True escaped rest)
      else if byte = CHR 0x22 then byte # compact_bytes True escaped rest
      else if \<not> is_ascii_whitespace byte then byte # compact_bytes False escaped rest
      else compact_bytes False escaped rest)"

definition checksum :: "state_codec \<Rightarrow> durable_kernel_state \<Rightarrow> (string, string) result" where
  "checksum codec state =
     map_ok (sc_sha256_hex codec)
       (map_err (\<lambda>error. ''serialize kernel state checksum input failed: '' @ error) (sc_compact codec state))"

definition checksum_raw :: "state_codec \<Rightarrow> string \<Rightarrow> string" where
  "checksum_raw codec state = sc_sha256_hex codec (compact_bytes False False state)"

section \<open>Load and commit\<close>

definition kernel_state_label :: string where
  "kernel_state_label = ''durable kernel state''"

definition decimal_u32 :: "32 word \<Rightarrow> string" where
  "decimal_u32 n = string_of_nat (unat n)"

definition check_document ::
    "state_codec \<Rightarrow> path \<Rightarrow> 32 word \<times> string \<times> string \<Rightarrow> (durable_kernel_state option, string) result" where
  "check_document codec p document = (case document of (format_version, state_sha256, state) \<Rightarrow>
     if format_version \<noteq> kernel_state_format_version then
       Err (''unsupported durable kernel state version: '' @ decimal_u32 format_version)
     else if checksum_raw codec state \<noteq> state_sha256 then
       Err (''durable kernel state checksum mismatch; preserved '' @ quoted (path_display p))
     else map_ok Some (map_err (\<lambda>error. ''parse durable kernel state failed: '' @ error) (sc_state codec state)))"

definition store_load :: "state_codec \<Rightarrow> io \<Rightarrow> path \<Rightarrow> disk \<Rightarrow> (durable_kernel_state option, string) result \<times> disk" where
  "store_load codec io p d =
     (case load_json_document io (sc_read codec) p kernel_state_label d of
        (Err error, d') \<Rightarrow> (Err error, d')
      | (Ok None, d') \<Rightarrow> (Ok None, d')
      | (Ok (Some document), d') \<Rightarrow> (check_document codec p document, d'))"

definition read_persisted :: "state_codec \<Rightarrow> io \<Rightarrow> path \<Rightarrow> disk \<Rightarrow> (durable_kernel_state option, string) result \<times> disk" where
  "read_persisted codec io p d =
     (case load_json_document io (sc_read codec) p kernel_state_label d of
        (Err error, d') \<Rightarrow> (Err error, d')
      | (Ok None, d') \<Rightarrow> (Ok None, d')
      | (Ok (Some document), d') \<Rightarrow> (check_document codec p document, d'))"

definition validate_persisted :: "state_codec \<Rightarrow> io \<Rightarrow> path \<Rightarrow> disk \<Rightarrow> (unit, string) result \<times> disk" where
  "validate_persisted codec io p d =
     (case read_persisted codec io p d of (r, d') \<Rightarrow> (map_ok (\<lambda>_. ()) r, d'))"

text \<open>The writer of this store leaves the directory sync to \<open>sync_committed_file\<close>.\<close>

definition deferred_dir_sync :: "io \<Rightarrow> io" where
  "deferred_dir_sync io = io\<lparr>io_sync := None\<rparr>"

definition sync_committed_file :: "io \<Rightarrow> string option \<Rightarrow> path \<Rightarrow> (unit, string) result" where
  "sync_committed_file io file_sync p =
     (case file_sync of
        Some error \<Rightarrow> Err (''sync committed kernel state failed: '' @ error)
      | None \<Rightarrow>
          (case path_parent p of
             None \<Rightarrow> Ok ()
           | Some _ \<Rightarrow>
               (case io_sync io of
                  Some error \<Rightarrow> Err (''sync kernel state directory failed: '' @ error)
                | None \<Rightarrow> Ok ())))"

definition store_commit ::
    "state_codec \<Rightarrow> io \<Rightarrow> string option \<Rightarrow> path \<Rightarrow> durable_kernel_state \<Rightarrow> disk \<Rightarrow> commit_outcome \<times> disk" where
  "store_commit codec io file_sync p state d =
     (case checksum codec state of
        Err error \<Rightarrow> (NotCommitted error, d)
      | Ok digest \<Rightarrow>
     (case persist_json_document (deferred_dir_sync io) p kernel_state_label
          (sc_document codec kernel_state_format_version digest state) d of
        (Err (WriteNotCommitted error), d') \<Rightarrow> (NotCommitted error, d')
      | (Err (WriteIndeterminate error), d') \<Rightarrow> (Indeterminate error, d')
      | (Ok _, d') \<Rightarrow>
          (case sync_committed_file io file_sync p of
             Ok _ \<Rightarrow> (Committed, d')
           | Err error \<Rightarrow> (Indeterminate error, d'))))"

section \<open>The checksum does not depend on the layout\<close>

text \<open>
  A text laid out differently: white space may be added between the tokens, while string
  literals stay as they are. Inside a literal a backslash hides the next character.
\<close>

inductive literal_body :: "string \<Rightarrow> bool" where
  "literal_body []"
| "c \<noteq> CHR 0x22 \<Longrightarrow> c \<noteq> CHR 0x5C \<Longrightarrow> literal_body s \<Longrightarrow> literal_body (c # s)"
| "literal_body s \<Longrightarrow> literal_body (CHR 0x5C # c # s)"

inductive respaced :: "string \<Rightarrow> string \<Rightarrow> bool" where
  "respaced [] []"
| "is_ascii_whitespace c \<Longrightarrow> respaced s t \<Longrightarrow> respaced s (c # t)"
| "\<not> is_ascii_whitespace c \<Longrightarrow> c \<noteq> CHR 0x22 \<Longrightarrow> respaced s t \<Longrightarrow> respaced (c # s) (c # t)"
| "literal_body b \<Longrightarrow> respaced s t \<Longrightarrow>
     respaced (CHR 0x22 # b @ CHR 0x22 # s) (CHR 0x22 # b @ CHR 0x22 # t)"

lemma compact_literal:
  "literal_body b \<Longrightarrow> compact_bytes True False (b @ CHR 0x22 # t) = b @ CHR 0x22 # compact_bytes False False t"
  by (induction rule: literal_body.induct) auto

lemma compact_respaced: "respaced s t \<Longrightarrow> compact_bytes False False t = s"
  by (induction rule: respaced.induct) (auto simp: compact_literal is_ascii_whitespace_def)

lemma compact_append_literal:
  "literal_body b \<Longrightarrow> compact_bytes False False (CHR 0x22 # b @ CHR 0x22 # t) =
     CHR 0x22 # b @ CHR 0x22 # compact_bytes False False t"
  by (simp add: compact_literal)

section \<open>The file implements the persistence port\<close>

definition codec_ok :: "state_codec \<Rightarrow> durable_kernel_state \<Rightarrow> bool" where
  "codec_ok codec state \<longleftrightarrow> (\<exists>compact. sc_compact codec state = Ok compact \<and>
     (\<forall>digest. \<exists>bytes raw. sc_document codec kernel_state_format_version digest state = Ok bytes \<and>
        sc_read codec bytes = Ok (kernel_state_format_version, digest, raw) \<and> respaced compact raw \<and>
        sc_state codec raw = Ok state))"

text \<open>What the file stands for.\<close>

definition file_holds :: "state_codec \<Rightarrow> path \<Rightarrow> disk \<Rightarrow> durable_kernel_state option \<Rightarrow> bool" where
  "file_holds codec p d content \<longleftrightarrow> (case content of
       None \<Rightarrow> file_at p d = None
     | Some state \<Rightarrow> \<exists>bytes document. file_at p d = Some bytes \<and> sc_read codec bytes = Ok document \<and>
         check_document codec p document = Ok (Some state))"

lemma load_holds:
  assumes "file_holds codec p d content" "quiet_io io"
  shows "fst (store_load codec io p d) = Ok content"
proof -
  obtain d' where "load_json_document io (sc_read codec) p kernel_state_label d =
      (case file_at p d of None \<Rightarrow> Ok None | Some raw \<Rightarrow>
          map_ok Some (map_err (\<lambda>error. ''parse '' @ kernel_state_label @ '' failed; preserved '' @ quoted (path_display p) @
            '': '' @ error) (sc_read codec raw)), d')"
    by (rule load_quiet[OF assms(2)])
  with assms(1) show ?thesis
    by (cases content) (auto simp: store_load_def file_holds_def)
qed

lemma written_holds:
  assumes "codec_ok codec state" "checksum codec state = Ok digest"
    "sc_document codec kernel_state_format_version digest state = Ok bytes" "file_at p d = Some bytes"
  shows "file_holds codec p d (Some state)"
proof -
  obtain compact raw where c: "sc_compact codec state = Ok compact" "respaced compact raw"
    "sc_read codec bytes = Ok (kernel_state_format_version, digest, raw)" "sc_state codec raw = Ok state"
    using assms(1,3) by (auto simp: codec_ok_def) (metis result.inject(1))
  then have "checksum_raw codec raw = digest"
    using assms(2) by (simp add: checksum_def checksum_raw_def compact_respaced)
  with c assms(4) show ?thesis by (auto simp: file_holds_def check_document_def)
qed

lemma commit_holds:
  assumes ok: "codec_ok codec state" and holds: "file_holds codec p d content" and p: "p \<noteq> []"
    and commit: "store_commit codec io file_sync p state d = (outcome, d')"
  shows "file_holds codec p d' (case outcome of NotCommitted _ \<Rightarrow> content | _ \<Rightarrow> Some state)"
proof -
  obtain digest where digest: "checksum codec state = Ok digest"
    using ok by (auto simp: codec_ok_def checksum_def)
  obtain r d1 where w: "persist_json_document (deferred_dir_sync io) p kernel_state_label
      (sc_document codec kernel_state_format_version digest state) d = (r, d1)" by force
  then have d': "d' = d1" using commit digest
    by (auto simp: store_commit_def split: result.splits atomic_json_error.splits)
  from w p show ?thesis
  proof (cases rule: persist_cases)
    case (refused m)
    then have "file_holds codec p d1 content" using holds by (simp add: file_holds_def split: option.splits)
    with refused commit digest w show ?thesis by (auto simp: store_commit_def)
  next
    case (landed bytes)
    with written_holds[OF ok digest] commit digest w d' show ?thesis
      by (auto simp: store_commit_def split: result.splits)
  next
    case (unknown bytes m)
    with written_holds[OF ok digest] commit digest w d' show ?thesis by (auto simp: store_commit_def)
  qed
qed

definition file_env :: "state_codec \<Rightarrow> io \<Rightarrow> string option \<Rightarrow> path \<Rightarrow> disk \<Rightarrow> env \<Rightarrow> env" where
  "file_env codec io file_sync p d env =
     env\<lparr>env_commit := \<lambda>state. fst (store_commit codec io file_sync p state d), env_lands := \<lambda>_. True\<rparr>"

text \<open>
  The checksum a reader computes from the indented text of a state is the one the writer
  computed from its compact form: the scanner removes exactly the white space outside string
  literals, whatever quotes and backslashes the literals contain, and nothing else.
\<close>

theorem checksum_ignores_layout:
  assumes "respaced compact raw" "sc_compact codec state = Ok compact"
  shows "checksum codec state = Ok (checksum_raw codec raw)"
  using compact_respaced[OF assms(1)] assms(2) by (simp add: checksum_def checksum_raw_def)

text \<open>
  C26: the file store implements the persistence port of the kernel. If the file stands for the
  content the kernel believes to be stored, then after any commit of the kernel, whatever the
  operating system answers, it stands for the content the kernel then believes to be stored, and
  the next start loads exactly that.
\<close>

theorem file_store_implements_port:
  assumes "file_holds codec p d content" "p \<noteq> []" "k_store k = Some content" "\<not> k_recovery_required k"
    "codec_ok codec (durable_of_parts registry ledger broker artifacts)"
    "commit_parts (file_env codec io file_sync p d env) registry ledger broker artifacts k = (r, k')"
    "store_commit codec io file_sync p (durable_of_parts registry ledger broker artifacts) d = (outcome, d')"
    "quiet_io io'"
  shows "\<exists>content'. k_store k' = Some content' \<and> file_holds codec p d' content' \<and>
    fst (store_load codec io' p d') = Ok content'"
proof -
  let ?content = "case outcome of NotCommitted _ \<Rightarrow> content | _ \<Rightarrow> Some (durable_of_parts registry ledger broker artifacts)"
  have "file_holds codec p d' ?content" by (rule commit_holds[OF assms(5,1,2,7)])
  moreover have "k_store k' = Some ?content"
    using assms(3,4,6,7) by (auto simp: commit_parts_def file_env_def Let_def split: commit_outcome.splits)
  ultimately show ?thesis using load_holds[OF _ assms(8)] by blast
qed

section \<open>Witnesses\<close>

definition sample_codec :: state_codec where
  "sample_codec = \<lparr>sc_compact = (\<lambda>_. Ok (''{'' @ [CHR 0x22] @ ''a b'' @ [CHR 0x22] @ '':1}'')), sc_document = (\<lambda>_ digest _. Ok digest),
     sc_read = (\<lambda>text. Ok (1, text, ''{ '' @ [CHR 0x22] @ ''a b'' @ [CHR 0x22] @ '': 1 }'')),
     sc_state = (\<lambda>_. Ok durable_empty), sc_sha256_hex = (\<lambda>s. s)\<rparr>"

lemma sample_respaced:
  "respaced (''{'' @ [CHR 0x22] @ ''a b'' @ [CHR 0x22] @ '':1}'') (''{ '' @ [CHR 0x22] @ ''a b'' @ [CHR 0x22] @ '': 1 }'')"
proof -
  have "literal_body ''a b''" by (intro literal_body.intros) simp_all
  moreover have "respaced '':1}'' '': 1 }''" by (intro respaced.intros; simp add: is_ascii_whitespace_def)
  ultimately have "respaced (CHR 0x22 # ''a b'' @ CHR 0x22 # '':1}'') (CHR 0x22 # ''a b'' @ CHR 0x22 # '': 1 }'')"
    by (rule respaced.intros(4))
  then have "respaced (CHR 0x22 # ''a b'' @ CHR 0x22 # '':1}'') (CHR '' '' # CHR 0x22 # ''a b'' @ CHR 0x22 # '': 1 }'')"
    by (rule respaced.intros(2)[rotated]) (simp add: is_ascii_whitespace_def)
  from respaced.intros(3)[OF _ _ this, of "CHR ''{''"] show ?thesis by (simp add: is_ascii_whitespace_def)
qed

theorem checksum_ignores_layout_witness:
  "checksum sample_codec durable_empty = Ok (checksum_raw sample_codec (''{ '' @ [CHR 0x22] @ ''a b'' @ [CHR 0x22] @ '': 1 }''))"
  by (rule checksum_ignores_layout[OF sample_respaced]) (simp add: sample_codec_def)

lemma sample_codec_ok: "codec_ok sample_codec durable_empty"
  using sample_respaced by (auto simp: codec_ok_def sample_codec_def kernel_state_format_version_def)

lemma sample_parts: "durable_of_parts registry_new ledger_new broker_new artifact_store_new = durable_empty"
  by (simp add: durable_of_parts_def durable_empty_def registry_new_def ledger_new_def broker_new_def
      artifact_store_new_def installed_apps_def durable_grants_def durable_revocations_def artifact_all_def
      bt_values_def bt_keys_def)

definition empty_disk :: disk where
  "empty_disk = \<lparr>dk_files = bt_empty, dk_dirs = []\<rparr>"

end
