(* ===== verification/Mcp_Wire.thy ===== *)
theory Mcp_Wire
  imports Primitives Host_Files
begin

text \<open>
  \<open>crates/mcp-adapter\<close>, the wire: \<open>errors.rs\<close>, the bounded line reader of \<open>transport.rs\<close>, the
  server-sent events of \<open>http.rs\<close>, and the JSON-RPC and tool vocabulary of \<open>protocol.rs\<close>. A
  stream is the chunks its buffered reader delivers; a Rust string is its UTF-8 bytes.
\<close>

section \<open>Values\<close>

fun json_get :: "string \<Rightarrow> json \<Rightarrow> json option" where
  "json_get key (JObject members) = map_of members key"
| "json_get key _ = None"

fun as_str :: "json \<Rightarrow> string option" where
  "as_str (JString s) = Some s"
| "as_str _ = None"

fun as_array :: "json \<Rightarrow> json list option" where
  "as_array (JArray items) = Some items"
| "as_array _ = None"

fun as_object :: "json \<Rightarrow> json_object option" where
  "as_object (JObject members) = Some members"
| "as_object _ = None"

definition get_str :: "string \<Rightarrow> json \<Rightarrow> string option" where
  "get_str key v = Option.bind (json_get key v) as_str"

text \<open>A JSON object lists its members in the order of their keys, as \<open>serde_json::Map\<close> does.\<close>

fun obj_insert :: "string \<Rightarrow> json \<Rightarrow> json_object \<Rightarrow> json_object" where
  "obj_insert key v [] = [(key, v)]"
| "obj_insert key v ((k, w) # members) =
     (if key < k then (key, v) # (k, w) # members
      else if key = k then (key, v) # members
      else (k, w) # obj_insert key v members)"

definition obj_remove :: "string \<Rightarrow> json_object \<Rightarrow> json_object" where
  "obj_remove key members = filter (\<lambda>(k, _). k \<noteq> key) members"

lemma map_of_obj_insert [simp]: "map_of (obj_insert key v members) k = (if k = key then Some v else map_of members k)"
  by (induction members) auto

lemma map_of_obj_remove [simp]: "map_of (obj_remove key members) k = (if k = key then None else map_of members k)"
  by (induction members) (auto simp: obj_remove_def)

datatype mcp_error =
    McpTransport string
  | McpProtocol string
  | McpTimeout string int
  | McpCancelled
  | McpServer int string
  | McpTool string
  | McpInvalidToolSchema string string string

type_synonym 'a mcp_result = "('a, mcp_error) result"

text \<open>What the adapter uses of \<open>serde_json\<close> and \<open>jsonschema\<close>.\<close>

record mcp_externals =
  mx_show :: "json \<Rightarrow> string"
    \<comment> \<open>\<open>Display for Value\<close>\<close>
  mx_size :: "json \<Rightarrow> (int, string) result"
    \<comment> \<open>length of \<open>serde_json::to_vec\<close>\<close>
  mx_parse :: "string \<Rightarrow> (json, string) result"
    \<comment> \<open>\<open>serde_json::from_str\<close>\<close>
  mx_schema_error :: "json_object \<Rightarrow> string option"
    \<comment> \<open>\<open>jsonschema::validator_for\<close>\<close>
  mx_as_i64 :: "json \<Rightarrow> int option"
  mx_as_u64 :: "json \<Rightarrow> u64 option"
  mx_utf8_error :: "string \<Rightarrow> string option"
    \<comment> \<open>the error of \<open>String::from_utf8\<close>\<close>

section \<open>Reading lines with a ceiling\<close>

definition max_message_bytes :: int where
  "max_message_bytes = 8 * 1024 * 1024"

datatype read_error = OversizedMessage | InvalidUtf8 string | StreamBroken string | StreamTimedOut

fun read_error_text :: "read_error \<Rightarrow> string" where
  "read_error_text OversizedMessage = ''MCP message exceeded 8388608 bytes without a newline''"
| "read_error_text (InvalidUtf8 error) = ''MCP message is not valid UTF-8: '' @ error"
| "read_error_text (StreamBroken error) = error"
| "read_error_text StreamTimedOut = ''timed out''"

definition decode_line :: "mcp_externals \<Rightarrow> string \<Rightarrow> (string, read_error) result" where
  "decode_line mx line = (case mx_utf8_error mx line of None \<Rightarrow> Ok line | Some error \<Rightarrow> Err (InvalidUtf8 error))"

definition newline :: char where
  "newline = CHR 0x0A"

text \<open>
  The loop over \<open>fill_buf\<close>; a stream without chunks is at its end. The rest of the stream is
  returned with the line.
\<close>

fun read_line_capped ::
    "mcp_externals \<Rightarrow> string \<Rightarrow> string list \<Rightarrow> (string option, read_error) result \<times> string list" where
  "read_line_capped mx line [] =
     (if line = [] then (Ok None, []) else (map_ok Some (decode_line mx line), []))"
| "read_line_capped mx line (available # chunks) =
     (if available = [] then read_line_capped mx line chunks
      else if newline \<in> set available then
        (let before = takeWhile (\<lambda>c. c \<noteq> newline) available;
             rest = drop (length before + 1) available
         in if int (length line) + int (length before) > max_message_bytes then
              (Err OversizedMessage, available # chunks)
            else (map_ok Some (decode_line mx (line @ before)), rest # chunks))
      else if int (length line) + int (length available) > max_message_bytes then
        (Err OversizedMessage, available # chunks)
      else read_line_capped mx (line @ available) chunks)"

text \<open>The same on the whole text, without chunks.\<close>

definition read_line_spec :: "mcp_externals \<Rightarrow> string \<Rightarrow> (string option, read_error) result" where
  "read_line_spec mx stream =
     (let line = takeWhile (\<lambda>c. c \<noteq> newline) stream in
      if int (length line) > max_message_bytes then Err OversizedMessage
      else if stream = [] then Ok None
      else map_ok Some (decode_line mx line))"

definition after_line :: "string \<Rightarrow> string" where
  "after_line stream = drop 1 (dropWhile (\<lambda>c. c \<noteq> newline) stream)"

lemma takeWhile_no_newline: "newline \<notin> set s \<Longrightarrow> takeWhile (\<lambda>c. c \<noteq> newline) (s @ t) = s @ takeWhile (\<lambda>c. c \<noteq> newline) t"
  by (rule takeWhile_append2) auto

lemma dropWhile_no_newline: "newline \<notin> set s \<Longrightarrow> dropWhile (\<lambda>c. c \<noteq> newline) (s @ t) = dropWhile (\<lambda>c. c \<noteq> newline) t"
  by (rule dropWhile_append2) auto

lemma takeWhile_newline: "newline \<in> set a \<Longrightarrow> takeWhile (\<lambda>c. c \<noteq> newline) (a @ t) = takeWhile (\<lambda>c. c \<noteq> newline) a"
  by (rule takeWhile_append1[of newline]) auto

lemma dropWhile_newline:
  "newline \<in> set a \<Longrightarrow> dropWhile (\<lambda>c. c \<noteq> newline) (a @ t) = dropWhile (\<lambda>c. c \<noteq> newline) a @ t"
  by (rule dropWhile_append1[of newline]) auto

lemma drop_after_takeWhile: "drop (length (takeWhile P a) + 1) a = drop 1 (dropWhile P a)"
proof -
  have "drop (length (takeWhile P a) + 1) a = drop 1 (drop (length (takeWhile P a)) a)" by (simp add: add.commute)
  then show ?thesis by (simp add: dropWhile_eq_drop)
qed

lemma read_line_general:
  assumes "newline \<notin> set line" "int (length line) \<le> max_message_bytes"
  shows "fst (read_line_capped mx line chunks) = read_line_spec mx (line @ concat chunks) \<and>
    (fst (read_line_capped mx line chunks) \<noteq> Err OversizedMessage \<longrightarrow>
       concat (snd (read_line_capped mx line chunks)) = after_line (line @ concat chunks))"
  using assms
proof (induction mx line chunks rule: read_line_capped.induct)
  case (1 mx line)
  then show ?case
    using takeWhile_no_newline[of line "[]"] dropWhile_no_newline[of line "[]"]
    by (auto simp: read_line_spec_def after_line_def Let_def simp del: takeWhile_eq_all_conv dropWhile_eq_Nil_conv)
next
  case (2 mx line available chunks)
  show ?case
  proof (cases "available = []")
    case False
    let ?before = "takeWhile (\<lambda>c. c \<noteq> newline) available"
    show ?thesis
    proof (cases "newline \<in> set available")
      case True
      have "dropWhile (\<lambda>c. c \<noteq> newline) available \<noteq> []" using True by (simp add: dropWhile_eq_Nil_conv)
      then have "drop 1 (dropWhile (\<lambda>c. c \<noteq> newline) available @ t) = drop 1 (dropWhile (\<lambda>c. c \<noteq> newline) available) @ t" for t
        by (cases "dropWhile (\<lambda>c. c \<noteq> newline) available") auto
      then show ?thesis
        using False True 2(3)
        by (auto simp: read_line_spec_def after_line_def Let_def takeWhile_no_newline dropWhile_no_newline
            takeWhile_newline dropWhile_newline drop_after_takeWhile[simplified])
    next
      case no: False
      show ?thesis
      proof (cases "int (length line) + int (length available) > max_message_bytes")
        case True
        have "takeWhile (\<lambda>c. c \<noteq> newline) (line @ available @ concat chunks) =
            line @ available @ takeWhile (\<lambda>c. c \<noteq> newline) (concat chunks)"
          using no 2(3) by (simp add: takeWhile_no_newline)
        then have "read_line_spec mx (line @ available @ concat chunks) = Err OversizedMessage"
          using True by (simp add: read_line_spec_def)
        with False no True show ?thesis by simp
      next
        case fits: False
        then show ?thesis using 2(2)[OF False no fits] 2(3) no False by simp
      qed
    qed
  qed (use 2 in simp)
qed

section \<open>Server-sent events\<close>

fun trim_end_newlines :: "string \<Rightarrow> string" where
  "trim_end_newlines s = rev (dropWhile (\<lambda>c. c = CHR 0x0D \<or> c = CHR 0x0A) (rev s))"

text \<open>The lines are those of \<open>read_line_capped\<close>; the list is what is left of the stream.\<close>

fun next_sse_data ::
    "string list \<Rightarrow> int \<Rightarrow> (string option, read_error) result list \<Rightarrow> (string option, read_error) result \<times> (string option, read_error) result list" where
  "next_sse_data data_lines buffered [] = (Ok None, [])"
| "next_sse_data data_lines buffered (Err error # rest) = (Err error, rest)"
| "next_sse_data data_lines buffered (Ok None # rest) = (Ok None, rest)"
| "next_sse_data data_lines buffered (Ok (Some raw) # rest) =
     (let line = trim_end_newlines raw; buffered = buffered + int (length line) in
      if buffered > max_message_bytes then
        (Err (StreamBroken ''SSE event exceeded the maximum message size''), rest)
      else if line = [] then
        (if data_lines \<noteq> [] then (Ok (Some (str_join [newline] data_lines)), rest)
         else next_sse_data data_lines buffered rest)
      else next_sse_data
        (case strip_prefix ''data:'' line of
           None \<Rightarrow> data_lines
         | Some data \<Rightarrow> data_lines @ [case strip_prefix '' '' data of Some stripped \<Rightarrow> stripped | None \<Rightarrow> data])
        buffered rest)"

section \<open>JSON-RPC responses\<close>

definition extract_result_or_server_error :: "mcp_externals \<Rightarrow> json \<Rightarrow> json mcp_result" where
  "extract_result_or_server_error mx message =
     (case as_object message of
        None \<Rightarrow> Err (McpProtocol ''JSON-RPC response is not an object'')
      | Some _ \<Rightarrow>
     if get_str ''jsonrpc'' message \<noteq> Some ''2.0'' then
       Err (McpProtocol ''JSON-RPC response has an invalid or missing version'')
     else if json_get ''method'' message \<noteq> None then
       Err (McpProtocol ''JSON-RPC response must not carry a method'')
     else if (json_get ''result'' message \<noteq> None) = (json_get ''error'' message \<noteq> None) then
       Err (McpProtocol ''JSON-RPC response must carry exactly one of result or error'')
     else case json_get ''error'' message of
       Some error \<Rightarrow>
         (case as_object error of
            None \<Rightarrow> Err (McpProtocol ''JSON-RPC error is not an object'')
          | Some _ \<Rightarrow>
         (case Option.bind (json_get ''code'' error) (mx_as_i64 mx) of
            None \<Rightarrow> Err (McpProtocol ''JSON-RPC error carries no integer code'')
          | Some code \<Rightarrow>
         (case get_str ''message'' error of
            None \<Rightarrow> Err (McpProtocol ''JSON-RPC error carries no string message'')
          | Some text \<Rightarrow> Err (McpServer code text))))
     | None \<Rightarrow> Ok (the (json_get ''result'' message)))"

definition unpack_response :: "mcp_externals \<Rightarrow> json \<Rightarrow> u64 \<Rightarrow> string \<Rightarrow> json mcp_result" where
  "unpack_response mx message request_id method_name =
     (if Option.bind (json_get ''id'' message) (mx_as_u64 mx) \<noteq> Some request_id then
        Err (McpProtocol (quoted method_name @ '' answered with a mismatched response id''))
      else extract_result_or_server_error mx message)"

lemma extract_result_Ok:
  "extract_result_or_server_error mx message = Ok v \<Longrightarrow>
     json_get ''result'' message = Some v \<and> json_get ''error'' message = None \<and> json_get ''method'' message = None \<and>
     get_str ''jsonrpc'' message = Some ''2.0''"
  by (auto simp: extract_result_or_server_error_def split: option.splits if_splits)

text \<open>The events of one response: others are skipped until the one with the id of the request.\<close>

fun read_sse_response ::
    "mcp_externals \<Rightarrow> u64 \<Rightarrow> string \<Rightarrow> int \<Rightarrow> (bool \<times> (string option, read_error) result) list \<Rightarrow> json mcp_result" where
  "read_sse_response mx request_id method_name timeout [] =
     Err (McpProtocol (''SSE stream ended before the '' @ quoted method_name @ '' response arrived''))"
| "read_sse_response mx request_id method_name timeout ((is_cancelled, event) # events) =
     (if is_cancelled then Err McpCancelled
      else case event of
        Err StreamTimedOut \<Rightarrow> Err (McpTimeout method_name timeout)
      | Err error \<Rightarrow> Err (McpTransport (''SSE stream broke during '' @ quoted method_name @ '': '' @
          read_error_text error))
      | Ok None \<Rightarrow> Err (McpProtocol (''SSE stream ended before the '' @ quoted method_name @ '' response arrived''))
      | Ok (Some data) \<Rightarrow>
          (case mx_parse mx data of
             Err error \<Rightarrow> Err (McpProtocol (''SSE carried malformed JSON-RPC data: '' @ error))
           | Ok message \<Rightarrow>
               if Option.bind (json_get ''id'' message) (mx_as_u64 mx) = Some request_id \<and> json_get ''method'' message = None
               then unpack_response mx message request_id method_name
               else read_sse_response mx request_id method_name timeout events))"

lemma read_sse_Ok:
  "read_sse_response mx i m t events = Ok v \<Longrightarrow>
     \<exists>data message. (False, Ok (Some data)) \<in> set events \<and> mx_parse mx data = Ok message \<and>
       Option.bind (json_get ''id'' message) (mx_as_u64 mx) = Some i \<and> json_get ''result'' message = Some v"
proof (induction events)
  case (Cons e events)
  obtain c r where e: "e = (c, r)" by force
  from Cons.prems obtain data message where d: "\<not> c" "r = Ok (Some data)" "mx_parse mx data = Ok message"
    by (auto simp: e split: if_splits result.splits option.splits read_error.splits)
  show ?case
  proof (cases "Option.bind (json_get ''id'' message) (mx_as_u64 mx) = Some i \<and> json_get ''method'' message = None")
    case True
    with Cons.prems d e show ?thesis
      by (auto simp: unpack_response_def dest!: extract_result_Ok intro!: exI[of _ data] exI[of _ message])
  next
    case False
    with Cons.prems d e have "read_sse_response mx i m t events = Ok v" by (simp split: if_splits)
    with Cons.IH show ?thesis by auto
  qed
qed simp

text \<open>
  How a server cuts its output into pieces does not matter. Reading a line from the chunks
  of a stream gives what reading it from the whole text gives, and leaves the text after the
  line; a line longer than the ceiling is refused in every case, whether or not it ever ends.
\<close>

theorem line_reading_ignores_chunks:
  "fst (read_line_capped mx [] chunks) = read_line_spec mx (concat chunks) \<and>
   (fst (read_line_capped mx [] chunks) = Err OversizedMessage \<or>
    concat (snd (read_line_capped mx [] chunks)) = after_line (concat chunks))"
  using read_line_general[of "[]" mx chunks] by (auto simp: max_message_bytes_def)

end
