(* ===== verification/Mcp_Client.thy ===== *)
theory Mcp_Client
  imports Mcp_Wire Kernel_Install
begin

text \<open>
  \<open>crates/mcp-adapter\<close>, the session: tools and results of \<open>protocol.rs\<close>, the handshake and the
  discovery of \<open>client.rs\<close>, and the bridge of \<open>bridge.rs\<close> that turns the tools of a server into an
  app of the kernel. A transport is a record of its operations on a state of its own.
\<close>

section \<open>Tools\<close>

definition latest_protocol_version :: string where
  "latest_protocol_version = ''2025-06-18''"

definition legacy_protocol_version :: string where
  "legacy_protocol_version = ''2025-03-26''"

definition supported_protocol_versions :: "string list" where
  "supported_protocol_versions = [latest_protocol_version, legacy_protocol_version]"

definition is_supported_protocol_version :: "string \<Rightarrow> bool" where
  "is_supported_protocol_version version = List.member supported_protocol_versions version"

record mcp_tool_definition =
  mt_name :: string
  mt_description :: string
  mt_input_schema :: json_object
  mt_output_schema :: "json_object option"

definition parse_tool :: "mcp_externals \<Rightarrow> json \<Rightarrow> mcp_tool_definition mcp_result" where
  "parse_tool mx tool =
     (case get_str ''name'' tool of
        None \<Rightarrow> Err (McpProtocol ''advertised tool has no name'')
      | Some name \<Rightarrow>
     if blank name then Err (McpProtocol ''advertised tool has no name'')
     else case json_get ''inputSchema'' tool of
        None \<Rightarrow> Err (McpProtocol (''tool '' @ quoted name @ '' has no inputSchema''))
      | Some input_value \<Rightarrow>
     (case as_object input_value of
        None \<Rightarrow> Err (McpProtocol (''tool '' @ quoted name @ '' has a non-object inputSchema: '' @ mx_show mx input_value))
      | Some input_schema \<Rightarrow>
     (let build = (\<lambda>output_schema. Ok \<lparr>mt_name = name,
            mt_description = (case get_str ''description'' tool of Some text \<Rightarrow> text | None \<Rightarrow> []),
            mt_input_schema = input_schema, mt_output_schema = output_schema\<rparr>)
      in case json_get ''outputSchema'' tool of
        None \<Rightarrow> build None
      | Some output_value \<Rightarrow>
          (case as_object output_value of
             Some output_schema \<Rightarrow> build (Some output_schema)
           | None \<Rightarrow> Err (McpProtocol (''tool '' @ quoted name @ '' has a non-object outputSchema: '' @
               mx_show mx output_value))))))"

definition validate_tool_schema :: "mcp_externals \<Rightarrow> string \<Rightarrow> string \<Rightarrow> json_object \<Rightarrow> unit mcp_result" where
  "validate_tool_schema mx tool which schema =
     (if get_str ''type'' (JObject schema) \<noteq> Some ''object'' then
        Err (McpInvalidToolSchema tool which ''MCP tool schemas must declare an object root'')
      else case mx_schema_error mx schema of
        Some error \<Rightarrow> Err (McpInvalidToolSchema tool which error)
      | None \<Rightarrow> Ok ())"

definition validate_tool_step ::
    "mcp_externals \<Rightarrow> string list \<Rightarrow> mcp_tool_definition \<Rightarrow> string list mcp_result" where
  "validate_tool_step mx seen tool =
     (if List.member seen (mt_name tool) then
        Err (McpProtocol (''server advertises duplicate tool name '' @ quoted (mt_name tool)))
      else
      bind_r (validate_tool_schema mx (mt_name tool) ''input'' (mt_input_schema tool)) (\<lambda>_.
      bind_r (case mt_output_schema tool of
          None \<Rightarrow> Ok ()
        | Some output_schema \<Rightarrow> validate_tool_schema mx (mt_name tool) ''output'' output_schema) (\<lambda>_.
      Ok (mt_name tool # seen))))"

definition validate_tools :: "mcp_externals \<Rightarrow> mcp_tool_definition list \<Rightarrow> unit mcp_result" where
  "validate_tools mx tools = map_ok (\<lambda>_. ()) (try_fold (validate_tool_step mx) [] tools)"

definition is_text_item :: "json \<Rightarrow> bool" where
  "is_text_item item \<longleftrightarrow> get_str ''type'' item = Some ''text''"

definition joined_text_content :: "json list \<Rightarrow> string" where
  "joined_text_content items = str_join [newline] (List.map_filter (get_str ''text'') (filter is_text_item items))"

definition check_content_item :: "string \<Rightarrow> json \<Rightarrow> unit mcp_result" where
  "check_content_item tool item =
     (case get_str ''type'' item of
        None \<Rightarrow> Err (McpProtocol (''tool '' @ quoted tool @ '' returned an untyped content item''))
      | Some item_type \<Rightarrow>
          if item_type = ''text'' \<and> get_str ''text'' item = None then
            Err (McpProtocol (''tool '' @ quoted tool @ '' returned text content without text''))
          else Ok ())"

definition extract_tool_result :: "mcp_externals \<Rightarrow> string \<Rightarrow> json \<Rightarrow> json mcp_result" where
  "extract_tool_result mx tool answer =
     (case as_object answer of
        None \<Rightarrow> Err (McpProtocol (''tool '' @ quoted tool @ '' returned a non-object result''))
      | Some _ \<Rightarrow>
     (case Option.bind (json_get ''content'' answer) as_array of
        None \<Rightarrow> Err (McpProtocol (''tool '' @ quoted tool @ '' result carries no content array''))
      | Some content \<Rightarrow>
     bind_r (for_each (check_content_item tool) content) (\<lambda>_.
     bind_r (case json_get ''isError'' answer of
         None \<Rightarrow> Ok False
       | Some (JBool flag) \<Rightarrow> Ok flag
       | Some _ \<Rightarrow> Err (McpProtocol (''tool '' @ quoted tool @ '' result has a non-boolean isError''))) (\<lambda>is_error.
     let text = joined_text_content content in
     if is_error then Err (McpTool (if text = [] then ''tool '' @ quoted tool @ '' reported an error'' else text))
     else case json_get ''structuredContent'' answer of
       Some structured \<Rightarrow>
         (case as_object structured of
            Some members \<Rightarrow> Ok (JObject members)
          | None \<Rightarrow> Err (McpProtocol (''tool '' @ quoted tool @ '' returned non-object structuredContent'')))
     | None \<Rightarrow>
         if list_ex (\<lambda>item. \<not> is_text_item item) content then Ok (JArray content)
         else Ok (case mx_parse mx text of Ok v \<Rightarrow> v | Err _ \<Rightarrow> JString text)))))"

section \<open>The session\<close>

text \<open>A cancellation predicate reads the state it closes over, as the transport does while it waits.\<close>

record 't request_options =
  ro_timeout :: int
    \<comment> \<open>seconds\<close>
  ro_cancel :: "('t \<Rightarrow> bool) option"

definition with_timeout :: "int \<Rightarrow> 't request_options" where
  "with_timeout timeout = \<lparr>ro_timeout = timeout, ro_cancel = None\<rparr>"

definition handshake_timeout :: int where
  "handshake_timeout = 10"

definition call_timeout :: int where
  "call_timeout = 60"

record 't transport =
  tr_request :: "string \<Rightarrow> json \<Rightarrow> 't request_options \<Rightarrow> 't \<Rightarrow> json mcp_result \<times> 't"
  tr_notify :: "string \<Rightarrow> json \<Rightarrow> 't \<Rightarrow> unit mcp_result \<times> 't"
  tr_shutdown :: "'t \<Rightarrow> 't"

definition max_tool_list_pages :: nat where
  "max_tool_list_pages = 1000"

definition max_tools :: int where
  "max_tools = 10000"

definition max_tool_discovery_bytes :: int where
  "max_tool_discovery_bytes = 16 * 1024 * 1024"

definition validate_initialize_result :: "json \<Rightarrow> (string \<times> string) mcp_result" where
  "validate_initialize_result answer =
     (case get_str ''protocolVersion'' answer of
        None \<Rightarrow> Err (McpProtocol ''initialize result carries no protocolVersion'')
      | Some negotiated \<Rightarrow>
     if \<not> is_supported_protocol_version negotiated then
       Err (McpProtocol (''server negotiated unsupported MCP protocol version '' @ quoted negotiated @
         ''; supported versions are '' @ str_join '', '' supported_protocol_versions))
     else case Option.bind (json_get ''capabilities'' answer) as_object of
        None \<Rightarrow> Err (McpProtocol ''initialize result carries no capabilities'')
      | Some capabilities \<Rightarrow>
     if Option.bind (map_of capabilities ''tools'') as_object = None then
       Err (McpProtocol ''server does not advertise the MCP tools capability'')
     else case Option.bind (json_get ''serverInfo'' answer) as_object of
        None \<Rightarrow> Err (McpProtocol ''initialize result carries no serverInfo'')
      | Some server_info \<Rightarrow>
     (case get_str ''name'' (JObject server_info) of
        None \<Rightarrow> Err (McpProtocol ''serverInfo carries no name'')
      | Some server_name \<Rightarrow>
     if blank server_name then Err (McpProtocol ''serverInfo carries no name'')
     else case get_str ''version'' (JObject server_info) of
        None \<Rightarrow> Err (McpProtocol ''serverInfo carries no version'')
      | Some version \<Rightarrow>
          if blank version then Err (McpProtocol ''serverInfo carries no version'')
          else Ok (negotiated, server_name)))"

definition initialize_params :: "string \<Rightarrow> json" where
  "initialize_params package_version =
     JObject [(''protocolVersion'', JString latest_protocol_version), (''capabilities'', JObject []),
       (''clientInfo'', JObject [(''name'', JString ''ai-app-host''), (''version'', JString package_version)])]"

definition connect :: "string \<Rightarrow> 't transport \<Rightarrow> 't \<Rightarrow> (string \<times> string) mcp_result \<times> 't" where
  "connect package_version transport s =
     (case tr_request transport ''initialize'' (initialize_params package_version) (with_timeout handshake_timeout) s of
        (Err error, s1) \<Rightarrow> (Err error, s1)
      | (Ok answer, s1) \<Rightarrow>
     (case validate_initialize_result answer of
        Err error \<Rightarrow> (Err error, tr_shutdown transport s1)
      | Ok (negotiated, server_name) \<Rightarrow>
     (case tr_notify transport ''notifications/initialized'' JNull s1 of
        (Err error, s2) \<Rightarrow> (Err error, tr_shutdown transport s2)
      | (Ok _, s2) \<Rightarrow> (Ok (negotiated, server_name), s2))))"

definition grow_discovery :: "int \<Rightarrow> int \<Rightarrow> int mcp_result" where
  "grow_discovery discovery_bytes added =
     (if discovery_bytes + added \<le> max_tool_discovery_bytes then Ok (discovery_bytes + added)
      else Err (McpProtocol ''tool discovery exceeded 16777216 bytes''))"

definition discover_tool ::
    "mcp_externals \<Rightarrow> mcp_tool_definition list \<times> int \<Rightarrow> json \<Rightarrow> (mcp_tool_definition list \<times> int) mcp_result" where
  "discover_tool mx acc tool = (case acc of (tools, discovery_bytes) \<Rightarrow>
     if int (length tools) \<ge> max_tools then Err (McpProtocol ''server advertised more than 10000 tools'')
     else
     bind_r (map_err (\<lambda>error. McpProtocol (''tools/list tool is not serializable: '' @ error)) (mx_size mx tool)) (\<lambda>tool_bytes.
     bind_r (grow_discovery discovery_bytes tool_bytes) (\<lambda>discovery_bytes.
     bind_r (parse_tool mx tool) (\<lambda>definition_of_tool.
     Ok (tools @ [definition_of_tool], discovery_bytes)))))"

definition next_cursor :: "json \<Rightarrow> int \<Rightarrow> (string option \<times> int) mcp_result" where
  "next_cursor answer discovery_bytes =
     (case json_get ''nextCursor'' answer of
        None \<Rightarrow> Ok (None, discovery_bytes)
      | Some (JString cursor) \<Rightarrow>
          bind_r (grow_discovery discovery_bytes (int (length cursor))) (\<lambda>discovery_bytes. Ok (Some cursor, discovery_bytes))
      | Some _ \<Rightarrow> Err (McpProtocol ''tools/list nextCursor must be a string when present''))"

text \<open>One round of the loop; \<open>pages\<close> is how many are left of the range.\<close>

fun list_pages ::
    "mcp_externals \<Rightarrow> 't transport \<Rightarrow> nat \<Rightarrow> string option \<Rightarrow> string list \<Rightarrow> mcp_tool_definition list \<times> int \<Rightarrow> 't
      \<Rightarrow> mcp_tool_definition list mcp_result \<times> 't" where
  "list_pages mx transport 0 cursor seen_cursors acc s =
     (Err (McpProtocol ''tools/list did not terminate within 1000 pages''), s)"
| "list_pages mx transport (Suc pages) cursor seen_cursors acc s =
     (let params = (case cursor of Some c \<Rightarrow> JObject [(''cursor'', JString c)] | None \<Rightarrow> JObject []) in
      case tr_request transport ''tools/list'' params (with_timeout handshake_timeout) s of
        (Err error, s1) \<Rightarrow> (Err error, s1)
      | (Ok answer, s1) \<Rightarrow>
     (case Option.bind (json_get ''tools'' answer) as_array of
        None \<Rightarrow> (Err (McpProtocol ''tools/list result carries no tools array''), s1)
      | Some page \<Rightarrow>
     (case try_fold (discover_tool mx) acc page of
        Err error \<Rightarrow> (Err error, s1)
      | Ok (tools, discovery_bytes) \<Rightarrow>
     (case next_cursor answer discovery_bytes of
        Err error \<Rightarrow> (Err error, s1)
      | Ok (None, _) \<Rightarrow> (bind_r (validate_tools mx tools) (\<lambda>_. Ok tools), s1)
      | Ok (Some next_value, discovery_bytes) \<Rightarrow>
          if List.member seen_cursors next_value then
            (Err (McpProtocol ''tools/list returned a repeated pagination cursor''), s1)
          else list_pages mx transport pages (Some next_value) (next_value # seen_cursors) (tools, discovery_bytes) s1))))"

definition list_tools :: "mcp_externals \<Rightarrow> 't transport \<Rightarrow> 't \<Rightarrow> mcp_tool_definition list mcp_result \<times> 't" where
  "list_tools mx transport s = list_pages mx transport max_tool_list_pages None [] ([], 0) s"

definition call_tool :: "mcp_externals \<Rightarrow> 't transport \<Rightarrow> string \<Rightarrow> json_object \<Rightarrow> 't request_options \<Rightarrow> 't
      \<Rightarrow> json mcp_result \<times> 't" where
  "call_tool mx transport tool arguments options s =
     (case tr_request transport ''tools/call'' (JObject [(''name'', JString tool), (''arguments'', JObject arguments)]) options s of
        (Err error, s1) \<Rightarrow> (Err error, s1)
      | (Ok answer, s1) \<Rightarrow> (extract_tool_result mx tool answer, s1))"

section \<open>Discovery is bounded\<close>

text \<open>A transport that counts the requests it forwards.\<close>

definition counting :: "'t transport \<Rightarrow> ('t \<times> nat) transport" where
  "counting transport = \<lparr>
     tr_request = (\<lambda>method params options (s, n).
       (let (answer, s') = tr_request transport method params \<lparr>ro_timeout = ro_timeout options, ro_cancel =
            map_option (\<lambda>cancel s. cancel (s, n)) (ro_cancel options)\<rparr> s in (answer, (s', Suc n)))),
     tr_notify = (\<lambda>method params (s, n). let (answer, s') = tr_notify transport method params s in (answer, (s', n))),
     tr_shutdown = (\<lambda>(s, n). (tr_shutdown transport s, n))\<rparr>"

definition wire_bytes :: "mcp_externals \<Rightarrow> json \<Rightarrow> int" where
  "wire_bytes mx tool = (case mx_size mx tool of Ok n \<Rightarrow> n | Err _ \<Rightarrow> 0)"

definition parsed_within :: "mcp_externals \<Rightarrow> mcp_tool_definition list \<times> int \<Rightarrow> bool" where
  "parsed_within mx acc \<longleftrightarrow> int (length (fst acc)) \<le> max_tools \<and> snd acc \<le> max_tool_discovery_bytes \<and>
     (\<exists>raw. map (\<lambda>tool. parse_tool mx tool) raw = map Ok (fst acc) \<and> sum_list (map (wire_bytes mx) raw) \<le> snd acc)"

definition usable_tool :: "mcp_externals \<Rightarrow> mcp_tool_definition \<Rightarrow> bool" where
  "usable_tool mx tool \<longleftrightarrow> (\<forall>schema \<in> insert (mt_input_schema tool) (set_option (mt_output_schema tool)).
     get_str ''type'' (JObject schema) = Some ''object'' \<and> mx_schema_error mx schema = None)"

lemma validate_tool_schema_Ok_iff [simp]:
  "validate_tool_schema mx tool which schema = Ok u \<longleftrightarrow>
     get_str ''type'' (JObject schema) = Some ''object'' \<and> mx_schema_error mx schema = None"
  by (auto simp: validate_tool_schema_def split: option.splits)

lemma validate_tool_step_Ok_iff:
  "validate_tool_step mx seen tool = Ok seen' \<longleftrightarrow>
     mt_name tool \<notin> set seen \<and> usable_tool mx tool \<and> seen' = mt_name tool # seen"
  by (auto simp: validate_tool_step_def bind_r_Ok_iff usable_tool_def split: option.splits)

lemma validate_fold_Ok_iff:
  "(\<exists>seen'. try_fold (validate_tool_step mx) seen tools = Ok seen') \<longleftrightarrow>
     distinct (map mt_name tools) \<and> mt_name ` set tools \<inter> set seen = {} \<and> (\<forall>tool\<in>set tools. usable_tool mx tool)"
proof (induction tools arbitrary: seen)
  case (Cons tool tools)
  have "(\<exists>seen'. try_fold (validate_tool_step mx) seen (tool # tools) = Ok seen') \<longleftrightarrow>
      mt_name tool \<notin> set seen \<and> usable_tool mx tool \<and>
      (\<exists>seen'. try_fold (validate_tool_step mx) (mt_name tool # seen) tools = Ok seen')"
    by (auto simp: bind_r_Ok_iff validate_tool_step_Ok_iff)
  then show ?case unfolding Cons.IH by auto
qed simp

lemma validate_tools_Ok_iff:
  "validate_tools mx tools = Ok u \<longleftrightarrow> distinct (map mt_name tools) \<and> (\<forall>tool\<in>set tools. usable_tool mx tool)"
  using validate_fold_Ok_iff[of mx "[]" tools] by (auto simp: validate_tools_def)

lemma grow_discovery_Ok_iff:
  "grow_discovery bytes added = Ok bytes' \<longleftrightarrow> bytes' = bytes + added \<and> bytes' \<le> max_tool_discovery_bytes"
  by (auto simp: grow_discovery_def)

lemma discover_tool_parsed:
  assumes "parsed_within mx acc" "discover_tool mx acc tool = Ok acc'"
  shows "parsed_within mx acc'"
proof -
  obtain tools bytes where acc: "acc = (tools, bytes)" by (cases acc)
  obtain added parsed where step: "mx_size mx tool = Ok added" "parse_tool mx tool = Ok parsed"
      "acc' = (tools @ [parsed], bytes + added)" "bytes + added \<le> max_tool_discovery_bytes" "int (length tools) < max_tools"
    using assms(2) by (auto simp: acc discover_tool_def bind_r_Ok_iff grow_discovery_Ok_iff split: if_splits)
  obtain raw where "map (parse_tool mx) raw = map Ok tools" "sum_list (map (wire_bytes mx) raw) \<le> bytes"
    using assms(1) by (auto simp: parsed_within_def acc)
  with step show ?thesis
    by (auto simp: parsed_within_def wire_bytes_def intro!: exI[of _ "raw @ [tool]"])
qed

lemma next_cursor_parsed:
  assumes "parsed_within mx (tools, bytes)" "next_cursor answer bytes = Ok (cursor, bytes')"
  shows "parsed_within mx (tools, bytes')"
proof -
  have "bytes \<le> bytes' \<and> bytes' \<le> max_tool_discovery_bytes"
    using assms by (auto simp: next_cursor_def parsed_within_def bind_r_Ok_iff grow_discovery_Ok_iff
        split: option.splits json.splits)
  with assms(1) show ?thesis by (force simp: parsed_within_def)
qed

lemma list_pages_result:
  assumes "list_pages mx transport pages cursor seen acc s = (Ok tools, s')" "parsed_within mx acc"
  shows "(\<exists>bytes. parsed_within mx (tools, bytes)) \<and> validate_tools mx tools = Ok ()"
  using assms
proof (induction mx transport pages cursor seen acc s rule: list_pages.induct)
  case (2 mx transport pages cursor seen acc s)
  obtain answer s1 page where answer: "tr_request transport ''tools/list''
        (case cursor of Some c \<Rightarrow> JObject [(''cursor'', JString c)] | None \<Rightarrow> JObject []) (with_timeout handshake_timeout) s = (Ok answer, s1)"
      "Option.bind (json_get ''tools'' answer) as_array = Some page"
    using 2(2) by (auto simp: Let_def split: prod.splits result.splits option.splits)
  obtain tools1 bytes1 where fold: "try_fold (discover_tool mx) acc page = Ok (tools1, bytes1)"
    using 2(2) answer by (auto simp: Let_def split: result.splits)
  have parsed: "parsed_within mx (tools1, bytes1)"
    using try_fold_invariant[OF fold, of "parsed_within mx"] 2(3) discover_tool_parsed by blast
  obtain next_one bytes2 where cursor: "next_cursor answer bytes1 = Ok (next_one, bytes2)"
    using 2(2) answer fold by (auto simp: Let_def split: result.splits)
  show ?case
  proof (cases next_one)
    case None
    then show ?thesis using 2(2) answer fold cursor parsed by (auto simp: bind_r_Ok_iff)
  next
    case (Some c)
    then have "\<not> List.member seen c" using 2(2) answer fold cursor by (auto split: if_splits)
    then show ?thesis
      using 2(1)[OF refl answer(1)[symmetric] refl answer(2) fold refl cursor refl Some] 2(2) answer fold cursor Some
        next_cursor_parsed[OF parsed cursor] by auto
  qed
qed simp

lemma counting_request: "\<exists>answer s'. tr_request (counting transport) method params options (s, n) = (answer, (s', Suc n))"
  by (simp add: counting_def split_beta)

lemma list_pages_requests:
  "snd (snd (list_pages mx (counting transport) pages cursor seen acc (s, n))) \<le> n + pages"
proof (induction pages arbitrary: cursor seen acc s n)
  case (Suc pages)
  let ?params = "case cursor of Some c \<Rightarrow> JObject [(''cursor'', JString c)] | None \<Rightarrow> JObject []"
  obtain answer s1 where step: "tr_request (counting transport) ''tools/list'' ?params (with_timeout handshake_timeout) (s, n)
      = (answer, (s1, Suc n))"
    using counting_request[of transport "''tools/list''" ?params "with_timeout handshake_timeout" s n] by auto
  show ?case
    using Suc[of _ _ _ s1 "Suc n"]
    by (auto simp: step Let_def split: result.splits option.splits prod.splits)
qed simp

text \<open>A server with one tool, a server that never stops paging, and the libraries they are read with.\<close>

definition sample_mcp_externals :: mcp_externals where
  "sample_mcp_externals = \<lparr>mx_show = (\<lambda>_. ''?''), mx_size = (\<lambda>_. Ok 40), mx_parse = (\<lambda>_. Err ''no JSON''),
     mx_schema_error = (\<lambda>_. None), mx_as_i64 = (\<lambda>_. None), mx_as_u64 = (\<lambda>_. None), mx_utf8_error = (\<lambda>_. None)\<rparr>"

definition sample_tool :: json where
  "sample_tool = JObject [(''name'', JString ''echo''), (''inputSchema'', JObject [(''type'', JString ''object'')])]"

definition sample_server :: "unit transport" where
  "sample_server = \<lparr>tr_request = (\<lambda>_ _ _ s. (Ok (JObject [(''tools'', JArray [sample_tool])]), s)),
     tr_notify = (\<lambda>_ _ s. (Ok (), s)), tr_shutdown = id\<rparr>"

definition sample_tools :: "mcp_tool_definition list" where
  "sample_tools = [\<lparr>mt_name = ''echo'', mt_description = [], mt_input_schema = [(''type'', JString ''object'')],
     mt_output_schema = None\<rparr>]"

lemma sample_server_pages:
  "list_pages sample_mcp_externals (counting sample_server) (Suc pages) None [] ([], 0) ((), 0) = (Ok sample_tools, ((), 1))"
  by (simp add: sample_server_def counting_def sample_tool_def sample_mcp_externals_def sample_tools_def
      discover_tool_def next_cursor_def grow_discovery_def max_tools_def max_tool_discovery_bytes_def parse_tool_def
      get_str_def white_space_encodings_def validate_tools_def validate_tool_step_def validate_tool_schema_def)

lemma sample_server_tools: "list_tools sample_mcp_externals (counting sample_server) ((), 0) = (Ok sample_tools, ((), 1))"
  using sample_server_pages[of 999] by (simp add: list_tools_def max_tool_list_pages_def del: list_pages.simps)

text \<open>C35: Whatever a server answers (an endless chain of fresh cursors, tools without end, giant
  declarations), \<open>list_tools\<close> returns after at most 1000 requests; when it succeeds it holds at most
  10,000 tools, whose declarations took at most 16 MiB of JSON on the wire and were each parsed from
  that JSON, no two with one name, and each with an input schema and an optional output schema
  that have an object root and compile.\<close>

theorem discovery_is_bounded:
  assumes "list_tools mx (counting transport) (s, 0) = (outcome, (s', requests))"
  shows "requests \<le> max_tool_list_pages \<and>
    (\<forall>tools. outcome = Ok tools \<longrightarrow>
       int (length tools) \<le> max_tools \<and>
       (\<exists>raw. map (parse_tool mx) raw = map Ok tools \<and> sum_list (map (wire_bytes mx) raw) \<le> max_tool_discovery_bytes) \<and>
       distinct (map mt_name tools) \<and> (\<forall>tool\<in>set tools. usable_tool mx tool))"
proof -
  have start: "parsed_within mx ([], 0)"
    by (simp add: parsed_within_def max_tools_def max_tool_discovery_bytes_def)
  have "requests \<le> max_tool_list_pages"
    using list_pages_requests[of mx transport max_tool_list_pages None "[]" "([], 0)" s 0] assms
    by (simp add: list_tools_def)
  moreover have "(\<exists>bytes. parsed_within mx (tools, bytes)) \<and> validate_tools mx tools = Ok ()" if "outcome = Ok tools" for tools
  proof (rule list_pages_result[OF _ start])
    show "list_pages mx (counting transport) max_tool_list_pages None [] ([], 0) (s, 0) = (Ok tools, (s', requests))"
      using assms that by (simp add: list_tools_def)
  qed
  ultimately show ?thesis
    by (fastforce simp: parsed_within_def validate_tools_Ok_iff)
qed

theorem discovery_is_bounded_witness:
  "list_tools sample_mcp_externals (counting sample_server) ((), 0) = (Ok sample_tools, ((), 1)) \<and>
   int (length sample_tools) \<le> max_tools \<and> distinct (map mt_name sample_tools)"
  using discovery_is_bounded[OF sample_server_tools] sample_server_tools by simp

end
