(* ===== verification/Mcp_Bridge.thy ===== *)
theory Mcp_Bridge
  imports Mcp_Client Kernel_Install
begin

text \<open>
  \<open>crates/mcp-adapter/src/bridge.rs\<close>: the app that stands for a plain MCP server, and the closure
  of \<open>client.rs\<close> its handlers call the server with. The bridged app of a server whose tools were
  discovered passes every check of the kernel's install.
\<close>

fun mcp_error_text :: "(int \<Rightarrow> string) \<Rightarrow> (int \<Rightarrow> string) \<Rightarrow> mcp_error \<Rightarrow> string" where
  "mcp_error_text show_int show_duration (McpTransport e) = ''MCP transport failure: '' @ e"
| "mcp_error_text show_int show_duration (McpProtocol e) = ''MCP protocol violation: '' @ e"
| "mcp_error_text show_int show_duration (McpTimeout method timeout) =
     ''MCP '' @ quoted method @ '' timed out after '' @ show_duration timeout"
| "mcp_error_text show_int show_duration McpCancelled = ''MCP request cancelled''"
| "mcp_error_text show_int show_duration (McpServer code message) =
     ''MCP server error '' @ show_int code @ '': '' @ message"
| "mcp_error_text show_int show_duration (McpTool e) = ''MCP tool failed: '' @ e"
| "mcp_error_text show_int show_duration (McpInvalidToolSchema tool which reason) =
     ''MCP tool '' @ quoted tool @ '' advertises an invalid '' @ which @ '' schema: '' @ reason"

definition as_tool_call ::
    "mcp_externals \<Rightarrow> (mcp_error \<Rightarrow> string) \<Rightarrow> 't transport \<Rightarrow> (cancellation_handle \<Rightarrow> 't \<Rightarrow> bool)
      \<Rightarrow> string \<Rightarrow> json_object \<Rightarrow> invocation_context \<Rightarrow> 't \<Rightarrow> (json, string) result \<times> 't" where
  "as_tool_call mx error_text transport cancelled tool arguments context s =
     (let options = \<lparr>ro_timeout = call_timeout, ro_cancel = Some (cancelled (ic_cancellation context))\<rparr>;
          (answer, s') = call_tool mx transport tool arguments options s
      in (map_err error_text answer, s'))"

definition result_card_artifact_type :: string where
  "result_card_artifact_type = ''mcp-result-card''"

definition result_card_schema :: json_object where
  "result_card_schema =
     [(''type'', JString ''object''),
      (''properties'', JObject [(''tool'', JObject [(''type'', JString ''string'')]), (''result'', JObject [])]),
      (''required'', JArray [JString ''tool'', JString ''result'']),
      (''additionalProperties'', JBool False)]"

definition bridged_capability :: "mcp_tool_definition \<Rightarrow> capability_declaration" where
  "bridged_capability tool = \<lparr>cd_name = mt_name tool, cd_description = mt_description tool,
     cd_input_schema = mt_input_schema tool, cd_effect = Unspecified, cd_output_schema = mt_output_schema tool\<rparr>"

definition bridged_form :: "app_id \<Rightarrow> mcp_tool_definition \<Rightarrow> surface_declaration" where
  "bridged_form server_id tool = \<lparr>sd_name = mt_name tool @ ''-form'', sd_kind = Form,
     sd_title = mt_name tool @ '' input'',
     sd_description = ''Auto-rendered form for the '' @ quoted (mt_name tool) @ '' tool schema'',
     sd_intents = [CapabilityRef server_id (mt_name tool)]\<rparr>"

definition bridged_request :: "app_id \<Rightarrow> mcp_tool_definition \<Rightarrow> grant_request" where
  "bridged_request server_id tool = \<lparr>rq_scope = ExactCapability server_id (mt_name tool), rq_data_scope = ScopeNone,
     rq_condition = RequiresApproval,
     rq_reason = ''Invoke MCP tool '' @ quoted (mt_name tool) @ '': '' @ mt_description tool,
     rq_duration = NonExpiring\<rparr>"

definition manifest_for_mcp_server ::
    "externals \<Rightarrow> app_id \<Rightarrow> string \<Rightarrow> string \<Rightarrow> string \<Rightarrow> mcp_tool_definition list \<Rightarrow> sealed_manifest" where
  "manifest_for_mcp_server x server_id display_name version description tools =
     seal x \<lparr>mf_app_id = server_id, mf_version = version, mf_display_name = display_name,
       mf_description = description, mf_capabilities = map bridged_capability tools,
       mf_surfaces = map (bridged_form server_id) tools @
         [\<lparr>sd_name = ''result-cards'', sd_kind = Card, sd_title = display_name @ '' results'',
           sd_description = ''Auto-rendered cards for tool results'', sd_intents = []\<rparr>],
       mf_agents = [], mf_skills = [], mf_assistant_profiles = [], mf_automations = [], mf_connectors = [],
       mf_config_declarations = [],
       mf_artifact_types = [\<lparr>ty_name = result_card_artifact_type,
         ty_description = ''Generic card wrapping one MCP tool result'', ty_json_schema = result_card_schema\<rparr>],
       mf_extension_points = [], mf_extension_contributions = [],
       mf_grant_requests = map (bridged_request server_id) tools, mf_event_subscriptions = []\<rparr>"

text \<open>
  \<open>cancelled\<close> is what the handle answers when the handler starts; \<open>tool_call\<close> is the seam to the
  wire. A bridged handler never cancels itself.
\<close>

definition bridged_handler ::
    "(cancellation_handle \<Rightarrow> bool) \<Rightarrow> (string \<Rightarrow> json_object \<Rightarrow> invocation_context \<Rightarrow> (json, string) result)
      \<Rightarrow> string \<Rightarrow> capability_handler" where
  "bridged_handler cancelled tool_call tool_name input context =
     (HandlerReturned
       (if cancelled (ic_cancellation context) then Err ''MCP tool call cancelled''
        else bind_r (tool_call tool_name input context) (\<lambda>answer.
          Ok \<lparr>oc_result = answer,
              oc_artifacts = [\<lparr>dr_artifact_type = result_card_artifact_type, dr_title = tool_name @ '' result'',
                dr_content = JObject [(''tool'', JString tool_name), (''result'', answer)]\<rparr>]\<rparr>)), False)"

definition handlers_for_mcp_server ::
    "(cancellation_handle \<Rightarrow> bool) \<Rightarrow> (string \<Rightarrow> json_object \<Rightarrow> invocation_context \<Rightarrow> (json, string) result)
      \<Rightarrow> mcp_tool_definition list \<Rightarrow> handler_table" where
  "handlers_for_mcp_server cancelled tool_call tools =
     bt_of_list (map (\<lambda>tool. (mt_name tool, bridged_handler cancelled tool_call (mt_name tool))) tools)"

section \<open>The bridged app installs\<close>

lemma bridged_fields [simp]:
  fixes x server_id display_name version description tools
  defines "m \<equiv> sm_manifest (manifest_for_mcp_server x server_id display_name version description tools)"
  shows "mf_app_id m = server_id" "mf_display_name m = display_name" "mf_event_subscriptions m = []"
    and "mf_capabilities m = map bridged_capability tools" "mf_grant_requests m = map (bridged_request server_id) tools"
  by (simp_all add: m_def manifest_for_mcp_server_def seal_def)

lemma list_tools_valid:
  assumes "fst (list_tools mx transport s) = Ok tools"
  shows "validate_tools mx tools = Ok ()"
proof -
  obtain s' where "list_pages mx transport max_tool_list_pages None [] ([], 0) s = (Ok tools, s')"
    using assms by (cases "list_pages mx transport max_tool_list_pages None [] ([], 0) s") (simp add: list_tools_def)
  then show ?thesis
    by (rule list_pages_result[THEN conjunct2])
      (simp add: parsed_within_def max_tools_def max_tool_discovery_bytes_def)
qed

lemma form_names_distinct:
  assumes "distinct (map mt_name tools)"
  shows "distinct (map sd_name (map (bridged_form server_id) tools) @ [''result-cards''])"
proof -
  have "mt_name tool @ ''-form'' \<noteq> ''result-cards''" for tool
  proof
    assume "mt_name tool @ ''-form'' = ''result-cards''"
    then have "last (mt_name tool @ ''-form'') = last ''result-cards''" by (rule arg_cong)
    then show False by simp
  qed
  moreover have "map sd_name (map (bridged_form server_id) tools) = map (\<lambda>name. name @ ''-form'') (map mt_name tools)"
    by (simp add: bridged_form_def)
  ultimately show ?thesis
    using assms by (auto simp: distinct_map bridged_form_def inj_on_def)
qed

lemma bridged_locally_valid:
  assumes "validate_tools mx tools = Ok ()" "x_schema_error x = mx_schema_error mx"
    and "x_schema_error x result_card_schema = None"
    and "server_id \<noteq> []" "version \<noteq> []" "display_name \<noteq> []"
  shows "locally_valid x (manifest_for_mcp_server x server_id display_name version description tools)"
proof -
  have tools: "distinct (map mt_name tools)" "\<And>tool. tool \<in> set tools \<Longrightarrow> usable_tool mx tool"
    using assms(1) by (auto simp: validate_tools_Ok_iff)
  have "map cd_name (map bridged_capability tools) = map mt_name tools"
    by (simp add: bridged_capability_def)
  then show ?thesis
    using assms tools(1) form_names_distinct[OF tools(1), of server_id] tools(2)
    by (auto simp: locally_valid_def manifest_for_mcp_server_def seal_def manifest_consistent_def Let_def surface_ok_def
        bridged_form_def bridged_capability_def bridged_request_def ds_validate_def usable_tool_def o_def image_iff)
qed

lemma bridged_handlers_bound:
  "require_handler_binding (sm_manifest (manifest_for_mcp_server x server_id display_name version description tools))
     (handlers_for_mcp_server cancelled tool_call tools) = Ok ()"
proof -
  have "bt_contains (handlers_for_mcp_server cancelled tool_call tools) n \<longleftrightarrow> n \<in> mt_name ` set tools" for n
  proof -
    have "bt_get (handlers_for_mcp_server cancelled tool_call tools) n \<noteq> None \<longleftrightarrow> n \<in> mt_name ` set tools"
      unfolding handlers_for_mcp_server_def bt_get_of_list
      by (simp add: map_of_eq_None_iff image_image)
    then show ?thesis by (cases "bt_get (handlers_for_mcp_server cancelled tool_call tools) n") (auto simp: bt_contains_def)
  qed
  then have "bs_of_list (map mt_name tools) = bs_of_list (bt_keys (handlers_for_mcp_server cancelled tool_call tools))"
    by (intro bs_ext) simp
  then show ?thesis
    by (simp add: require_handler_binding_def manifest_for_mcp_server_def seal_def bridged_capability_def o_def)
qed

lemma dedup_distinct_scopes:
  assumes "distinct (map gp_scope prompts)"
  shows "dedup_prompts prompts = prompts"
proof -
  have "foldl (\<lambda>unique prompt. if list_ex (\<lambda>seen. same_authority seen prompt) unique then unique else unique @ [prompt]) acc ps
      = acc @ ps" if "distinct (map gp_scope (acc @ ps))" for acc ps
    using that
  proof (induction ps arbitrary: acc)
    case (Cons p ps)
    then have "gp_scope seen \<noteq> gp_scope p" if "seen \<in> set acc" for seen
      using that by (metis (no_types, lifting) IntI disjoint_iff distinct_append image_eqI list.set_intros(1) list.set_map map_append)
    then have "\<not> list_ex (\<lambda>seen. same_authority seen p) acc" by (auto simp: list_ex_iff same_authority_def)
    then show ?case using Cons.IH[of "acc @ [p]"] Cons.prems by simp
  qed simp
  from this[of "[]"] assms show ?thesis by (simp add: dedup_prompts_def)
qed

text \<open>C34: Whatever tools a server advertises, once \<open>list_tools\<close> has accepted them the bridged app
  passes the whole preparation of an install into a kernel that does not hold the app yet: the
  manifest is sealed, consistent and has only schemas that compile, exactly the declared
  capabilities have handlers, and the user is asked once per tool, for one exact capability of the
  app itself, over no resources, under a grant that needs approval at every use. The kernel and
  the adapter compile schemas with the same library, which compiles the result card's schema.\<close>

theorem bridged_server_is_installable:
  assumes "fst (list_tools mx transport s) = Ok tools"
    and "x_schema_error x = mx_schema_error mx" "x_schema_error x result_card_schema = None"
    and "server_id \<noteq> []" "version \<noteq> []" "display_name \<noteq> []"
    and "bt_get (rg_apps (k_registry k)) server_id = None"
  shows "\<exists>plan. prepare_install x env k (manifest_for_mcp_server x server_id display_name version description tools)
      (handlers_for_mcp_server cancelled tool_call tools) = Ok plan \<and> pl_mode plan = Fresh \<and>
    map gp_scope (pl_grant_prompts plan) = map (\<lambda>tool. ExactCapability server_id (mt_name tool)) tools \<and>
    (\<forall>prompt\<in>set (pl_grant_prompts plan). gp_data_scope prompt = ScopeNone \<and> gp_condition prompt = RequiresApproval) \<and>
    (\<forall>c\<in>set (mf_capabilities (sm_manifest (pl_sealed_manifest plan))). cd_effect c = Unspecified)"
proof -
  let ?sealed = "manifest_for_mcp_server x server_id display_name version description tools"
  have valid: "validate_tools mx tools = Ok ()" using assms(1) by (rule list_tools_valid)
  have "validate_install x (k_registry k) ?sealed = Ok ()"
    using bridged_locally_valid[OF valid assms(2-6), of description] assms(7)
    by (simp add: validate_install_def bind_r_Ok_iff validate_local_Ok_iff bt_contains_def Let_def)
  moreover have "validate_install_grant_requests k (sm_manifest ?sealed) = Ok ()"
    by (auto simp: validate_install_grant_requests_def validate_grant_requests_def validate_request_def
        bridged_request_def bridged_capability_def list_ex_iff white_space_encodings_def)
  ultimately have "install_mode_for x k ?sealed = Ok Fresh"
    using assms(7) by (simp add: install_mode_for_def registry_app_def Let_def)
  moreover have "dedup_prompts (map (prompt_of_request server_id display_name) (map (bridged_request server_id) tools)) =
      map (prompt_of_request server_id display_name) (map (bridged_request server_id) tools)"
    using valid by (intro dedup_distinct_scopes)
      (simp add: validate_tools_Ok_iff prompt_of_request_def bridged_request_def o_def distinct_map inj_on_def)
  ultimately show ?thesis
    by (auto simp: prepare_install_def prepare_install_with_grant_origin_def bridged_handlers_bound install_prompts_def
        provider_content_hashes_for_def Let_def bridged_request_def
        bridged_capability_def prompt_of_request_def o_def)
qed

end
