(* ===== verification/Host_Prelude.thy ===== *)
theory Host_Prelude
  imports Host_Files "HOL-Library.Word"
begin

text \<open>
  What the stores of the host share: Rust's \<open>str\<close> (trimming, splitting, ASCII case, on UTF-8 bytes),
  the size of a bounded table, and what reading a document tells about its file.
\<close>

section \<open>Tables of bounded size\<close>

definition table_size :: "('k::linorder, 'v) btree_map \<Rightarrow> nat" where
  "table_size m = length (bt_entries m)"

lemma table_size_card: "table_size m = card (set (bt_keys m))"
  by (simp add: table_size_def distinct_card bt_keys_def[symmetric] flip: length_map[of fst "bt_entries m"])

lemma table_size_empty [simp]: "table_size bt_empty = 0"
  by (simp add: table_size_def)

lemma table_size_retain: "table_size (bt_retain p m) \<le> table_size m"
  by (simp add: table_size_def)

lemma set_keys_insert: "set (bt_keys (bt_insert k v m)) = insert k (set (bt_keys m))"
  by (auto simp: bt_contains_def bt_get_insert split: if_splits)

lemma set_keys_remove: "set (bt_keys (bt_remove k m)) = set (bt_keys m) - {k}"
  by (auto simp: bt_contains_def bt_get_remove split: if_splits)

lemma table_size_insert: "table_size (bt_insert k v m) \<le> Suc (table_size m)"
  unfolding table_size_card set_keys_insert by (simp add: card_insert_if)

lemma table_size_insert_below: "table_size m < n \<Longrightarrow> table_size (bt_insert k v m) \<le> n"
  using table_size_insert[of k v m] by linarith

lemma table_size_insert_present: "bt_get m k = Some w \<Longrightarrow> table_size (bt_insert k v m) = table_size m"
  unfolding table_size_card set_keys_insert by (simp add: insert_absorb bt_contains_def)

lemma table_size_remove: "table_size (bt_remove k m) \<le> table_size m"
  unfolding table_size_card set_keys_remove by (rule card_mono) auto

lemma table_size_remove_present: "k \<in> set (bt_keys m) \<Longrightarrow> table_size (bt_remove k m) < table_size m"
  unfolding table_size_card set_keys_remove by (rule card_Diff1_less) auto

section \<open>Reading a document\<close>

lemma discard_stale_at:
  assumes "discard_stale_temporary_files io p label d = (r, d')"
  shows "file_at p d' = file_at p d"
  using assms discard_each_at[of io label _ d r d' p]
  by (auto simp: discard_stale_temporary_files_def not_stale_self split: option.splits if_splits)

lemma load_at:
  assumes "load_json_document io parse p label d = (r, d')"
  shows "file_at p d' = file_at p d"
  using assms discard_stale_at[of io p label d]
  by (auto simp: load_json_document_def split: prod.splits result.splits option.splits)

lemma load_outcome:
  assumes "load_json_document io parse p label d = (Ok content, d')"
  shows "case content of
      None \<Rightarrow> file_at p d = None
    | Some doc \<Rightarrow> (\<exists>raw. file_at p d = Some raw \<and> parse raw = Ok doc)"
  using assms discard_stale_at[of io p label d]
  by (auto simp: load_json_document_def split: prod.splits result.splits option.splits)

lemma remove_file_gone: "remove_file io p d = (Ok u, d') \<Longrightarrow> file_at p d' = None"
  by (auto simp: remove_file_def file_at_def bt_get_remove split: if_splits option.splits)

section \<open>Trimming\<close>

text \<open>White space is what \<open>blank\<close> skips; seen from the end its encodings are read backwards.\<close>

definition white_space_lengths :: "nat list list \<Rightarrow> string \<Rightarrow> nat" where
  "white_space_lengths encodings s =
     (case s of
        [] \<Rightarrow> 0
      | c # cs \<Rightarrow>
          if ascii_white_space c then 1
          else case List.find (\<lambda>bytes. map of_char (take (length bytes) s) = bytes) encodings of
            Some bytes \<Rightarrow> length bytes
          | None \<Rightarrow> 0)"

lemma white_space_progress: "white_space_lengths encodings s \<noteq> 0 \<Longrightarrow> length (drop (white_space_lengths encodings s) s) < length s"
  by (cases s) (auto simp: white_space_lengths_def)

function trim_with :: "nat list list \<Rightarrow> string \<Rightarrow> string" where
  "trim_with encodings s =
     (if white_space_lengths encodings s = 0 then s
      else trim_with encodings (drop (white_space_lengths encodings s) s))"
  by auto
termination by (relation "measure (\<lambda>(_, s). length s)") (use white_space_progress in auto)

declare trim_with.simps [simp del]

definition trim_start :: "string \<Rightarrow> string" where
  "trim_start s = trim_with white_space_encodings s"

definition trim_end :: "string \<Rightarrow> string" where
  "trim_end s = rev (trim_with (map rev white_space_encodings) (rev s))"

definition str_trim :: "string \<Rightarrow> string" where
  "str_trim s = trim_end (trim_start s)"

lemma trim_with_suffix: "\<exists>n. trim_with encodings s = drop n s"
proof (induction encodings s rule: trim_with.induct)
  case (1 encodings s)
  show ?case
  proof (cases "white_space_lengths encodings s = 0")
    case True
    then show ?thesis by (intro exI[of _ 0]) (subst trim_with.simps, simp)
  next
    case False
    from 1[OF this] obtain n where "trim_with encodings (drop (white_space_lengths encodings s) s) =
        drop n (drop (white_space_lengths encodings s) s)" by blast
    with False show ?thesis
      by (intro exI[of _ "n + white_space_lengths encodings s"]) (subst trim_with.simps, simp)
  qed
qed

lemma set_trim: "set (str_trim s) \<subseteq> set s"
proof -
  have *: "set (trim_with e t) \<subseteq> set t" for e t
    using trim_with_suffix[of e t] set_drop_subset by metis
  show ?thesis
    using *[of "map rev white_space_encodings" "rev (trim_start s)"] *[of white_space_encodings s]
    by (auto simp: str_trim_def trim_end_def trim_start_def)
qed

lemma length_trim: "length (str_trim s) \<le> length s"
proof -
  have *: "length (trim_with e t) \<le> length t" for e t
    using trim_with_suffix[of e t] by (metis diff_le_self length_drop)
  show ?thesis
    using *[of "map rev white_space_encodings" "rev (trim_start s)"] *[of white_space_encodings s]
    by (simp add: str_trim_def trim_end_def trim_start_def)
qed

section \<open>Splitting\<close>

fun split_char :: "char \<Rightarrow> string \<Rightarrow> string list" where
  "split_char sep [] = [[]]"
| "split_char sep (c # cs) =
     (if c = sep then [] # split_char sep cs
      else case split_char sep cs of [] \<Rightarrow> [[c]] | part # parts \<Rightarrow> (c # part) # parts)"

lemma split_char_not_Nil [simp]: "split_char sep s \<noteq> []"
  by (induction s) (auto split: list.splits)

lemma str_join_split_char: "str_join [sep] (split_char sep s) = s"
proof (induction s)
  case (Cons c cs)
  obtain part parts where "split_char sep cs = part # parts" by (cases "split_char sep cs") auto
  with Cons show ?case by (cases parts) auto
qed simp

fun split_once :: "char \<Rightarrow> string \<Rightarrow> (string \<times> string) option" where
  "split_once sep [] = None"
| "split_once sep (c # cs) =
     (if c = sep then Some ([], cs)
      else map_option (\<lambda>(before, after). (c # before, after)) (split_once sep cs))"

lemma split_once_Some_iff: "split_once sep s = Some (before, after) \<longleftrightarrow> s = before @ sep # after \<and> sep \<notin> set before"
proof (induction s arbitrary: before)
  case (Cons c cs)
  then show ?case by (cases before) (auto split: if_splits)
qed simp

section \<open>ASCII classes\<close>

definition byte_of :: "char \<Rightarrow> nat" where
  "byte_of c = of_char c"

definition ascii_lower :: "char \<Rightarrow> bool" where
  "ascii_lower c = (97 \<le> byte_of c \<and> byte_of c \<le> 122)"

definition ascii_upper :: "char \<Rightarrow> bool" where
  "ascii_upper c = (65 \<le> byte_of c \<and> byte_of c \<le> 90)"

definition ascii_digit :: "char \<Rightarrow> bool" where
  "ascii_digit c = (48 \<le> byte_of c \<and> byte_of c \<le> 57)"

definition ascii_alphanumeric :: "char \<Rightarrow> bool" where
  "ascii_alphanumeric c = (ascii_lower c \<or> ascii_upper c \<or> ascii_digit c)"

definition to_ascii_lowercase :: "string \<Rightarrow> string" where
  "to_ascii_lowercase s = map (\<lambda>c. if ascii_upper c then char_of (byte_of c + 32) else c) s"

definition eq_ignore_ascii_case :: "string \<Rightarrow> string \<Rightarrow> bool" where
  "eq_ignore_ascii_case s t = (to_ascii_lowercase s = to_ascii_lowercase t)"

end
