(* ===== verification/Remote_Auth.thy ===== *)
theory Remote_Auth
  imports Host_Prelude Primitives
begin

text \<open>
  \<open>remote_auth.rs\<close>: the owner's passkeys, the pairing code that admits the first of them, the
  registration and sign-in ceremonies and the sessions. \<open>webauthn-rs\<close>, SHA-256, \<open>serde_json\<close>, the URL
  parser, the random generator and the iteration order of \<open>HashMap\<close> are parameters; the pairing code
  and the registered passkeys are documents on the disk of \<open>Host_Files\<close>.
\<close>

unbundle bit_operations_syntax

definition auth_format_version :: "32 word" where
  "auth_format_version = 1"

definition pairing_format_version :: "32 word" where
  "pairing_format_version = 1"

definition minutes :: "int \<Rightarrow> int" where
  "minutes n = n * 60 * nanos_per_second"

definition pairing_lifetime :: int where
  "pairing_lifetime = minutes 10"

definition ceremony_lifetime :: int where
  "ceremony_lifetime = minutes 5"

definition session_idle :: int where
  "session_idle = minutes 30"

definition session_absolute :: int where
  "session_absolute = minutes (12 * 60)"

definition max_credentials :: nat where
  "max_credentials = 16"

definition max_pending_ceremonies :: nat where
  "max_pending_ceremonies = 32"

definition max_sessions :: nat where
  "max_sessions = 64"

definition session_cookie_name :: string where
  "session_cookie_name = ''kestral_owner_session''"

datatype auth_failure = AuthFailure (af_status: nat) (af_message: string)

record 'k owner_auth_document =
  od_format_version :: "32 word"
  od_rp_id :: string
  od_origin :: string
  od_owner_user_id :: string
  od_credentials :: "'k list"

record pairing_document =
  pd_format_version :: "32 word"
  pd_code_sha256 :: string
  pd_expires_at :: datetime

record 'r registration_ceremony =
  rc_expires_at :: datetime
  rc_owner_user_id :: string
  rc_state :: 'r

record 'a authentication_ceremony =
  ac_expires_at :: datetime
  ac_state :: 'a

record owner_session =
  os_created_at :: datetime
  os_last_seen_at :: datetime

record ('k, 'r, 'a) remote_owner_auth =
  ra_rp_id :: string
  ra_origin :: string
  ra_auth_path :: path
  ra_pairing_path :: path
  ra_document :: "'k owner_auth_document option"
  ra_registrations :: "(string, 'r registration_ceremony) btree_map"
  ra_authentications :: "(string, 'a authentication_ceremony) btree_map"
  ra_sessions :: "(string, owner_session) btree_map"
  ra_secure_cookie :: bool

text \<open>
  The crates behind the component: \<open>'k\<close> is a passkey, \<open>'r\<close> and \<open>'a\<close> the states of the two ceremonies,
  \<open>'c\<close> what a browser answers and \<open>'v\<close> a verified sign-in.
\<close>

record ('k, 'r, 'a, 'c, 'v) auth_externals =
  ax_cred_id :: "'k \<Rightarrow> string"
  ax_start_registration :: "string \<Rightarrow> string list option \<Rightarrow> (json \<times> 'r, string) result"
  ax_finish_registration :: "'c \<Rightarrow> 'r \<Rightarrow> ('k, string) result"
  ax_start_authentication :: "'k list \<Rightarrow> (json \<times> 'a, string) result"
  ax_finish_authentication :: "'c \<Rightarrow> 'a \<Rightarrow> ('v, string) result"
  ax_user_verified :: "'v \<Rightarrow> bool"
  ax_update_credential :: "'v \<Rightarrow> 'k \<Rightarrow> bool option \<times> 'k"
    \<comment> \<open>\<open>Passkey::update_credential\<close>, with the passkey as it leaves it\<close>
  ax_sha256 :: "string \<Rightarrow> string"
  ax_document_json :: "'k owner_auth_document \<Rightarrow> (string, string) result"
  ax_parse_document :: "string \<Rightarrow> ('k owner_auth_document, string) result"
  ax_pairing_json :: "pairing_document \<Rightarrow> (string, string) result"
  ax_parse_pairing :: "string \<Rightarrow> (pairing_document, string) result"
  ax_decimal :: "32 word \<Rightarrow> string"

text \<open>One call: the clock, fresh identifiers and tokens, the disk's answers, the order of the sessions.\<close>

record auth_env =
  ae_now :: datetime
  ae_owner_uuid :: string
  ae_ceremony_uuid :: string
  ae_token :: string
    \<comment> \<open>\<open>random_token\<close>\<close>
  ae_io :: io
  ae_order :: "(string \<times> owner_session) list \<Rightarrow> (string \<times> owner_session) list"

section \<open>Helpers\<close>

definition token_hash :: "('k, 'r, 'a, 'c, 'v) auth_externals \<Rightarrow> string \<Rightarrow> string" where
  "token_hash ax token = ax_sha256 ax token"

definition constant_time_equal :: "string \<Rightarrow> string \<Rightarrow> bool" where
  "constant_time_equal left right =
     (foldl (\<lambda>difference (l, r). difference OR (of_char l XOR of_char r)) (0 :: 8 word) (zip left right) = 0)"

definition session_token :: "string option \<Rightarrow> string option" where
  "session_token cookie_header =
     Option.bind cookie_header (\<lambda>header.
       Option.bind (List.find (\<lambda>part. case split_once (CHR ''='') (str_trim part) of
             None \<Rightarrow> False
           | Some (name, val) \<Rightarrow> name = session_cookie_name \<and> val \<noteq> []) (split_char (CHR '';'') header)) (\<lambda>part.
       map_option snd (split_once (CHR ''='') (str_trim part))))"

definition has_duplicate_credentials :: "('k, 'r, 'a, 'c, 'v) auth_externals \<Rightarrow> 'k list \<Rightarrow> bool" where
  "has_duplicate_credentials ax credentials =
     list_ex (\<lambda>index. list_ex (\<lambda>existing. ax_cred_id ax existing = ax_cred_id ax (credentials ! index))
       (take index credentials)) [0..<length credentials]"

definition credential_count_error :: string where
  "credential_count_error = ''remote owner authentication store has an invalid credential count''"

definition auth_version_error :: "('k, 'r, 'a, 'c, 'v) auth_externals \<Rightarrow> 'k owner_auth_document \<Rightarrow> string" where
  "auth_version_error ax document =
     ''unsupported remote owner authentication format version '' @ ax_decimal ax (od_format_version document)"

definition validate_document ::
    "('k, 'r, 'a, 'c, 'v) auth_externals \<Rightarrow> 'k owner_auth_document \<Rightarrow> string \<Rightarrow> string \<Rightarrow> (unit, string) result" where
  "validate_document ax document rp_id origin =
     (if od_format_version document \<noteq> auth_format_version then Err (auth_version_error ax document)
      else if od_rp_id document \<noteq> rp_id \<or> od_origin document \<noteq> origin then
        Err (''remote owner passkeys are bound to origin '' @ quoted (od_origin document) @ '' and RP ID '' @
          quoted (od_rp_id document) @ ''; configured '' @ quoted origin @ '' and '' @ quoted rp_id)
      else if od_credentials document = [] \<or> length (od_credentials document) > max_credentials then
        Err credential_count_error
      else if has_duplicate_credentials ax (od_credentials document) then
        Err ''remote owner authentication store contains duplicate credentials''
      else Ok ())"

definition validate_persisted_owner_auth ::
    "('k, 'r, 'a, 'c, 'v) auth_externals \<Rightarrow> io \<Rightarrow> path \<Rightarrow> disk \<Rightarrow> (unit, string) result \<times> disk" where
  "validate_persisted_owner_auth ax io p d =
     (case load_json_document io (ax_parse_document ax) p ''remote owner authentication'' d of
        (Err error, d') \<Rightarrow> (Err error, d')
      | (Ok None, d') \<Rightarrow> (Ok (), d')
      | (Ok (Some document), d') \<Rightarrow>
          (if od_format_version document \<noteq> auth_format_version then Err (auth_version_error ax document)
           else if od_credentials document = [] \<or> length (od_credentials document) > max_credentials then
             Err credential_count_error
           else if has_duplicate_credentials ax (od_credentials document) then
             Err ''remote owner authentication store contains duplicate credentials''
           else Ok (), d'))"

text \<open>A parsed \<open>Url\<close>, and \<open>is_loopback\<close> of a parsed \<open>IpAddr\<close>, come from libraries.\<close>

record parsed_url =
  pu_scheme :: string
  pu_host :: "string option"
  pu_path :: string
  pu_query :: "string option"
  pu_fragment :: "string option"
  pu_origin :: string
    \<comment> \<open>\<open>Url::origin().ascii_serialization()\<close>\<close>

definition is_loopback_host :: "(string \<Rightarrow> bool) \<Rightarrow> string \<Rightarrow> bool" where
  "is_loopback_host loopback_address host =
     (eq_ignore_ascii_case host ''localhost'' \<or> loopback_address host)"

definition parse_origin ::
    "(string \<Rightarrow> (parsed_url, string) result) \<Rightarrow> (string \<Rightarrow> bool) \<Rightarrow> string \<Rightarrow> (parsed_url, string) result" where
  "parse_origin url_parse loopback_address origin =
     bind_r (map_err (\<lambda>error. ''invalid HOST_REMOTE_ORIGIN: '' @ error) (url_parse origin)) (\<lambda>parsed.
     if pu_query parsed \<noteq> None \<or> pu_fragment parsed \<noteq> None \<or> pu_path parsed \<noteq> ''/'' then
       Err ''HOST_REMOTE_ORIGIN must contain only scheme, host, and optional port''
     else if pu_scheme parsed = ''https'' then Ok parsed
     else if pu_scheme parsed = ''http'' \<and>
         (case pu_host parsed of Some host \<Rightarrow> is_loopback_host loopback_address host | None \<Rightarrow> False) then Ok parsed
     else Err ''WebAuthn requires HTTPS; plain HTTP is allowed only for localhost or a loopback address'')"

definition open_remote_auth ::
    "('k, 'r, 'a, 'c, 'v) auth_externals \<Rightarrow> (string \<Rightarrow> (parsed_url, string) result) \<Rightarrow> (string \<Rightarrow> bool)
      \<Rightarrow> (string \<Rightarrow> parsed_url \<Rightarrow> (unit, string) result) \<Rightarrow> io \<Rightarrow> path \<Rightarrow> path \<Rightarrow> string \<Rightarrow> string option \<Rightarrow> disk
      \<Rightarrow> (('k, 'r, 'a) remote_owner_auth, string) result \<times> disk" where
  "open_remote_auth ax url_parse loopback_address build_webauthn io auth_path pairing_path origin configured_rp_id d =
     (case parse_origin url_parse loopback_address origin of
        Err error \<Rightarrow> (Err error, d)
      | Ok parsed_origin \<Rightarrow>
     (let configured = Option.bind configured_rp_id (\<lambda>v. if str_trim v = [] then None else Some (str_trim v)) in
      case (case configured of Some v \<Rightarrow> Some v | None \<Rightarrow> pu_host parsed_origin) of
        None \<Rightarrow> (Err ''HOST_REMOTE_ORIGIN must contain a host'', d)
      | Some rp_id \<Rightarrow>
     (case load_json_document io (ax_parse_document ax) auth_path ''remote owner authentication store'' d of
        (Err error, d1) \<Rightarrow> (Err error, d1)
      | (Ok document, d1) \<Rightarrow>
     (case (case document of
              Some doc \<Rightarrow> validate_document ax doc rp_id (pu_origin parsed_origin)
            | None \<Rightarrow> Ok ()) of
        Err error \<Rightarrow> (Err error, d1)
      | Ok _ \<Rightarrow>
     (case build_webauthn rp_id parsed_origin of
        Err error \<Rightarrow> (Err error, d1)
      | Ok _ \<Rightarrow>
          (Ok \<lparr>ra_rp_id = rp_id, ra_origin = pu_origin parsed_origin, ra_auth_path = auth_path,
               ra_pairing_path = pairing_path, ra_document = document, ra_registrations = bt_empty,
               ra_authentications = bt_empty, ra_sessions = bt_empty,
               ra_secure_cookie = (pu_scheme parsed_origin = ''https'')\<rparr>, d1))))))"

definition is_paired :: "('k, 'r, 'a) remote_owner_auth \<Rightarrow> bool" where
  "is_paired auth = (case ra_document auth of Some document \<Rightarrow> od_credentials document \<noteq> [] | None \<Rightarrow> False)"

section \<open>Sessions\<close>

definition session_live :: "datetime \<Rightarrow> owner_session \<Rightarrow> bool" where
  "session_live now session =
     (os_last_seen_at session + session_idle > now \<and> os_created_at session + session_absolute > now)"

definition prune :: "datetime \<Rightarrow> ('k, 'r, 'a) remote_owner_auth \<Rightarrow> ('k, 'r, 'a) remote_owner_auth" where
  "prune now auth = auth\<lparr>
     ra_registrations := bt_retain (\<lambda>_ ceremony. rc_expires_at ceremony > now) (ra_registrations auth),
     ra_authentications := bt_retain (\<lambda>_ ceremony. ac_expires_at ceremony > now) (ra_authentications auth),
     ra_sessions := bt_retain (\<lambda>_ session. session_live now session) (ra_sessions auth)\<rparr>"

text \<open>\<open>Iterator::min_by_key\<close> keeps the first of several minima.\<close>

fun min_by_last_seen :: "(string \<times> owner_session) list \<Rightarrow> string option" where
  "min_by_last_seen [] = None"
| "min_by_last_seen [(hash, _)] = Some hash"
| "min_by_last_seen ((hash, session) # (hash', session') # rest) =
     (if os_last_seen_at session \<le> os_last_seen_at session' then min_by_last_seen ((hash, session) # rest)
      else min_by_last_seen ((hash', session') # rest))"

definition issue_session ::
    "('k, 'r, 'a, 'c, 'v) auth_externals \<Rightarrow> auth_env \<Rightarrow> ('k, 'r, 'a) remote_owner_auth
      \<Rightarrow> string \<times> ('k, 'r, 'a) remote_owner_auth" where
  "issue_session ax env auth =
     (let auth = prune (ae_now env) auth;
          sessions = ra_sessions auth;
          sessions =
            (if table_size sessions \<ge> max_sessions then
               (case min_by_last_seen (ae_order env (bt_entries sessions)) of
                  Some oldest \<Rightarrow> bt_remove oldest sessions
                | None \<Rightarrow> sessions)
             else sessions);
          token = ae_token env
      in (token, auth\<lparr>ra_sessions := bt_insert (token_hash ax token)
            \<lparr>os_created_at = ae_now env, os_last_seen_at = ae_now env\<rparr> sessions\<rparr>))"

definition authenticate_session_until ::
    "('k, 'r, 'a, 'c, 'v) auth_externals \<Rightarrow> string \<Rightarrow> datetime \<Rightarrow> ('k, 'r, 'a) remote_owner_auth
      \<Rightarrow> datetime option \<times> ('k, 'r, 'a) remote_owner_auth" where
  "authenticate_session_until ax token now auth =
     (let auth = prune now auth in
      case bt_get (ra_sessions auth) (token_hash ax token) of
        None \<Rightarrow> (None, auth)
      | Some session \<Rightarrow>
          (Some (os_created_at session + session_absolute),
           auth\<lparr>ra_sessions := bt_insert (token_hash ax token) (session\<lparr>os_last_seen_at := now\<rparr>) (ra_sessions auth)\<rparr>))"

definition authenticate_cookie_until ::
    "('k, 'r, 'a, 'c, 'v) auth_externals \<Rightarrow> auth_env \<Rightarrow> string option \<Rightarrow> ('k, 'r, 'a) remote_owner_auth
      \<Rightarrow> datetime option \<times> ('k, 'r, 'a) remote_owner_auth" where
  "authenticate_cookie_until ax env cookie_header auth =
     (case session_token cookie_header of
        None \<Rightarrow> (None, auth)
      | Some token \<Rightarrow> authenticate_session_until ax token (ae_now env) auth)"

definition authenticate_cookie ::
    "('k, 'r, 'a, 'c, 'v) auth_externals \<Rightarrow> auth_env \<Rightarrow> string option \<Rightarrow> ('k, 'r, 'a) remote_owner_auth
      \<Rightarrow> bool \<times> ('k, 'r, 'a) remote_owner_auth" where
  "authenticate_cookie ax env cookie_header auth =
     (let (until, auth') = authenticate_cookie_until ax env cookie_header auth in (until \<noteq> None, auth'))"

definition logout_cookie ::
    "('k, 'r, 'a, 'c, 'v) auth_externals \<Rightarrow> string option \<Rightarrow> ('k, 'r, 'a) remote_owner_auth
      \<Rightarrow> ('k, 'r, 'a) remote_owner_auth" where
  "logout_cookie ax cookie_header auth =
     (case session_token cookie_header of
        None \<Rightarrow> auth
      | Some token \<Rightarrow> auth\<lparr>ra_sessions := bt_remove (token_hash ax token) (ra_sessions auth)\<rparr>)"

definition session_cookie :: "('k, 'r, 'a) remote_owner_auth \<Rightarrow> string \<Rightarrow> string" where
  "session_cookie auth token =
     session_cookie_name @ ''='' @ token @ ''; Path=/api; HttpOnly; SameSite=Strict; Max-Age=43200'' @
     (if ra_secure_cookie auth then ''; Secure'' else [])"

definition clear_session_cookie :: "('k, 'r, 'a) remote_owner_auth \<Rightarrow> string" where
  "clear_session_cookie auth =
     session_cookie_name @ ''=; Path=/api; HttpOnly; SameSite=Strict; Max-Age=0'' @
     (if ra_secure_cookie auth then ''; Secure'' else [])"

section \<open>Pairing\<close>

definition pairing_label :: string where
  "pairing_label = ''remote owner pairing code''"

definition create_pairing_code_at ::
    "('k, 'r, 'a, 'c, 'v) auth_externals \<Rightarrow> auth_env \<Rightarrow> path \<Rightarrow> disk \<Rightarrow> (string, string) result \<times> disk" where
  "create_pairing_code_at ax env p d =
     (let code = ae_token env;
          document = \<lparr>pd_format_version = pairing_format_version, pd_code_sha256 = token_hash ax code,
            pd_expires_at = ae_now env + pairing_lifetime\<rparr>
      in case persist_json_document (ae_io env) p pairing_label (ax_pairing_json ax document) d of
           (Err error, d') \<Rightarrow> (Err (into_message error), d')
         | (Ok _, d') \<Rightarrow> (Ok code, d'))"

definition pairing_refused :: auth_failure where
  "pairing_refused = AuthFailure 401 ''pairing code is invalid or expired''"

definition consume_pairing_code ::
    "('k, 'r, 'a, 'c, 'v) auth_externals \<Rightarrow> auth_env \<Rightarrow> path \<Rightarrow> string \<Rightarrow> disk \<Rightarrow> (unit, auth_failure) result \<times> disk" where
  "consume_pairing_code ax env pairing_path supplied_code d =
     (if length supplied_code > 256 then (Err pairing_refused, d)
      else case load_json_document (ae_io env) (ax_parse_pairing ax) pairing_path pairing_label d of
        (Err error, d1) \<Rightarrow> (Err (AuthFailure 500 error), d1)
      | (Ok None, d1) \<Rightarrow> (Err pairing_refused, d1)
      | (Ok (Some document), d1) \<Rightarrow>
          if pd_format_version document \<noteq> pairing_format_version \<or> pd_expires_at document \<le> ae_now env \<or>
             \<not> constant_time_equal (pd_code_sha256 document) (token_hash ax supplied_code) then
            (Err pairing_refused,
             if pd_expires_at document \<le> ae_now env then snd (remove_file (ae_io env) pairing_path d1) else d1)
          else (case remove_file (ae_io env) pairing_path d1 of
              (Ok _, d2) \<Rightarrow> (Ok (), d2)
            | (Err error, d2) \<Rightarrow>
                (Err (AuthFailure 500 (''consume remote owner pairing code failed: '' @ io_text error)), d2)))"

section \<open>Ceremonies\<close>

definition start_registration ::
    "('k, 'r, 'a, 'c, 'v) auth_externals \<Rightarrow> auth_env \<Rightarrow> string \<Rightarrow> ('k, 'r, 'a) remote_owner_auth \<Rightarrow> disk
      \<Rightarrow> (string \<times> json, auth_failure) result \<times> ('k, 'r, 'a) remote_owner_auth \<times> disk" where
  "start_registration ax env pairing_code auth d =
     (let now = ae_now env; auth = prune now auth in
      if table_size (ra_registrations auth) \<ge> max_pending_ceremonies then
        (Err (AuthFailure 429 ''too many passkey registrations are pending''), auth, d)
      else if (case ra_document auth of
            Some document \<Rightarrow> length (od_credentials document) \<ge> max_credentials
          | None \<Rightarrow> False) then
        (Err (AuthFailure 409 ''the maximum number of owner passkeys is already registered''), auth, d)
      else case consume_pairing_code ax env (ra_pairing_path auth) pairing_code d of
        (Err failure, d1) \<Rightarrow> (Err failure, auth, d1)
      | (Ok _, d1) \<Rightarrow>
     (let owner_user_id = (case ra_document auth of
              Some document \<Rightarrow> od_owner_user_id document | None \<Rightarrow> ae_owner_uuid env);
          excluded = map_option (\<lambda>document. map (ax_cred_id ax) (od_credentials document)) (ra_document auth)
      in case ax_start_registration ax owner_user_id excluded of
        Err _ \<Rightarrow> (Err (AuthFailure 500 ''could not start passkey registration''), auth, d1)
      | Ok (options, state) \<Rightarrow>
          (Ok (ae_ceremony_uuid env, options),
           auth\<lparr>ra_registrations := bt_insert (ae_ceremony_uuid env)
             \<lparr>rc_expires_at = now + ceremony_lifetime, rc_owner_user_id = owner_user_id, rc_state = state\<rparr>
             (ra_registrations auth)\<rparr>, d1)))"

text \<open>Both ceremonies end by writing a candidate document; memory takes it over unless it surely was not written.\<close>

definition adopt_document ::
    "('k, 'r, 'a, 'c, 'v) auth_externals \<Rightarrow> auth_env \<Rightarrow> 'k owner_auth_document \<Rightarrow> ('k, 'r, 'a) remote_owner_auth \<Rightarrow> disk
      \<Rightarrow> (unit, auth_failure) result \<times> ('k, 'r, 'a) remote_owner_auth \<times> disk" where
  "adopt_document ax env candidate auth d =
     (case persist_json_document (ae_io env) (ra_auth_path auth) ''remote owner authentication store''
         (ax_document_json ax candidate) d of
        (Ok _, d') \<Rightarrow> (Ok (), auth\<lparr>ra_document := Some candidate\<rparr>, d')
      | (Err error, d') \<Rightarrow>
          (Err (AuthFailure 500 (into_message error)),
           if is_indeterminate error then auth\<lparr>ra_document := Some candidate\<rparr> else auth, d'))"

definition finish_registration ::
    "('k, 'r, 'a, 'c, 'v) auth_externals \<Rightarrow> auth_env \<Rightarrow> string \<Rightarrow> 'c \<Rightarrow> ('k, 'r, 'a) remote_owner_auth \<Rightarrow> disk
      \<Rightarrow> (string, auth_failure) result \<times> ('k, 'r, 'a) remote_owner_auth \<times> disk" where
  "finish_registration ax env ceremony_id credential auth d =
     (let auth = prune (ae_now env) auth in
      case bt_get (ra_registrations auth) ceremony_id of
        None \<Rightarrow> (Err (AuthFailure 401 ''registration ceremony is invalid or expired''), auth, d)
      | Some ceremony \<Rightarrow>
     (let auth = auth\<lparr>ra_registrations := bt_remove ceremony_id (ra_registrations auth)\<rparr> in
      case ax_finish_registration ax credential (rc_state ceremony) of
        Err _ \<Rightarrow> (Err (AuthFailure 401 ''passkey registration failed''), auth, d)
      | Ok passkey \<Rightarrow>
     (let candidate = (case ra_document auth of
            Some document \<Rightarrow> document
          | None \<Rightarrow> \<lparr>od_format_version = auth_format_version, od_rp_id = ra_rp_id auth, od_origin = ra_origin auth,
              od_owner_user_id = rc_owner_user_id ceremony, od_credentials = []\<rparr>) in
      if od_owner_user_id candidate \<noteq> rc_owner_user_id ceremony then
        (Err (AuthFailure 401 ''registration ceremony does not match the owner''), auth, d)
      else if list_ex (\<lambda>existing. ax_cred_id ax existing = ax_cred_id ax passkey) (od_credentials candidate) then
        (Err (AuthFailure 409 ''passkey is already registered''), auth, d)
      else if length (od_credentials candidate) \<ge> max_credentials then
        (Err (AuthFailure 409 ''the maximum number of owner passkeys is already registered''), auth, d)
      else case adopt_document ax env (candidate\<lparr>od_credentials := od_credentials candidate @ [passkey]\<rparr>) auth d of
        (Err failure, auth, d) \<Rightarrow> (Err failure, auth, d)
      | (Ok _, auth, d) \<Rightarrow> (let (token, auth) = issue_session ax env auth in (Ok token, auth, d)))))"

definition start_authentication ::
    "('k, 'r, 'a, 'c, 'v) auth_externals \<Rightarrow> auth_env \<Rightarrow> ('k, 'r, 'a) remote_owner_auth
      \<Rightarrow> (string \<times> json, auth_failure) result \<times> ('k, 'r, 'a) remote_owner_auth" where
  "start_authentication ax env auth =
     (let now = ae_now env; auth = prune now auth;
          unpaired = (Err (AuthFailure 409 ''no owner passkey is registered; create a pairing code on the host''), auth) in
      if table_size (ra_authentications auth) \<ge> max_pending_ceremonies then
        (Err (AuthFailure 429 ''too many passkey sign-ins are pending''), auth)
      else case ra_document auth of
        None \<Rightarrow> unpaired
      | Some document \<Rightarrow>
          if od_credentials document = [] then unpaired
          else case ax_start_authentication ax (od_credentials document) of
            Err _ \<Rightarrow> (Err (AuthFailure 500 ''could not start passkey sign-in''), auth)
          | Ok (options, state) \<Rightarrow>
              (Ok (ae_ceremony_uuid env, options),
               auth\<lparr>ra_authentications := bt_insert (ae_ceremony_uuid env)
                 \<lparr>ac_expires_at = now + ceremony_lifetime, ac_state = state\<rparr> (ra_authentications auth)\<rparr>))"

text \<open>\<open>iter_mut().find_map(update_credential)\<close>: stops at the passkey the sign-in belongs to.\<close>

fun update_first :: "('k \<Rightarrow> bool option \<times> 'k) \<Rightarrow> 'k list \<Rightarrow> bool option \<times> 'k list" where
  "update_first update [] = (None, [])"
| "update_first update (credential # credentials) =
     (case update credential of
        (Some updated, credential') \<Rightarrow> (Some updated, credential' # credentials)
      | (None, credential') \<Rightarrow>
          (let (matched, rest) = update_first update credentials in (matched, credential' # rest)))"

definition finish_authentication ::
    "('k, 'r, 'a, 'c, 'v) auth_externals \<Rightarrow> auth_env \<Rightarrow> string \<Rightarrow> 'c \<Rightarrow> ('k, 'r, 'a) remote_owner_auth \<Rightarrow> disk
      \<Rightarrow> (string, auth_failure) result \<times> ('k, 'r, 'a) remote_owner_auth \<times> disk" where
  "finish_authentication ax env ceremony_id credential auth d =
     (let auth = prune (ae_now env) auth in
      case bt_get (ra_authentications auth) ceremony_id of
        None \<Rightarrow> (Err (AuthFailure 401 ''sign-in ceremony is invalid or expired''), auth, d)
      | Some ceremony \<Rightarrow>
     (let auth = auth\<lparr>ra_authentications := bt_remove ceremony_id (ra_authentications auth)\<rparr> in
      case ax_finish_authentication ax credential (ac_state ceremony) of
        Err _ \<Rightarrow> (Err (AuthFailure 401 ''passkey sign-in failed''), auth, d)
      | Ok verified \<Rightarrow>
          if \<not> ax_user_verified ax verified then
            (Err (AuthFailure 401 ''passkey sign-in did not verify the owner''), auth, d)
          else case ra_document auth of
            None \<Rightarrow> (Err (AuthFailure 401 ''owner passkey is not registered''), auth, d)
          | Some document \<Rightarrow>
     (let (matched, credentials) = update_first (ax_update_credential ax verified) (od_credentials document) in
      case matched of
        None \<Rightarrow> (Err (AuthFailure 401 ''owner passkey is not registered''), auth, d)
      | Some updated \<Rightarrow>
     (case (if updated then adopt_document ax env (document\<lparr>od_credentials := credentials\<rparr>) auth d
            else (Ok (), auth, d)) of
        (Err failure, auth, d) \<Rightarrow> (Err failure, auth, d)
      | (Ok _, auth, d) \<Rightarrow> (let (token, auth) = issue_session ax env auth in (Ok token, auth, d))))))"

section \<open>The comparison of hashes\<close>

lemma of_char_word_inj: "of_char c = (of_char c' :: 8 word) \<Longrightarrow> c = c'"
proof -
  assume "of_char c = (of_char c' :: 8 word)"
  then have "(of_nat (of_char c) :: 8 word) = of_nat (of_char c')" by (simp only: of_nat_of_char)
  then have "unat (of_nat (of_char c) :: 8 word) = unat (of_nat (of_char c') :: 8 word)" by (rule arg_cong)
  moreover have "unat (of_nat (of_char x) :: 8 word) = of_char x" for x
    using nat_of_char_less_256[of x] by (simp add: unat_of_nat del: of_nat_of_char)
  ultimately have "(of_char c :: nat) = of_char c'" by metis
  then show ?thesis by simp
qed

lemma xor_zero_iff: "a XOR b = 0 \<longleftrightarrow> a = b" for a b :: "8 word"
  by (metis xor.assoc xor.left_neutral xor_self_eq)

lemma foldl_difference_zero:
  "foldl (\<lambda>difference (l, r). difference OR (of_char l XOR of_char r)) (acc :: 8 word) pairs = 0 \<longleftrightarrow>
     acc = 0 \<and> (\<forall>(l, r)\<in>set pairs. l = r)"
proof (induction pairs arbitrary: acc)
  case (Cons p pairs)
  obtain l r where p: "p = (l, r)" by (cases p)
  have "acc OR (of_char l XOR of_char r) = 0 \<longleftrightarrow> acc = 0 \<and> l = r"
    using of_char_word_inj[of l r] by (auto simp: or_eq_0_iff xor_zero_iff)
  with Cons p show ?case by auto
qed simp

lemma constant_time_equal_iff: "length left = length right \<Longrightarrow> constant_time_equal left right \<longleftrightarrow> left = right"
  unfolding constant_time_equal_def foldl_difference_zero
  by (simp add: list_eq_iff_nth_eq all_set_conv_all_nth)

section \<open>Pairing codes admit once\<close>

lemma consume_Ok:
  assumes "consume_pairing_code ax env p code d = (Ok u, d')"
  obtains raw document where "file_at p d = Some raw" "ax_parse_pairing ax raw = Ok document"
    "pd_format_version document = pairing_format_version" "ae_now env < pd_expires_at document"
    "constant_time_equal (pd_code_sha256 document) (token_hash ax code)" "file_at p d' = None"
proof -
  obtain content d1 where load: "load_json_document (ae_io env) (ax_parse_pairing ax) p pairing_label d = (content, d1)"
    by force
  obtain document where content: "content = Ok (Some document)"
    using assms load by (auto simp: consume_pairing_code_def split: result.splits option.splits if_splits)
  then have checks: "pd_format_version document = pairing_format_version" "ae_now env < pd_expires_at document"
      "constant_time_equal (pd_code_sha256 document) (token_hash ax code)"
      "remove_file (ae_io env) p d1 = (Ok (), d')"
    using assms load by (auto simp: consume_pairing_code_def split: if_splits prod.splits result.splits)
  from load_outcome[OF load[unfolded content]] obtain raw where "file_at p d = Some raw" "ax_parse_pairing ax raw = Ok document"
    by auto
  then show thesis using that checks remove_file_gone[OF checks(4)] by blast
qed

lemma consume_without_code:
  assumes "file_at p d = None"
  shows "fst (consume_pairing_code ax env p code d) \<noteq> Ok u"
proof
  assume "fst (consume_pairing_code ax env p code d) = Ok u"
  then obtain d' where "consume_pairing_code ax env p code d = (Ok u, d')"
    by (cases "consume_pairing_code ax env p code d") auto
  then show False by (rule consume_Ok) (use assms in auto)
qed

lemma prune_paths [simp]:
  "ra_pairing_path (prune now auth) = ra_pairing_path auth" "ra_auth_path (prune now auth) = ra_auth_path auth"
  "ra_document (prune now auth) = ra_document auth"
  by (simp_all add: prune_def)

lemma start_registration_Ok:
  assumes "start_registration ax env code auth d = (Ok started, auth', d')"
  shows "consume_pairing_code ax env (ra_pairing_path auth) code d = (Ok (), d')"
    and "fst started = ae_ceremony_uuid env"
    and "\<exists>ceremony. bt_get (ra_registrations auth') (fst started) = Some ceremony \<and>
      rc_expires_at ceremony = ae_now env + ceremony_lifetime"
  using assms
  by (auto simp: start_registration_def Let_def bt_get_insert split: if_splits prod.splits result.splits option.splits)

section \<open>Sessions come from ceremonies\<close>

text \<open>What the outside sees of a session: it was handed out, accepted or ended.\<close>

datatype session_event = SessionIssued string | SessionAccepted string | SessionEnded string | SessionUntouched

type_synonym ('k, 'r, 'a) auth_world = "('k, 'r, 'a) remote_owner_auth \<times> disk"

text \<open>The iteration over a \<open>HashMap\<close> yields its entries, in some order.\<close>

definition yields_all :: "auth_env \<Rightarrow> bool" where
  "yields_all env \<longleftrightarrow> (\<forall>entries. set (ae_order env entries) = set entries)"

inductive auth_step ::
    "('k, 'r, 'a, 'c, 'v) auth_externals \<Rightarrow> ('k, 'r, 'a) auth_world \<Rightarrow> datetime \<times> session_event
      \<Rightarrow> ('k, 'r, 'a) auth_world \<Rightarrow> bool"
  for ax where
  pair: "create_pairing_code_at ax env (ra_pairing_path auth) d = (r, d') \<Longrightarrow>
    auth_step ax (auth, d) (ae_now env, SessionUntouched) (auth, d')"
| begin_registration: "start_registration ax env code auth d = (r, auth', d') \<Longrightarrow>
    auth_step ax (auth, d) (ae_now env, SessionUntouched) (auth', d')"
| registered: "finish_registration ax env ceremony_id credential auth d = (r, auth', d') \<Longrightarrow> yields_all env \<Longrightarrow>
    event = (case r of Ok token \<Rightarrow> SessionIssued (token_hash ax token) | Err _ \<Rightarrow> SessionUntouched) \<Longrightarrow>
    auth_step ax (auth, d) (ae_now env, event) (auth', d')"
| begin_sign_in: "start_authentication ax env auth = (r, auth') \<Longrightarrow>
    auth_step ax (auth, d) (ae_now env, SessionUntouched) (auth', d)"
| signed_in: "finish_authentication ax env ceremony_id credential auth d = (r, auth', d') \<Longrightarrow> yields_all env \<Longrightarrow>
    event = (case r of Ok token \<Rightarrow> SessionIssued (token_hash ax token) | Err _ \<Rightarrow> SessionUntouched) \<Longrightarrow>
    auth_step ax (auth, d) (ae_now env, event) (auth', d')"
| visit: "authenticate_cookie_until ax env header auth = (until, auth') \<Longrightarrow>
    event = (case (until, session_token header) of
        (Some _, Some token) \<Rightarrow> SessionAccepted (token_hash ax token) | _ \<Rightarrow> SessionUntouched) \<Longrightarrow>
    auth_step ax (auth, d) (ae_now env, event) (auth', d)"
| leave: "event = (case session_token header of
        Some token \<Rightarrow> SessionEnded (token_hash ax token) | None \<Rightarrow> SessionUntouched) \<Longrightarrow>
    auth_step ax (auth, d) (now, event) (logout_cookie ax header auth, d)"

text \<open>A history is a list of events, the latest first.\<close>

inductive auth_history ::
    "('k, 'r, 'a, 'c, 'v) auth_externals \<Rightarrow> (datetime \<times> session_event) list \<Rightarrow> ('k, 'r, 'a) auth_world \<Rightarrow> bool"
  for ax where
  opened: "open_remote_auth ax url_parse loopback_address build_webauthn io auth_path pairing_path origin rp_id d0 = (Ok auth, d) \<Longrightarrow>
    auth_history ax [] (auth, d)"
| stepped: "auth_history ax history w \<Longrightarrow> auth_step ax w event w' \<Longrightarrow> auth_history ax (event # history) w'"

definition backed_session :: "(datetime \<times> session_event) list \<Rightarrow> string \<Rightarrow> owner_session \<Rightarrow> bool" where
  "backed_session history hash session \<longleftrightarrow>
     (\<exists>newer older. history = newer @ (os_created_at session, SessionIssued hash) # older \<and>
        SessionEnded hash \<notin> snd ` set newer \<and>
        (os_last_seen_at session = os_created_at session \<or> (os_last_seen_at session, SessionAccepted hash) \<in> set newer))"

lemma backed_stays:
  assumes "backed_session history hash session" "event \<noteq> SessionEnded hash"
  shows "backed_session ((now, event) # history) hash session"
proof -
  obtain newer older where *: "history = newer @ (os_created_at session, SessionIssued hash) # older"
      "SessionEnded hash \<notin> snd ` set newer"
      "os_last_seen_at session = os_created_at session \<or> (os_last_seen_at session, SessionAccepted hash) \<in> set newer"
    using assms(1) by (auto simp: backed_session_def)
  then show ?thesis
    using assms(2) unfolding backed_session_def
    by (intro exI[of _ "(now, event) # newer"] exI[of _ older]) auto
qed

lemma backed_issued:
  "backed_session ((now, SessionIssued hash) # history) hash \<lparr>os_created_at = now, os_last_seen_at = now\<rparr>"
  unfolding backed_session_def by (intro exI[of _ "[]"] exI[of _ history]) simp

lemma backed_accepted:
  assumes "backed_session history hash session"
  shows "backed_session ((now, SessionAccepted hash) # history) hash (session\<lparr>os_last_seen_at := now\<rparr>)"
proof -
  obtain newer older where *: "history = newer @ (os_created_at session, SessionIssued hash) # older"
      "SessionEnded hash \<notin> snd ` set newer"
    using assms by (auto simp: backed_session_def)
  then show ?thesis
    unfolding backed_session_def
    by (intro exI[of _ "(now, SessionAccepted hash) # newer"] exI[of _ older]) auto
qed

text \<open>What one step may do to the session filed under a hash.\<close>

definition session_stays :: "('k, 'r, 'a) remote_owner_auth \<Rightarrow> ('k, 'r, 'a) remote_owner_auth \<Rightarrow> bool" where
  "session_stays auth auth' \<longleftrightarrow>
     (\<forall>hash session. bt_get (ra_sessions auth') hash = Some session \<longrightarrow> bt_get (ra_sessions auth) hash = Some session)"

lemma session_stays_refl [simp]: "session_stays auth auth"
  by (simp add: session_stays_def)

lemma session_stays_trans: "session_stays a b \<Longrightarrow> session_stays b c \<Longrightarrow> session_stays a c"
  by (simp add: session_stays_def)

lemma session_stays_prune [simp]: "session_stays auth (prune now auth)"
  by (simp add: session_stays_def prune_def)

lemma adopt_sessions:
  "adopt_document ax env candidate auth d = (r, auth', d') \<Longrightarrow>
     ra_sessions auth' = ra_sessions auth \<and> ra_registrations auth' = ra_registrations auth \<and>
     ra_authentications auth' = ra_authentications auth \<and> ra_document auth' \<in> {ra_document auth, Some candidate}"
  by (auto simp: adopt_document_def split: prod.splits result.splits if_splits)

lemma start_registration_sessions:
  "start_registration ax env code auth d = (r, auth', d') \<Longrightarrow> session_stays auth auth'"
  by (auto simp: start_registration_def Let_def session_stays_def prune_def
      split: prod.splits result.splits if_splits)

lemma start_authentication_sessions:
  "start_authentication ax env auth = (r, auth') \<Longrightarrow> session_stays auth auth'"
  by (auto simp: start_authentication_def Let_def session_stays_def prune_def
      split: prod.splits result.splits if_splits option.splits)

definition session_issued ::
    "string \<Rightarrow> datetime \<Rightarrow> ('k, 'r, 'a) remote_owner_auth \<Rightarrow> ('k, 'r, 'a) remote_owner_auth \<Rightarrow> bool" where
  "session_issued hash now auth auth' \<longleftrightarrow>
     (\<forall>h session. bt_get (ra_sessions auth') h = Some session \<longrightarrow>
        h = hash \<and> session = \<lparr>os_created_at = now, os_last_seen_at = now\<rparr> \<or>
        bt_get (ra_sessions auth) h = Some session)"

lemma session_issued_after: "session_stays a b \<Longrightarrow> session_issued hash now b c \<Longrightarrow> session_issued hash now a c"
  by (auto simp: session_stays_def session_issued_def)

lemma issue_session_issued:
  assumes "issue_session ax env auth = (token, auth')"
  shows "session_issued (token_hash ax token) (ae_now env) auth auth'"
  using assms
  by (auto simp: issue_session_def Let_def session_issued_def prune_def bt_get_insert bt_get_remove
      split: if_splits option.splits)

text \<open>Passkeys stay few and different.\<close>

definition credentials_ok :: "('k, 'r, 'a, 'c, 'v) auth_externals \<Rightarrow> 'k owner_auth_document option \<Rightarrow> bool" where
  "credentials_ok ax document \<longleftrightarrow> (\<forall>doc. document = Some doc \<longrightarrow>
     length (od_credentials doc) \<le> max_credentials \<and> distinct (map (ax_cred_id ax) (od_credentials doc)))"

text \<open>
  Both ceremonies end in one of three ways: refused with nothing but expired entries and the
  ceremony gone, failed while writing the candidate, or with the candidate adopted and a session issued.
\<close>

inductive ceremony_ends ::
    "('k, 'r, 'a, 'c, 'v) auth_externals \<Rightarrow> auth_env \<Rightarrow> ('k, 'r, 'a) remote_owner_auth
      \<Rightarrow> (string, auth_failure) result \<Rightarrow> ('k, 'r, 'a) remote_owner_auth \<Rightarrow> bool"
  for ax env auth where
  refused: "ra_sessions auth' = ra_sessions (prune (ae_now env) auth) \<Longrightarrow>
    table_size (ra_registrations auth') \<le> table_size (ra_registrations auth) \<Longrightarrow>
    table_size (ra_authentications auth') \<le> table_size (ra_authentications auth) \<Longrightarrow>
    (credentials_ok ax (ra_document auth) \<Longrightarrow> credentials_ok ax (ra_document auth')) \<Longrightarrow>
    ceremony_ends ax env auth (Err failure) auth'"
| admitted: "ceremony_ends ax env auth (Err failure) auth1 \<Longrightarrow> issue_session ax env auth1 = (token, auth') \<Longrightarrow>
    ceremony_ends ax env auth (Ok token) auth'"

lemma ceremony_adopts:
  assumes "ra_sessions auth1 = ra_sessions (prune (ae_now env) auth)"
    "table_size (ra_registrations auth1) \<le> table_size (ra_registrations auth)"
    "table_size (ra_authentications auth1) \<le> table_size (ra_authentications auth)" "ra_document auth1 = ra_document auth"
    "credentials_ok ax (ra_document auth) \<Longrightarrow> credentials_ok ax (Some candidate)"
    "adopt_document ax env candidate auth1 d = (r, auth', d')"
  shows "ceremony_ends ax env auth (Err failure) auth'"
  using assms(1-5) adopt_sessions[OF assms(6)] by (intro refused) auto

lemma prune_sizes:
  "table_size (ra_registrations (prune now auth)) \<le> table_size (ra_registrations auth)"
  "table_size (ra_authentications (prune now auth)) \<le> table_size (ra_authentications auth)"
  by (simp_all add: prune_def table_size_retain)

lemma removed_sizes:
  "table_size (bt_remove i (ra_registrations (prune now auth))) \<le> table_size (ra_registrations auth)"
  "table_size (bt_remove i (ra_authentications (prune now auth))) \<le> table_size (ra_authentications auth)"
  using prune_sizes[where now = now and auth = auth] table_size_remove[of i "ra_registrations (prune now auth)"]
    table_size_remove[of i "ra_authentications (prune now auth)"] by linarith+

lemma finish_registration_ends:
  assumes "finish_registration ax env ceremony_id credential auth d = (r, auth', d')"
  shows "ceremony_ends ax env auth r auth'"
proof -
  define auth0 where "auth0 = prune (ae_now env) auth"
  define auth1 where "auth1 = auth0\<lparr>ra_registrations := bt_remove ceremony_id (ra_registrations auth0)\<rparr>"
  have stops: "ceremony_ends ax env auth (Err failure) auth0" "ceremony_ends ax env auth (Err failure) auth1" for failure
    using prune_sizes[where now = "ae_now env" and auth = auth] removed_sizes[where now = "ae_now env" and auth = auth]
    by (auto simp: auth1_def auth0_def intro!: refused)
  have goes: "ceremony_ends ax env auth r auth'"
    if candidate: "candidate = (case ra_document auth0 of Some document \<Rightarrow> document
        | None \<Rightarrow> \<lparr>od_format_version = auth_format_version, od_rp_id = ra_rp_id auth0, od_origin = ra_origin auth0,
            od_owner_user_id = owner, od_credentials = []\<rparr>)"
      and fresh: "\<not> list_ex (\<lambda>existing. ax_cred_id ax existing = ax_cred_id ax passkey) (od_credentials candidate)"
      and room: "\<not> length (od_credentials candidate) \<ge> max_credentials"
      and ending: "(case adopt_document ax env (candidate\<lparr>od_credentials := od_credentials candidate @ [passkey]\<rparr>) auth1 d of
          (Err failure, auth, d) \<Rightarrow> (Err failure, auth, d)
        | (Ok _, auth, d) \<Rightarrow> (let (token, auth) = issue_session ax env auth in (Ok token, auth, d))) = (r, auth', d')"
    for candidate owner passkey
  proof -
    let ?candidate = "candidate\<lparr>od_credentials := od_credentials candidate @ [passkey]\<rparr>"
    obtain r1 auth2 d2 where adopt: "adopt_document ax env ?candidate auth1 d = (r1, auth2, d2)" by (metis prod_cases3)
    have "credentials_ok ax (ra_document auth) \<Longrightarrow> credentials_ok ax (Some ?candidate)"
      using fresh room unfolding candidate
      by (auto simp: credentials_ok_def auth0_def list_ex_iff image_iff split: option.splits)
    then have ends: "ceremony_ends ax env auth (Err failure) auth2" for failure
      using adopt removed_sizes[where now = "ae_now env" and auth = auth] prune_sizes[where now = "ae_now env" and auth = auth]
      by (intro ceremony_adopts[where ?auth1.0 = auth1]) (auto simp: auth1_def auth0_def)
    show ?thesis
      using ending adopt ends admitted[OF ends] by (cases r1) (auto split: prod.splits)
  qed
  show ?thesis
    using assms stops goes unfolding finish_registration_def Let_def auth0_def[symmetric] auth1_def[symmetric]
    by (auto simp: auth1_def split: option.splits result.splits if_splits)
qed

text \<open>\<open>update_credential\<close> changes counters and backup flags of a passkey, never its id.\<close>

definition updates_keep_ids :: "('k, 'r, 'a, 'c, 'v) auth_externals \<Rightarrow> bool" where
  "updates_keep_ids ax \<longleftrightarrow> (\<forall>verified k. ax_cred_id ax (snd (ax_update_credential ax verified k)) = ax_cred_id ax k)"

lemma update_first_ids:
  assumes "\<And>k. f (snd (update k)) = f k" "update_first update ks = (matched, ks')"
  shows "map f ks' = map f ks"
  using assms(2)
proof (induction ks arbitrary: matched ks')
  case (Cons k ks)
  obtain m k' where k: "update k = (m, k')" by force
  have "f k' = f k" using assms(1)[of k] k by simp
  with Cons k show ?case by (auto split: option.splits prod.splits)
qed simp

lemma finish_authentication_ends:
  assumes "finish_authentication ax env ceremony_id credential auth d = (r, auth', d')" "updates_keep_ids ax"
  shows "ceremony_ends ax env auth r auth'"
proof -
  define auth0 where "auth0 = prune (ae_now env) auth"
  define auth1 where "auth1 = auth0\<lparr>ra_authentications := bt_remove ceremony_id (ra_authentications auth0)\<rparr>"
  have stops: "ceremony_ends ax env auth (Err failure) auth0" "ceremony_ends ax env auth (Err failure) auth1" for failure
    using prune_sizes[where now = "ae_now env" and auth = auth] removed_sizes[where now = "ae_now env" and auth = auth]
    by (auto simp: auth1_def auth0_def intro!: refused)
  have goes: "ceremony_ends ax env auth r auth'"
    if document: "ra_document auth0 = Some document"
      and matched: "update_first (ax_update_credential ax verified) (od_credentials document) = (matched, credentials)"
      and ending: "(case (if updated then adopt_document ax env (document\<lparr>od_credentials := credentials\<rparr>) auth1 d
            else (Ok (), auth1, d)) of
          (Err failure, auth, d) \<Rightarrow> (Err failure, auth, d)
        | (Ok _, auth, d) \<Rightarrow> (let (token, auth) = issue_session ax env auth in (Ok token, auth, d))) = (r, auth', d')"
    for document verified matched credentials updated
  proof -
    let ?candidate = "document\<lparr>od_credentials := credentials\<rparr>"
    have ids: "map (ax_cred_id ax) credentials = map (ax_cred_id ax) (od_credentials document)"
      using update_first_ids[OF _ matched, of "ax_cred_id ax"] assms(2) by (simp add: updates_keep_ids_def)
    obtain r1 auth2 d2 where adopt: "adopt_document ax env ?candidate auth1 d = (r1, auth2, d2)" by (metis prod_cases3)
    have "credentials_ok ax (ra_document auth) \<Longrightarrow> credentials_ok ax (Some ?candidate)"
      using document ids map_eq_imp_length_eq[OF ids] by (simp add: credentials_ok_def auth0_def)
    then have ends: "ceremony_ends ax env auth (Err failure) auth2" for failure
      using adopt removed_sizes[where now = "ae_now env" and auth = auth] prune_sizes[where now = "ae_now env" and auth = auth]
      by (intro ceremony_adopts[where ?auth1.0 = auth1]) (auto simp: auth1_def auth0_def)
    show ?thesis
      using ending adopt ends admitted[OF ends] admitted[OF stops(2)]
      by (cases updated; cases r1) (auto split: prod.splits)
  qed
  show ?thesis
    using assms(1) stops goes unfolding finish_authentication_def Let_def auth0_def[symmetric] auth1_def[symmetric]
    by (auto simp: auth1_def split: option.splits result.splits if_splits prod.splits)
qed

lemma ceremony_sessions:
  assumes "ceremony_ends ax env auth r auth'"
  shows "case r of Err _ \<Rightarrow> session_stays auth auth'
    | Ok token \<Rightarrow> session_issued (token_hash ax token) (ae_now env) auth auth'"
  using assms
proof cases
  case (refused failure)
  then show ?thesis using session_stays_prune[of auth "ae_now env"] by (simp add: session_stays_def)
next
  case (admitted failure auth1 token)
  from admitted(2) have "session_stays auth auth1"
    by cases (use session_stays_prune[of auth "ae_now env"] in \<open>simp add: session_stays_def\<close>)
  with issue_session_issued[OF admitted(3)] session_issued_after admitted(1) show ?thesis by fastforce
qed

lemma visit_sessions:
  assumes "authenticate_cookie_until ax env header auth = (until, auth')" "bt_get (ra_sessions auth') h = Some session"
  shows "bt_get (ra_sessions auth) h = Some session \<or>
    (\<exists>token before. until \<noteq> None \<and> session_token header = Some token \<and> h = token_hash ax token \<and>
       bt_get (ra_sessions auth) h = Some before \<and> session = before\<lparr>os_last_seen_at := ae_now env\<rparr>)"
  using assms
  by (auto simp: authenticate_cookie_until_def authenticate_session_until_def Let_def prune_def bt_get_insert
      split: option.splits if_splits)

lemma history_backed:
  assumes "auth_history ax history w" "updates_keep_ids ax" "bt_get (ra_sessions (fst w)) h = Some session"
  shows "backed_session history h session"
  using assms(1,3)
proof (induction history w arbitrary: session rule: auth_history.induct)
  case (opened url_parse loopback_address build_webauthn io auth_path pairing_path origin rp_id d0 auth d)
  then show ?case
    by (auto simp: open_remote_auth_def Let_def split: result.splits option.splits prod.splits)
next
  case (stepped history w event w')
  have stays: "backed_session (event # history) h session"
    if "bt_get (ra_sessions (fst w)) h = Some session" "snd event \<noteq> SessionEnded h"
    using backed_stays[OF stepped.IH[OF that(1)] that(2), of "fst event"] by simp
  from stepped.hyps(2) show ?case
  proof cases
    case (begin_registration env code auth d r auth' d')
    then show ?thesis using start_registration_sessions[OF begin_registration(4)] stepped.prems stays
      by (simp add: session_stays_def)
  next
    case (begin_sign_in env auth r auth' d)
    then show ?thesis using start_authentication_sessions[OF begin_sign_in(4)] stepped.prems stays
      by (simp add: session_stays_def)
  next
    case (registered env i c auth d r auth' d' ev)
    then show ?thesis using ceremony_sessions[OF finish_registration_ends[OF registered(4)]] stepped.prems stays backed_issued
      by (fastforce simp: session_stays_def session_issued_def split: result.splits)
  next
    case (signed_in env i c auth d r auth' d' ev)
    then show ?thesis
      using ceremony_sessions[OF finish_authentication_ends[OF signed_in(4) assms(2)]] stepped.prems stays backed_issued
      by (fastforce simp: session_stays_def session_issued_def split: result.splits)
  next
    case (visit env header auth until auth' ev d)
    have "bt_get (ra_sessions auth') h = Some session" using stepped.prems visit(3) by simp
    from visit_sessions[OF visit(4) this] consider
        "bt_get (ra_sessions auth) h = Some session"
      | token before where "until \<noteq> None" "session_token header = Some token" "h = token_hash ax token"
          "bt_get (ra_sessions auth) h = Some before" "session = before\<lparr>os_last_seen_at := ae_now env\<rparr>" by blast
    then show ?thesis
    proof cases
      case 1
      then show ?thesis using visit stays by (auto split: option.splits)
    next
      case 2
      then show ?thesis using visit backed_accepted[OF stepped.IH[of before]] by (auto split: option.splits)
    qed
  next
    case (leave ev header auth now d)
    then show ?thesis using stepped.prems stays
      by (auto simp: logout_cookie_def bt_get_remove split: option.splits if_splits)
  qed (use stepped.prems stays in auto)
qed

section \<open>Bounded tables\<close>

definition auth_inv :: "('k, 'r, 'a, 'c, 'v) auth_externals \<Rightarrow> ('k, 'r, 'a) remote_owner_auth \<Rightarrow> bool" where
  "auth_inv ax auth \<longleftrightarrow> credentials_ok ax (ra_document auth) \<and>
     table_size (ra_registrations auth) \<le> max_pending_ceremonies \<and>
     table_size (ra_authentications auth) \<le> max_pending_ceremonies \<and>
     table_size (ra_sessions auth) \<le> max_sessions"

lemma has_duplicate_iff: "has_duplicate_credentials ax ks \<longleftrightarrow> \<not> distinct (map (ax_cred_id ax) ks)"
proof -
  have "has_duplicate_credentials ax ks \<longleftrightarrow> (\<exists>j<length ks. \<exists>i<j. ax_cred_id ax (ks ! i) = ax_cred_id ax (ks ! j))"
  proof -
    have "(\<exists>k\<in>set (take j ks). P k) \<longleftrightarrow> (\<exists>i<j. P (ks ! i))" if "j < length ks" for j P
      using that by (force simp: in_set_conv_nth)
    then show ?thesis by (auto simp: has_duplicate_credentials_def list_ex_iff)
  qed
  also have "\<dots> \<longleftrightarrow> \<not> distinct (map (ax_cred_id ax) ks)"
  proof
    assume "\<not> distinct (map (ax_cred_id ax) ks)"
    then obtain i j where ij: "i < length ks" "j < length ks" "i \<noteq> j" "ax_cred_id ax (ks ! i) = ax_cred_id ax (ks ! j)"
      by (auto simp: distinct_conv_nth)
    show "\<exists>j<length ks. \<exists>i<j. ax_cred_id ax (ks ! i) = ax_cred_id ax (ks ! j)"
    proof (cases "i < j")
      case True
      with ij show ?thesis by blast
    next
      case False
      with ij have "j < i" by simp
      with ij show ?thesis by metis
    qed
  qed (force simp: distinct_conv_nth)
  finally show ?thesis .
qed

lemma open_inv:
  assumes "open_remote_auth ax url_parse loopback_address build_webauthn io auth_path pairing_path origin rp_id d = (Ok auth, d')"
  shows "auth_inv ax auth"
proof -
  obtain rp origin' where "\<And>document. ra_document auth = Some document \<Longrightarrow> validate_document ax document rp origin' = Ok ()"
      "ra_registrations auth = bt_empty" "ra_authentications auth = bt_empty" "ra_sessions auth = bt_empty"
    using assms by (fastforce simp: open_remote_auth_def Let_def split: result.splits option.splits prod.splits)
  then show ?thesis
    by (auto simp: auth_inv_def credentials_ok_def validate_document_def has_duplicate_iff split: if_splits)
qed

lemma min_by_last_seen_in: "entries \<noteq> [] \<Longrightarrow> \<exists>session. \<exists>hash. min_by_last_seen entries = Some hash \<and> (hash, session) \<in> set entries"
  by (induction entries rule: min_by_last_seen.induct) auto

lemma issue_session_bounded:
  assumes "issue_session ax env auth = (token, auth')" "yields_all env" "table_size (ra_sessions auth) \<le> max_sessions"
  shows "table_size (ra_sessions auth') \<le> max_sessions" "ra_registrations auth' = ra_registrations (prune (ae_now env) auth)"
    "ra_authentications auth' = ra_authentications (prune (ae_now env) auth)" "ra_document auth' = ra_document auth"
proof -
  define sessions where "sessions = ra_sessions (prune (ae_now env) auth)"
  define kept where "kept = (if table_size sessions \<ge> max_sessions then
      (case min_by_last_seen (ae_order env (bt_entries sessions)) of Some oldest \<Rightarrow> bt_remove oldest sessions | None \<Rightarrow> sessions)
      else sessions)"
  have le: "table_size sessions \<le> max_sessions"
    using assms(3) table_size_retain[of "\<lambda>_. session_live (ae_now env)" "ra_sessions auth"] by (simp add: sessions_def prune_def)
  have "table_size kept < max_sessions"
  proof (cases "table_size sessions \<ge> max_sessions")
    case True
    then have "ae_order env (bt_entries sessions) \<noteq> []"
      using assms(2) by (auto simp: yields_all_def table_size_def max_sessions_def dest: spec[of _ "bt_entries sessions"])
    then obtain hash session where oldest: "min_by_last_seen (ae_order env (bt_entries sessions)) = Some hash"
        "(hash, session) \<in> set (ae_order env (bt_entries sessions))" using min_by_last_seen_in by blast
    then have "(hash, session) \<in> set (bt_entries sessions)" using assms(2) by (simp add: yields_all_def)
    then have "hash \<in> set (bt_keys sessions)" by (force simp: bt_keys_def)
    from table_size_remove_present[OF this] oldest True le show ?thesis by (simp add: kept_def)
  qed (simp add: kept_def)
  moreover have auth': "auth' = (prune (ae_now env) auth)\<lparr>ra_sessions := bt_insert (token_hash ax token)
      \<lparr>os_created_at = ae_now env, os_last_seen_at = ae_now env\<rparr> kept\<rparr>"
    using assms(1) unfolding kept_def sessions_def by (auto simp: issue_session_def Let_def)
  ultimately show "table_size (ra_sessions auth') \<le> max_sessions"
    using table_size_insert[of "token_hash ax token" "\<lparr>os_created_at = ae_now env, os_last_seen_at = ae_now env\<rparr>" kept]
    by simp
  show "ra_registrations auth' = ra_registrations (prune (ae_now env) auth)"
    "ra_authentications auth' = ra_authentications (prune (ae_now env) auth)" "ra_document auth' = ra_document auth"
    by (simp_all add: auth')
qed

lemma prune_inv: "auth_inv ax auth \<Longrightarrow> auth_inv ax (prune now auth)"
  using prune_sizes[of now auth] table_size_retain[of "\<lambda>_. session_live now" "ra_sessions auth"]
  by (auto simp: auth_inv_def) (simp add: prune_def)

lemma refused_inv:
  assumes "ceremony_ends ax env auth (Err failure) auth'" "auth_inv ax auth"
  shows "auth_inv ax auth'"
  using assms(1) prune_inv[OF assms(2), of "ae_now env"] assms(2)
  by cases (auto simp: auth_inv_def)

lemma ceremony_inv:
  assumes "ceremony_ends ax env auth r auth'" "auth_inv ax auth" "yields_all env"
  shows "auth_inv ax auth'"
  using assms(1)
proof cases
  case (refused failure)
  with assms show ?thesis using refused_inv by blast
next
  case (admitted failure auth1 token)
  have "auth_inv ax auth1" using refused_inv[OF admitted(2) assms(2)] .
  with issue_session_bounded[OF admitted(3) assms(3)] prune_inv[of ax auth1 "ae_now env"]
  show ?thesis by (simp add: auth_inv_def)
qed

lemma start_registration_inv:
  assumes "start_registration ax env code auth d = (r, auth', d')" "auth_inv ax auth"
  shows "auth_inv ax auth'"
proof -
  let ?auth0 = "prune (ae_now env) auth"
  have "auth' = ?auth0 \<or> (\<exists>ceremony. table_size (ra_registrations ?auth0) < max_pending_ceremonies \<and>
      auth' = ?auth0\<lparr>ra_registrations := bt_insert (ae_ceremony_uuid env) ceremony (ra_registrations ?auth0)\<rparr>)"
    using assms(1) by (auto simp: start_registration_def Let_def split: if_splits prod.splits result.splits)
  then show ?thesis
    using prune_inv[OF assms(2), of "ae_now env"] by (auto simp: auth_inv_def table_size_insert_below)
qed

lemma start_authentication_inv:
  assumes "start_authentication ax env auth = (r, auth')" "auth_inv ax auth"
  shows "auth_inv ax auth'"
proof -
  let ?auth0 = "prune (ae_now env) auth"
  have "auth' = ?auth0 \<or> (\<exists>ceremony. table_size (ra_authentications ?auth0) < max_pending_ceremonies \<and>
      auth' = ?auth0\<lparr>ra_authentications := bt_insert (ae_ceremony_uuid env) ceremony (ra_authentications ?auth0)\<rparr>)"
    using assms(1) by (auto simp: start_authentication_def Let_def split: if_splits prod.splits result.splits option.splits)
  then show ?thesis
    using prune_inv[OF assms(2), of "ae_now env"] by (auto simp: auth_inv_def table_size_insert_below)
qed

lemma visit_inv:
  assumes "authenticate_cookie_until ax env header auth = (until, auth')" "auth_inv ax auth"
  shows "auth_inv ax auth'"
  using assms prune_inv[OF assms(2), of "ae_now env"]
  by (auto simp: authenticate_cookie_until_def authenticate_session_until_def Let_def auth_inv_def
      table_size_insert_present split: option.splits)

lemma step_inv:
  assumes "auth_step ax w event w'" "auth_inv ax (fst w)" "updates_keep_ids ax"
  shows "auth_inv ax (fst w')"
  using assms(1)
proof cases
  case (registered env i c auth d r auth' d' ev)
  then show ?thesis using ceremony_inv[OF finish_registration_ends[OF registered(4)]] assms(2) by simp
next
  case (signed_in env i c auth d r auth' d' ev)
  then show ?thesis using ceremony_inv[OF finish_authentication_ends[OF signed_in(4) assms(3)]] assms(2) by simp
next
  case (leave ev header auth now d)
  then show ?thesis
    using assms(2) table_size_remove[of _ "ra_sessions auth"]
    by (auto simp: logout_cookie_def auth_inv_def split: option.splits intro: le_trans)
qed (use assms(2) start_registration_inv start_authentication_inv visit_inv in fastforce)+

section \<open>A pairing and a visit\<close>

definition sample_hash :: "string \<Rightarrow> string" where
  "sample_hash s = take 32 (s @ replicate 32 (CHR ''0''))"

definition sample_auth_externals :: "(string, unit, unit, string, string) auth_externals" where
  "sample_auth_externals = \<lparr>ax_cred_id = id, ax_start_registration = (\<lambda>_ _. Ok (JNull, ())),
     ax_finish_registration = (\<lambda>c _. Ok c), ax_start_authentication = (\<lambda>_. Ok (JNull, ())),
     ax_finish_authentication = (\<lambda>c _. Ok c), ax_user_verified = (\<lambda>_. True),
     ax_update_credential = (\<lambda>v k. (if v = k then Some False else None, k)), ax_sha256 = sample_hash,
     ax_document_json = (\<lambda>_. Ok ''doc''), ax_parse_document = (\<lambda>_. Err ''?''), ax_pairing_json = (\<lambda>_. Ok ''pair''),
     ax_parse_pairing = (\<lambda>_. Ok \<lparr>pd_format_version = 1, pd_code_sha256 = sample_hash ''code'', pd_expires_at = 100\<rparr>),
     ax_decimal = (\<lambda>_. ''?'')\<rparr>"

definition sample_auth_env :: "datetime \<Rightarrow> auth_env" where
  "sample_auth_env now = \<lparr>ae_now = now, ae_owner_uuid = ''owner'', ae_ceremony_uuid = ''ceremony'', ae_token = ''token'',
     ae_io = sample_io, ae_order = id\<rparr>"

definition sample_auth :: "(string, unit, unit) remote_owner_auth" where
  "sample_auth = \<lparr>ra_rp_id = ''h'', ra_origin = ''https://h'', ra_auth_path = [''auth''], ra_pairing_path = [''pair''],
     ra_document = None, ra_registrations = bt_empty, ra_authentications = bt_empty, ra_sessions = bt_empty,
     ra_secure_cookie = True\<rparr>"

definition sample_auth_disk :: disk where
  "sample_auth_disk = \<lparr>dk_files = bt_of_list [([''pair''], ''pair'')], dk_dirs = []\<rparr>"

definition sample_origin :: parsed_url where
  "sample_origin = \<lparr>pu_scheme = ''https'', pu_host = Some ''h'', pu_path = ''/'', pu_query = None, pu_fragment = None,
     pu_origin = ''https://h''\<rparr>"

definition sample_started ::
    "(string \<times> json, auth_failure) result \<times> (string, unit, unit) remote_owner_auth \<times> disk" where
  "sample_started = start_registration sample_auth_externals (sample_auth_env 1) ''code'' sample_auth sample_auth_disk"

definition sample_paired ::
    "(string, auth_failure) result \<times> (string, unit, unit) remote_owner_auth \<times> disk" where
  "sample_paired = finish_registration sample_auth_externals (sample_auth_env 2) ''ceremony'' ''key''
     (fst (snd sample_started)) (snd (snd sample_started))"

definition sample_header :: "string option" where
  "sample_header = Some ''a=b; kestral_owner_session=token''"

lemma sample_runs:
  "open_remote_auth sample_auth_externals (\<lambda>_. Ok sample_origin) (\<lambda>_. False) (\<lambda>_ _. Ok ()) sample_io [''auth''] [''pair'']
     ''https://h'' None sample_auth_disk = (Ok sample_auth, sample_auth_disk)"
  "fst sample_started = Ok (''ceremony'', JNull)" "fst sample_paired = Ok ''token''"
  "fst (authenticate_cookie_until sample_auth_externals (sample_auth_env 3) sample_header (fst (snd sample_paired))) =
     Some (2 + session_absolute)"
  by code_simp+

lemma sample_history:
  "auth_history sample_auth_externals [(2, SessionIssued (sample_hash ''token'')), (1, SessionUntouched)]
     (fst (snd sample_paired), snd (snd sample_paired))"
proof -
  let ?ax = sample_auth_externals
  have opened: "auth_history ?ax [] (sample_auth, sample_auth_disk)" using sample_runs(1) by (rule opened)
  define auth1 d1 where parts: "auth1 = fst (snd sample_started)" "d1 = snd (snd sample_started)"
  then have started: "sample_started = (Ok (''ceremony'', JNull), auth1, d1)"
    using sample_runs(2) by (simp add: prod_eq_iff)
  have "auth_step ?ax (sample_auth, sample_auth_disk) (1, SessionUntouched) (auth1, d1)"
    using begin_registration[of ?ax "sample_auth_env 1"] started by (simp add: sample_started_def sample_auth_env_def)
  with opened have history1: "auth_history ?ax [(1, SessionUntouched)] (auth1, d1)" by (rule stepped)
  define auth2 d2 where result: "auth2 = fst (snd sample_paired)" "d2 = snd (snd sample_paired)"
  then have paired: "sample_paired = (Ok ''token'', auth2, d2)"
    using sample_runs(3) by (simp add: prod_eq_iff)
  have finished: "finish_registration ?ax (sample_auth_env 2) ''ceremony'' ''key'' auth1 d1 = (Ok ''token'', auth2, d2)"
    using paired by (simp add: sample_paired_def parts)
  have all: "yields_all (sample_auth_env 2)" by (simp add: yields_all_def sample_auth_env_def)
  have hash: "token_hash ?ax ''token'' = sample_hash ''token''" by (simp add: token_hash_def sample_auth_externals_def)
  have "auth_step ?ax (auth1, d1) (ae_now (sample_auth_env 2), SessionIssued (sample_hash ''token'')) (auth2, d2)"
    by (rule registered[OF finished all]) (simp add: hash)
  then have "auth_step ?ax (auth1, d1) (2, SessionIssued (sample_hash ''token'')) (auth2, d2)"
    by (simp add: sample_auth_env_def)
  with history1 show ?thesis unfolding result by (rule stepped)
qed

lemma sample_updates: "updates_keep_ids sample_auth_externals"
  by (simp add: updates_keep_ids_def sample_auth_externals_def)

text \<open>C31: A session cookie is accepted only if its token was handed out by a completed passkey
  registration or sign-in, was not signed out since, and both ages of it are in bounds: less than
  twelve hours since it was handed out, which is the deadline the caller gets, and less than thirty
  minutes since it was handed out or last accepted. This holds in every history of pairing codes,
  ceremonies, visits and sign-outs after the store was opened, at whatever times they happen.\<close>

theorem accepted_session_was_issued:
  assumes "auth_history ax history (auth, d)" "updates_keep_ids ax"
    and "authenticate_cookie_until ax env header auth = (Some until, auth')"
  shows "\<exists>token newer created older seen. session_token header = Some token \<and>
    history = newer @ (created, SessionIssued (token_hash ax token)) # older \<and>
    SessionEnded (token_hash ax token) \<notin> snd ` set newer \<and>
    until = created + session_absolute \<and> ae_now env < until \<and>
    (seen = created \<or> (seen, SessionAccepted (token_hash ax token)) \<in> set newer) \<and> ae_now env < seen + session_idle"
proof -
  obtain token session where token: "session_token header = Some token"
      "bt_get (ra_sessions auth) (token_hash ax token) = Some session" "session_live (ae_now env) session"
      "until = os_created_at session + session_absolute"
    using assms(3) by (auto simp: authenticate_cookie_until_def authenticate_session_until_def Let_def prune_def
        split: option.splits)
  have "backed_session history (token_hash ax token) session"
    using history_backed[OF assms(1,2)] token(2) by simp
  with token show ?thesis unfolding backed_session_def session_live_def by auto
qed

theorem accepted_session_was_issued_witness:
  "\<exists>token newer created older seen. session_token sample_header = Some token \<and>
    [(2, SessionIssued (sample_hash ''token'')), (1, SessionUntouched)] =
      newer @ (created, SessionIssued (token_hash sample_auth_externals token)) # older \<and>
    2 + session_absolute = created + session_absolute \<and> 3 < created + session_absolute \<and> 3 < seen + session_idle"
proof -
  have "authenticate_cookie_until sample_auth_externals (sample_auth_env 3) sample_header (fst (snd sample_paired)) =
      (Some (2 + session_absolute), snd (authenticate_cookie_until sample_auth_externals (sample_auth_env 3) sample_header
        (fst (snd sample_paired))))"
    using sample_runs(4) by (simp add: prod_eq_iff)
  moreover have "ae_now (sample_auth_env 3) = 3" by (simp add: sample_auth_env_def)
  ultimately obtain token newer created older seen where "session_token sample_header = Some token"
      "[(2, SessionIssued (sample_hash ''token'')), (1, SessionUntouched)] =
        newer @ (created, SessionIssued (token_hash sample_auth_externals token)) # older"
      "2 + session_absolute = created + session_absolute" "3 < 2 + session_absolute" "3 < seen + session_idle"
    using accepted_session_was_issued[OF sample_history sample_updates, of "sample_auth_env 3" sample_header] by metis
  then show ?thesis by metis
qed

text \<open>C33: However often pairing, registration, sign-in and visits are tried, the owner never has more
  than 16 passkeys, all with different credential ids, at most 32 registrations and 32 sign-ins are
  pending, and at most 64 sessions exist: a new session then replaces the one unseen for longest.\<close>

theorem owner_tables_bounded:
  assumes "auth_history ax history (auth, d)" "updates_keep_ids ax"
  shows "(\<forall>document. ra_document auth = Some document \<longrightarrow>
      length (od_credentials document) \<le> 16 \<and> distinct (map (ax_cred_id ax) (od_credentials document))) \<and>
    table_size (ra_registrations auth) \<le> 32 \<and> table_size (ra_authentications auth) \<le> 32 \<and> table_size (ra_sessions auth) \<le> 64"
proof -
  have "auth_inv ax (fst w)" if "auth_history ax history w" for w
    using that by induction (use open_inv step_inv assms(2) in fastforce)+
  from this[OF assms(1)] show ?thesis
    by (auto simp: auth_inv_def credentials_ok_def max_credentials_def max_pending_ceremonies_def max_sessions_def)
qed

theorem owner_tables_bounded_witness:
  "table_size (ra_sessions (fst (snd sample_paired))) \<le> 64"
  using owner_tables_bounded[OF sample_history sample_updates] by simp



end
