(* ===== verification/Publisher_Trust.thy ===== *)
theory Publisher_Trust
  imports Host_Prelude Primitives
begin

text \<open>
  \<open>publisher_trust.rs\<close>: the keys of publishers the user trusts or has revoked, each for one app or a
  namespace of apps, and the verdict on a signed package. Base64, SHA-256 and Ed25519 are
  parameters; the store is a document on the disk of \<open>Host_Files\<close>.
\<close>

definition trust_store_version :: "32 word" where
  "trust_store_version = 1"

datatype trust_scope = TrustAppId app_id | NamespacePrefix string

datatype trust_status = StatusTrusted | StatusKeyRevoked

record trust_record =
  tk_key_id :: string
  tk_public_key :: string
  tk_scope :: trust_scope
  tk_status :: trust_status

datatype signature_state =
    Unsigned
  | ValidUnknownKey string
  | SignatureTrusted string trust_scope
  | SignatureInvalid string
  | SignatureRevoked string trust_scope

record package_signature_document =
  sg_algorithm :: string
  sg_key_id :: string
  sg_public_key :: string
  sg_signature :: string

record trust_store_document =
  td_version :: "32 word"
  td_entries :: "trust_record list"

record publisher_trust_store =
  pt_path :: "path option"
  pt_document :: trust_store_document

record trust_externals =
  tx_base64_decode :: "string \<Rightarrow> (string, string) result"
  tx_sha256_hex :: "string \<Rightarrow> string"
  tx_key_error :: "string \<Rightarrow> string option"
    \<comment> \<open>\<open>VerifyingKey::from_bytes\<close>\<close>
  tx_verify :: "string \<Rightarrow> string \<Rightarrow> string \<Rightarrow> string option"
    \<comment> \<open>\<open>VerifyingKey::verify\<close> of a message and a signature: the error\<close>
  tx_document_json :: "trust_store_document \<Rightarrow> (string, string) result"
  tx_parse_document :: "string \<Rightarrow> (trust_store_document, string) result"
  tx_decimal :: "32 word \<Rightarrow> string"

section \<open>Identifiers and scopes\<close>

definition reserved_host_app_ids :: "string list" where
  "reserved_host_app_ids =
     [''chat'', ''llm-provider'', ''com.ma-zierl.kestral-artifacts'', ''com.ma-zierl.host.file-broker'',
      ''com.ma-zierl.host.permissions'']"

definition id_is_valid :: "string \<Rightarrow> bool" where
  "id_is_valid i =
     (if prefix ''mcp-'' i \<or> CHR ''.'' \<notin> set i \<or> List.member reserved_host_app_ids i then False
      else list_all (\<lambda>c. ascii_lower c \<or> ascii_digit c \<or> c = CHR ''.'' \<or> c = CHR ''-'') i \<and>
        \<not> prefix ''.'' i \<and> \<not> suffix ''.'' i)"

definition validate_scope :: "trust_scope \<Rightarrow> (unit, string) result" where
  "validate_scope scope =
     (case scope of
        TrustAppId v \<Rightarrow> if \<not> id_is_valid v then Err (''invalid app id scope '' @ quoted v) else Ok ()
      | NamespacePrefix v \<Rightarrow> if \<not> id_is_valid v then Err (''invalid namespace prefix scope '' @ quoted v) else Ok ())"

definition scope_matches :: "trust_scope \<Rightarrow> string \<Rightarrow> bool" where
  "scope_matches scope i =
     (case scope of
        TrustAppId trusted_app_id \<Rightarrow> trusted_app_id = i
      | NamespacePrefix namespace_prefix \<Rightarrow> i = namespace_prefix \<or> prefix (namespace_prefix @ ''.'') i)"

definition decode_sized :: "trust_externals \<Rightarrow> nat \<Rightarrow> string \<Rightarrow> string \<Rightarrow> (string, string) result" where
  "decode_sized tx size_of_it noun v =
     bind_r (map_err (\<lambda>error. ''invalid base64 '' @ noun @ '': '' @ error) (tx_base64_decode tx v)) (\<lambda>bytes.
     if length bytes \<noteq> size_of_it then
       Err (noun @ '' must decode to '' @ string_of_nat size_of_it @ '' bytes, got '' @ string_of_nat (length bytes))
     else Ok bytes)"

definition decode_public_key :: "trust_externals \<Rightarrow> string \<Rightarrow> (string, string) result" where
  "decode_public_key tx v = decode_sized tx 32 ''public key'' v"

definition decode_signature :: "trust_externals \<Rightarrow> string \<Rightarrow> (string, string) result" where
  "decode_signature tx v = decode_sized tx 64 ''signature'' v"

definition fingerprint_key_id :: "trust_externals \<Rightarrow> string \<Rightarrow> string" where
  "fingerprint_key_id tx public_key = ''ed25519:'' @ tx_sha256_hex tx public_key"

definition signing_bytes :: "string \<Rightarrow> string \<Rightarrow> string" where
  "signing_bytes package_digest i =
     ''kestral-signature-v1'' @ [CHR 0x0A] @ i @ [CHR 0x0A] @ package_digest @ [CHR 0x0A]"

section \<open>The store\<close>

definition open_trust_store ::
    "trust_externals \<Rightarrow> io \<Rightarrow> path \<Rightarrow> disk \<Rightarrow> (publisher_trust_store, string) result \<times> disk" where
  "open_trust_store tx io p d =
     (case load_json_document io (tx_parse_document tx) p ''publisher trust store'' d of
        (Err error, d') \<Rightarrow> (Err error, d')
      | (Ok None, d') \<Rightarrow>
          (Ok \<lparr>pt_path = Some p, pt_document = \<lparr>td_version = trust_store_version, td_entries = []\<rparr>\<rparr>, d')
      | (Ok (Some document), d') \<Rightarrow>
          (if td_version document \<noteq> trust_store_version then
             Err (''unsupported publisher trust store version '' @ tx_decimal tx (td_version document))
           else Ok \<lparr>pt_path = Some p, pt_document = document\<rparr>, d'))"

definition persist_trust ::
    "trust_externals \<Rightarrow> io \<Rightarrow> path option \<Rightarrow> (string, string) result \<Rightarrow> disk \<Rightarrow> (unit, atomic_json_error) result \<times> disk" where
  "persist_trust tx io p serialized d =
     (case p of None \<Rightarrow> (Ok (), d) | Some p \<Rightarrow> persist_json_document io p ''publisher trust store'' serialized d)"

definition save_trust ::
    "trust_externals \<Rightarrow> io \<Rightarrow> trust_store_document \<Rightarrow> publisher_trust_store \<Rightarrow> disk
      \<Rightarrow> (unit, string) result \<times> publisher_trust_store \<times> disk" where
  "save_trust tx io candidate store d =
     (let (r, document, d') = save_or_roll_back (tx_document_json tx) (persist_trust tx io (pt_path store))
        (pt_document store) candidate d
      in (r, store\<lparr>pt_document := document\<rparr>, d'))"

fun replace_first :: "('a \<Rightarrow> bool) \<Rightarrow> ('a \<Rightarrow> 'a) \<Rightarrow> 'a list \<Rightarrow> 'a list option" where
  "replace_first p f [] = None"
| "replace_first p f (x # xs) = (if p x then Some (f x # xs) else map_option ((#) x) (replace_first p f xs))"

definition upsert ::
    "trust_externals \<Rightarrow> io \<Rightarrow> trust_record \<Rightarrow> publisher_trust_store \<Rightarrow> disk
      \<Rightarrow> (unit, string) result \<times> publisher_trust_store \<times> disk" where
  "upsert tx io entry store d =
     (case validate_scope (tk_scope entry) of
        Err error \<Rightarrow> (Err error, store, d)
      | Ok _ \<Rightarrow>
     (let entries = td_entries (pt_document store);
          updated = (case replace_first (\<lambda>e. tk_key_id e = tk_key_id entry \<and> tk_scope e = tk_scope entry) (\<lambda>_. entry) entries of
              Some replaced \<Rightarrow> replaced
            | None \<Rightarrow> entries @ [entry])
      in save_trust tx io ((pt_document store)\<lparr>td_entries := updated\<rparr>) store d))"

definition trust_key ::
    "trust_externals \<Rightarrow> io \<Rightarrow> string \<Rightarrow> string \<Rightarrow> trust_scope \<Rightarrow> publisher_trust_store \<Rightarrow> disk
      \<Rightarrow> (unit, string) result \<times> publisher_trust_store \<times> disk" where
  "trust_key tx io key_id public_key scope store d =
     (case decode_public_key tx public_key of
        Err error \<Rightarrow> (Err error, store, d)
      | Ok public_key_bytes \<Rightarrow>
          if key_id \<noteq> fingerprint_key_id tx public_key_bytes then
            (Err (''key id '' @ quoted key_id @ '' does not match the supplied public key fingerprint''), store, d)
          else case validate_scope scope of
            Err error \<Rightarrow> (Err error, store, d)
          | Ok _ \<Rightarrow> upsert tx io \<lparr>tk_key_id = key_id, tk_public_key = public_key, tk_scope = scope,
              tk_status = StatusTrusted\<rparr> store d)"

definition revoke_key ::
    "trust_externals \<Rightarrow> io \<Rightarrow> string \<Rightarrow> trust_scope \<Rightarrow> publisher_trust_store \<Rightarrow> disk
      \<Rightarrow> (unit, string) result \<times> publisher_trust_store \<times> disk" where
  "revoke_key tx io key_id scope store d =
     (case validate_scope scope of
        Err error \<Rightarrow> (Err error, store, d)
      | Ok _ \<Rightarrow>
     (case replace_first (\<lambda>e. tk_key_id e = key_id \<and> tk_scope e = scope) (\<lambda>e. e\<lparr>tk_status := StatusKeyRevoked\<rparr>)
         (td_entries (pt_document store)) of
        None \<Rightarrow> (Err (''trusted key '' @ quoted key_id @ '' is not registered for that scope''), store, d)
      | Some entries \<Rightarrow> save_trust tx io ((pt_document store)\<lparr>td_entries := entries\<rparr>) store d))"

section \<open>The verdict\<close>

definition matching_entry :: "publisher_trust_store \<Rightarrow> string \<Rightarrow> string \<Rightarrow> trust_status \<Rightarrow> trust_record option" where
  "matching_entry store key_id i status =
     List.find (\<lambda>e. tk_key_id e = key_id \<and> tk_status e = status \<and> scope_matches (tk_scope e) i)
       (td_entries (pt_document store))"

definition resolve_signature :: "publisher_trust_store \<Rightarrow> string \<Rightarrow> string \<Rightarrow> signature_state option" where
  "resolve_signature store key_id i =
     (case matching_entry store key_id i StatusKeyRevoked of
        Some e \<Rightarrow> Some (SignatureRevoked (tk_key_id e) (tk_scope e))
      | None \<Rightarrow>
          map_option (\<lambda>e. SignatureTrusted (tk_key_id e) (tk_scope e)) (matching_entry store key_id i StatusTrusted))"

definition verify_signature ::
    "trust_externals \<Rightarrow> publisher_trust_store \<Rightarrow> string \<Rightarrow> package_signature_document \<Rightarrow> string
      \<Rightarrow> (signature_state, string) result" where
  "verify_signature tx store package_digest document i =
     (if sg_algorithm document \<noteq> ''ed25519'' then
        Err (''unsupported signature algorithm '' @ quoted (sg_algorithm document))
      else
      bind_r (decode_public_key tx (sg_public_key document)) (\<lambda>public_key_bytes.
      if sg_key_id document \<noteq> fingerprint_key_id tx public_key_bytes then
        Err ''signature key id does not match the supplied public key''
      else case tx_key_error tx public_key_bytes of
        Some error \<Rightarrow> Err (''invalid signature public key: '' @ error)
      | None \<Rightarrow>
      bind_r (decode_signature tx (sg_signature document)) (\<lambda>signature_bytes.
      case tx_verify tx public_key_bytes (signing_bytes package_digest i) signature_bytes of
        Some error \<Rightarrow> Err (''invalid package signature: '' @ error)
      | None \<Rightarrow> Ok (case resolve_signature store (sg_key_id document) i of
            Some verdict \<Rightarrow> verdict
          | None \<Rightarrow> ValidUnknownKey (sg_key_id document)))))"

fun signature_key_id :: "signature_state \<Rightarrow> string option" where
  "signature_key_id Unsigned = None"
| "signature_key_id (SignatureInvalid _) = None"
| "signature_key_id (ValidUnknownKey key_id) = Some key_id"
| "signature_key_id (SignatureTrusted key_id _) = Some key_id"
| "signature_key_id (SignatureRevoked key_id _) = Some key_id"

fun blocking_error :: "signature_state \<Rightarrow> string option" where
  "blocking_error (SignatureInvalid reason) = Some (''invalid package signature: '' @ reason)"
| "blocking_error (SignatureRevoked key_id _) =
     Some (''package signature key '' @ quoted key_id @ '' is revoked for this package'')"
| "blocking_error _ = None"

section \<open>A revocation lasts\<close>

lemma replace_first_Some:
  assumes "replace_first p f xs = Some ys"
  obtains us x vs where "xs = us @ x # vs" "p x" "ys = us @ f x # vs"
  using assms
proof (induction xs arbitrary: ys thesis)
  case (Cons a as)
  show ?case
  proof (cases "p a")
    case True
    then show ?thesis using Cons.prems by (intro Cons.prems(1)[of "[]" a as]) auto
  next
    case False
    then obtain zs where "replace_first p f as = Some zs" "ys = a # zs" using Cons.prems by auto
    then show ?thesis using Cons.IH[of zs] Cons.prems(1)[of "a # _"] by (metis append_Cons)
  qed
qed simp

definition revoked_for :: "string \<Rightarrow> trust_scope \<Rightarrow> publisher_trust_store \<Rightarrow> bool" where
  "revoked_for key_id scope store \<longleftrightarrow> (\<exists>e\<in>set (td_entries (pt_document store)).
     tk_key_id e = key_id \<and> tk_scope e = scope \<and> tk_status e = StatusKeyRevoked)"

lemma save_trust_document:
  assumes "save_trust tx io candidate store d = (r, store', d')"
  shows "pt_document store' = candidate \<or> \<not> is_ok r \<and> pt_document store' = pt_document store"
  using assms by (auto simp: save_trust_def save_or_roll_back_def Let_def split: prod.splits result.splits)

text \<open>What the store holds in memory is what its file holds, through every change.\<close>

lemma save_trust_mirrors:
  assumes "save_trust tx io candidate store d = (r, store', d')" "pt_path store = Some (dir @ [name])"
    and "mirrors (file_at (dir @ [name])) (tx_document_json tx) initial (pt_document store) d"
  shows "mirrors (file_at (dir @ [name])) (tx_document_json tx) initial (pt_document store') d' \<and> pt_path store' = pt_path store"
proof -
  have persist: "persist_trust tx io (Some p) = persist_json_document io p ''publisher trust store''" for p
    by (rule ext)+ (simp add: persist_trust_def)
  obtain document where "save_or_roll_back (tx_document_json tx) (persist_json_document io (dir @ [name]) ''publisher trust store'')
      (pt_document store) candidate d = (r, document, d')" "store' = store\<lparr>pt_document := document\<rparr>"
    using assms(1,2) by (auto simp: save_trust_def persist Let_def split: prod.splits)
  then show ?thesis using file_cell.save_mirrors assms(3) by auto
qed

lemma revoke_key_revokes:
  assumes "revoke_key tx io key_id scope store d = (Ok u, store', d')"
  shows "revoked_for key_id scope store'"
proof -
  obtain entries where entries: "replace_first (\<lambda>e. tk_key_id e = key_id \<and> tk_scope e = scope)
        (\<lambda>e. e\<lparr>tk_status := StatusKeyRevoked\<rparr>) (td_entries (pt_document store)) = Some entries"
      "save_trust tx io ((pt_document store)\<lparr>td_entries := entries\<rparr>) store d = (Ok u, store', d')"
    using assms by (auto simp: revoke_key_def split: result.splits option.splits)
  from save_trust_document[OF entries(2)] have "td_entries (pt_document store') = entries" by auto
  moreover from entries(1) obtain us x vs where "tk_key_id x = key_id" "tk_scope x = scope"
      "entries = us @ x\<lparr>tk_status := StatusKeyRevoked\<rparr> # vs" by (rule replace_first_Some) auto
  ultimately show ?thesis by (force simp: revoked_for_def)
qed

lemma revoke_key_keeps:
  assumes "revoke_key tx io key_id' scope' store d = (r, store', d')" "revoked_for key_id scope store"
  shows "revoked_for key_id scope store'"
proof (cases "pt_document store' = pt_document store")
  case False
  obtain entries where entries: "replace_first (\<lambda>e. tk_key_id e = key_id' \<and> tk_scope e = scope')
        (\<lambda>e. e\<lparr>tk_status := StatusKeyRevoked\<rparr>) (td_entries (pt_document store)) = Some entries"
      "save_trust tx io ((pt_document store)\<lparr>td_entries := entries\<rparr>) store d = (r, store', d')"
    using assms(1) False by (auto simp: revoke_key_def split: result.splits option.splits)
  from save_trust_document[OF entries(2)] False have new: "td_entries (pt_document store') = entries" by auto
  from entries(1) obtain us x vs where "td_entries (pt_document store) = us @ x # vs"
      "entries = us @ x\<lparr>tk_status := StatusKeyRevoked\<rparr> # vs" by (rule replace_first_Some)
  with assms(2) new show ?thesis by (auto simp: revoked_for_def)
qed (use assms(2) in \<open>simp add: revoked_for_def\<close>)

lemma upsert_keeps:
  assumes "upsert tx io entry store d = (r, store', d')" "revoked_for key_id scope store"
    "(tk_key_id entry, tk_scope entry) \<noteq> (key_id, scope)"
  shows "revoked_for key_id scope store'"
proof (cases "pt_document store' = pt_document store")
  case False
  let ?entries = "td_entries (pt_document store)"
  let ?replaced = "replace_first (\<lambda>e. tk_key_id e = tk_key_id entry \<and> tk_scope e = tk_scope entry) (\<lambda>_. entry) ?entries"
  have new: "td_entries (pt_document store') = (case ?replaced of Some entries \<Rightarrow> entries | None \<Rightarrow> ?entries @ [entry])"
    using assms(1) False
    by (auto simp: upsert_def Let_def split: result.splits dest: save_trust_document)
  show ?thesis
  proof (cases ?replaced)
    case None
    then show ?thesis using new assms(2) by (auto simp: revoked_for_def)
  next
    case (Some entries)
    from this obtain us x vs where "?entries = us @ x # vs" "tk_key_id x = tk_key_id entry \<and> tk_scope x = tk_scope entry"
        "entries = us @ entry # vs" by (rule replace_first_Some)
    with Some new assms(2,3) show ?thesis by (auto simp: revoked_for_def)
  qed
qed (use assms(2) in \<open>simp add: revoked_for_def\<close>)

datatype trust_command = TrustKey string string trust_scope | RevokeKey string trust_scope

fun run_trust_command ::
    "trust_externals \<Rightarrow> io \<times> trust_command \<Rightarrow> publisher_trust_store \<times> disk \<Rightarrow> publisher_trust_store \<times> disk" where
  "run_trust_command tx (io, TrustKey key_id public_key scope) (store, d) =
     snd (trust_key tx io key_id public_key scope store d)"
| "run_trust_command tx (io, RevokeKey key_id scope) (store, d) = snd (revoke_key tx io key_id scope store d)"

definition trusts_again :: "string \<Rightarrow> trust_scope \<Rightarrow> trust_command \<Rightarrow> bool" where
  "trusts_again key_id scope command \<longleftrightarrow> (\<exists>public_key. command = TrustKey key_id public_key scope)"

lemma command_keeps:
  assumes "revoked_for key_id scope (fst w)" "\<not> trusts_again key_id scope (snd command)"
  shows "revoked_for key_id scope (fst (run_trust_command tx command w))"
proof -
  obtain store d io c where w: "w = (store, d)" and command: "command = (io, c)" by (cases w, cases command)
  show ?thesis
  proof (cases c)
    case (TrustKey key_id' public_key scope')
    obtain r store' d' where result: "trust_key tx io key_id' public_key scope' store d = (r, store', d')" by (metis prod_cases3)
    have "store' = store \<or> (\<exists>entry r d'. tk_key_id entry = key_id' \<and> tk_scope entry = scope' \<and>
        upsert tx io entry store d = (r, store', d'))"
      using result by (force simp: trust_key_def split: result.splits if_splits)
    moreover have "(key_id', scope') \<noteq> (key_id, scope)" using assms(2) by (auto simp: trusts_again_def command TrustKey)
    ultimately show ?thesis using assms(1) upsert_keeps by (auto simp: w command TrustKey result)
  next
    case (RevokeKey key_id' scope')
    obtain r store' d' where result: "revoke_key tx io key_id' scope' store d = (r, store', d')" by (metis prod_cases3)
    then show ?thesis using revoke_key_keeps[OF result] assms(1) by (simp add: w command RevokeKey)
  qed
qed

lemma revoked_blocks:
  assumes "revoked_for key_id scope store" "scope_matches scope i" "sg_key_id document = key_id"
    and "verify_signature tx store digest document i = Ok verdict"
  shows "blocking_error verdict \<noteq> None"
proof -
  obtain e where "matching_entry store key_id i StatusKeyRevoked = Some e"
    using assms(1,2) by (cases "matching_entry store key_id i StatusKeyRevoked")
      (auto simp: matching_entry_def revoked_for_def find_None_iff)
  then have "resolve_signature store key_id i = Some (SignatureRevoked (tk_key_id e) (tk_scope e))"
    by (simp add: resolve_signature_def)
  with assms(3,4) show ?thesis
    by (auto simp: verify_signature_def bind_r_Ok_iff split: if_splits option.splits)
qed

text \<open>What a trusted verdict rests on.\<close>

lemma trusted_verdict:
  assumes "verify_signature tx store digest document i = Ok (SignatureTrusted key_id scope)"
  shows "key_id = sg_key_id document" "scope_matches scope i"
    "\<exists>e\<in>set (td_entries (pt_document store)). tk_key_id e = key_id \<and> tk_scope e = scope \<and> tk_status e = StatusTrusted"
    "\<exists>key sig. fingerprint_key_id tx key = key_id \<and> length key = 32 \<and> length sig = 64 \<and>
       tx_verify tx key (signing_bytes digest i) sig = None"
  using assms
  by (fastforce simp: verify_signature_def bind_r_Ok_iff resolve_signature_def matching_entry_def decode_public_key_def
      decode_signature_def decode_sized_def find_Some_iff in_set_conv_nth split: if_splits option.splits)+

definition sample_trust_externals :: trust_externals where
  "sample_trust_externals = \<lparr>tx_base64_decode = (\<lambda>s. Ok (if s = ''sig'' then replicate 64 (CHR ''s'') else replicate 32 (CHR ''k''))),
     tx_sha256_hex = (\<lambda>_. ''f''), tx_key_error = (\<lambda>_. None), tx_verify = (\<lambda>_ _ _. None),
     tx_document_json = (\<lambda>_. Ok ''trust''), tx_parse_document = (\<lambda>_. Err ''?''), tx_decimal = (\<lambda>_. ''?'')\<rparr>"

definition sample_trust_scope :: trust_scope where
  "sample_trust_scope = NamespacePrefix ''com.acme''"

definition sample_trusting :: "(unit, string) result \<times> publisher_trust_store \<times> disk" where
  "sample_trusting = trust_key sample_trust_externals sample_io ''ed25519:f'' ''key'' sample_trust_scope
     \<lparr>pt_path = None, pt_document = \<lparr>td_version = 1, td_entries = []\<rparr>\<rparr> sample_disk"

definition sample_revoking :: "(unit, string) result \<times> publisher_trust_store \<times> disk" where
  "sample_revoking = revoke_key sample_trust_externals sample_io ''ed25519:f'' sample_trust_scope
     (fst (snd sample_trusting)) (snd (snd sample_trusting))"

definition sample_signature :: package_signature_document where
  "sample_signature = \<lparr>sg_algorithm = ''ed25519'', sg_key_id = ''ed25519:f'', sg_public_key = ''key'', sg_signature = ''sig''\<rparr>"

definition sample_retrust :: "(io \<times> trust_command) list" where
  "sample_retrust = [(sample_io, TrustKey ''ed25519:f'' ''key'' (TrustAppId ''com.acme.notes''))]"

lemma sample_trust_runs:
  "fst sample_revoking = Ok ()"
  "verify_signature sample_trust_externals (fst (fold (run_trust_command sample_trust_externals) sample_retrust (snd sample_revoking)))
     ''d'' sample_signature ''com.acme.notes'' = Ok (SignatureRevoked ''ed25519:f'' sample_trust_scope)"
  "length (td_entries (pt_document (fst (fold (run_trust_command sample_trust_externals) sample_retrust (snd sample_revoking))))) = 2"
  by code_simp+

text \<open>C29: After a key was revoked for an app or a namespace, no package of an app in that scope signed with
  the key passes: the verdict is an error or one that blocks the installation. This stays so through
  any further changes to the store, also ones that trust the key for a narrower or wider scope,
  until the same key is trusted again for the very scope it was revoked for.\<close>

theorem revoked_publisher_stays_blocked:
  assumes "revoke_key tx io key_id scope store d = (Ok (), store1, d1)"
    and "\<forall>command\<in>set commands. \<not> trusts_again key_id scope (snd command)"
    and "fold (run_trust_command tx) commands (store1, d1) = (store2, d2)"
    and "scope_matches scope i" "sg_key_id document = key_id"
  shows "case verify_signature tx store2 digest document i of Err _ \<Rightarrow> True | Ok verdict \<Rightarrow> blocking_error verdict \<noteq> None"
proof -
  have "revoked_for key_id scope (fst (fold (run_trust_command tx) commands w))"
    if "revoked_for key_id scope (fst w)" "\<forall>command\<in>set commands. \<not> trusts_again key_id scope (snd command)" for w
    using that by (induction commands arbitrary: w) (simp_all add: command_keeps)
  from this[of "(store1, d1)"] revoke_key_revokes[OF assms(1)] assms(2,3) have "revoked_for key_id scope store2" by simp
  with revoked_blocks[OF this assms(4,5)] show ?thesis by (simp split: result.splits)
qed

theorem revoked_publisher_stays_blocked_witness:
  "case verify_signature sample_trust_externals
      (fst (fold (run_trust_command sample_trust_externals) sample_retrust (snd sample_revoking))) ''d'' sample_signature
      ''com.acme.notes'' of Err _ \<Rightarrow> False | Ok verdict \<Rightarrow> blocking_error verdict \<noteq> None"
proof -
  have revoke: "revoke_key sample_trust_externals sample_io ''ed25519:f'' sample_trust_scope
      (fst (snd sample_trusting)) (snd (snd sample_trusting)) = (Ok (), fst (snd sample_revoking), snd (snd sample_revoking))"
    using sample_trust_runs(1) by (simp add: sample_revoking_def prod_eq_iff)
  have others: "\<forall>command\<in>set sample_retrust. \<not> trusts_again ''ed25519:f'' sample_trust_scope (snd command)"
    by (simp add: sample_retrust_def trusts_again_def sample_trust_scope_def)
  have run: "fold (run_trust_command sample_trust_externals) sample_retrust (fst (snd sample_revoking), snd (snd sample_revoking)) =
      (fst (fold (run_trust_command sample_trust_externals) sample_retrust (snd sample_revoking)),
       snd (fold (run_trust_command sample_trust_externals) sample_retrust (snd sample_revoking)))" by simp
  have "scope_matches sample_trust_scope ''com.acme.notes''" "sg_key_id sample_signature = ''ed25519:f''"
    by (simp_all add: scope_matches_def sample_trust_scope_def sample_signature_def)
  from revoked_publisher_stays_blocked[OF revoke others run this, of "''d''"] sample_trust_runs(2) show ?thesis by simp
qed

end
