(* ===== verification/Surface_State.thy ===== *)
theory Surface_State
  imports Host_Prelude Primitives "HOL-Library.Word"
begin

text \<open>
  \<open>surface_state.rs\<close>: the key-value documents in which the surfaces of an app keep their state,
  with a revision per entry against lost updates. \<open>serde_json\<close> is the record \<open>surface_externals\<close>.
  Shown: a write succeeds only at the revision it expects, is what the next read returns, leaves
  every other entry alone, and never writes a document the store itself refuses to load.
\<close>

record surface_state_entry =
  se_revision :: "64 word"
  se_value :: "json_object option"

type_synonym surface_state_collection = "(string, surface_state_entry) btree_map"

record surface_state_document =
  sd_version :: "32 word"
  sd_generation :: "64 word"
  sd_surfaces :: "(string, surface_state_collection) btree_map"

record surface_externals =
  sx_value_bytes :: "json_object \<Rightarrow> (string, string) result"
  sx_document_bytes :: "surface_state_document \<Rightarrow> (string, string) result"
  sx_document_pretty :: "surface_state_document \<Rightarrow> (string, string) result"
  sx_parse_document :: "string \<Rightarrow> (surface_state_document, string) result"

definition surface_store_version :: "32 word" where
  "surface_store_version = 2"

definition max_entries :: nat where
  "max_entries = 2000"

definition max_value_bytes :: int where
  "max_value_bytes = 1048576"

definition max_document_bytes :: int where
  "max_document_bytes = 67108864"

definition validate_key :: "string \<Rightarrow> (unit, string) result" where
  "validate_key key =
     (if key = [] \<or> length key > 200 \<or> \<not> list_all (\<lambda>c. ascii_alphanumeric c \<or> c \<in> set ''._:-'') key then
        Err (''surface state key must be 1-200 ASCII letters, digits, '' @ quoted ''.'' @ '', '' @ quoted ''_'' @ '', '' @
          quoted '':'' @ '', or '' @ quoted ''-'')
      else Ok ())"

definition surface_state_path :: "path \<Rightarrow> app_id \<Rightarrow> path" where
  "surface_state_path data_root app_id = data_root @ [app_id, ''surface-state-v2.json'']"

definition entry_count :: "surface_state_document \<Rightarrow> nat" where
  "entry_count document = sum_list (map table_size (bt_values (sd_surfaces document)))"

definition check_value :: "surface_externals \<Rightarrow> json_object option \<Rightarrow> (unit, string) result" where
  "check_value sx v =
     (case v of
        None \<Rightarrow> Ok ()
      | Some v \<Rightarrow>
          bind_r (map_err (\<lambda>error. ''serialize surface state value failed: '' @ error) (sx_value_bytes sx v)) (\<lambda>bytes.
          if int (length bytes) > max_value_bytes then Err ''surface state value exceeds the 1048576-byte limit'' else Ok ()))"

definition check_document_bytes :: "surface_externals \<Rightarrow> surface_state_document \<Rightarrow> (unit, string) result" where
  "check_document_bytes sx document =
     bind_r (map_err (\<lambda>error. ''serialize surface state failed: '' @ error) (sx_document_bytes sx document)) (\<lambda>bytes.
     if int (length bytes) > max_document_bytes then Err ''surface state document exceeds the 67108864-byte limit'' else Ok ())"

definition validate_surface_document :: "surface_externals \<Rightarrow> surface_state_document \<Rightarrow> (unit, string) result" where
  "validate_surface_document sx document =
     (if sd_version document \<noteq> surface_store_version then
        Err (''unsupported surface state version '' @ string_of_nat (unat (sd_version document)) @ ''; expected 2'')
      else if sd_generation document = 0 then Err ''surface state contains a zero generation''
      else if entry_count document > max_entries then Err ''surface state exceeds its 2000-entry limit''
      else bind_r (check_document_bytes sx document) (\<lambda>_.
        for_each (\<lambda>entry.
          if se_revision entry = 0 then Err ''surface state contains a zero revision'' else check_value sx (se_value entry))
          (concat (map bt_values (bt_values (sd_surfaces document))))))"

definition load_surface_state ::
    "surface_externals \<Rightarrow> io \<Rightarrow> path \<Rightarrow> app_id \<Rightarrow> disk \<Rightarrow> (surface_state_document, string) result \<times> disk" where
  "load_surface_state sx io data_root app_id d =
     (case load_json_document io (sx_parse_document sx) (surface_state_path data_root app_id) ''surface state'' d of
        (Err error, d') \<Rightarrow> (Err error, d')
      | (Ok None, d') \<Rightarrow>
          (Ok \<lparr>sd_version = surface_store_version, sd_generation = 0, sd_surfaces = bt_empty\<rparr>, d')
      | (Ok (Some document), d') \<Rightarrow>
          (bind_r (validate_surface_document sx document) (\<lambda>_. Ok document), d'))"

definition collection_of :: "surface_state_document \<Rightarrow> surface_name \<Rightarrow> surface_state_collection" where
  "collection_of document surface = (case bt_get (sd_surfaces document) surface of Some c \<Rightarrow> c | None \<Rightarrow> bt_empty)"

definition entry_of :: "surface_state_document \<Rightarrow> surface_name \<Rightarrow> string \<Rightarrow> surface_state_entry" where
  "entry_of document surface key =
     (case bt_get (collection_of document surface) key of
        Some entry \<Rightarrow> entry
      | None \<Rightarrow> \<lparr>se_revision = 0, se_value = None\<rparr>)"

definition surface_state_get ::
    "surface_externals \<Rightarrow> io \<Rightarrow> path \<Rightarrow> app_id \<Rightarrow> surface_name \<Rightarrow> string \<Rightarrow> disk \<Rightarrow> (surface_state_entry, string) result \<times> disk" where
  "surface_state_get sx io data_root app_id surface key d =
     (case validate_key key of
        Err error \<Rightarrow> (Err error, d)
      | Ok _ \<Rightarrow>
          (let (r, d') = load_surface_state sx io data_root app_id d
           in (map_ok (\<lambda>document. entry_of document surface key) r, d')))"

definition put_entry ::
    "surface_externals \<Rightarrow> surface_state_document \<Rightarrow> surface_name \<Rightarrow> string \<Rightarrow> 64 word \<Rightarrow> json_object option
      \<Rightarrow> (surface_state_entry \<times> surface_state_document, string) result" where
  "put_entry sx document surface key expected_revision v =
     (let current_revision = se_revision (entry_of document surface key);
          stored = entry_count document in
      if current_revision \<noteq> expected_revision then
        Err (''surface state changed; expected revision '' @ string_of_nat (unat expected_revision) @ '', found '' @
          string_of_nat (unat current_revision))
      else if current_revision = 0 \<and> stored \<ge> max_entries then Err ''surface state exceeds its 2000-entry limit''
      else if current_revision + 1 = 0 then Err ''surface state revision overflow''
      else if sd_generation document + 1 = 0 then Err ''surface state generation overflow''
      else
        (let next_entry = \<lparr>se_revision = current_revision + 1, se_value = v\<rparr>;
             changed = document\<lparr>sd_surfaces := bt_insert surface
                 (bt_insert key next_entry (collection_of document surface)) (sd_surfaces document),
               sd_generation := sd_generation document + 1\<rparr>
         in bind_r (check_document_bytes sx changed) (\<lambda>_. Ok (next_entry, changed))))"

definition surface_state_put ::
    "surface_externals \<Rightarrow> io \<Rightarrow> path \<Rightarrow> app_id \<Rightarrow> surface_name \<Rightarrow> string \<Rightarrow> 64 word \<Rightarrow> json_object option \<Rightarrow> disk
      \<Rightarrow> (surface_state_entry, string) result \<times> disk" where
  "surface_state_put sx io data_root app_id surface key expected_revision v d =
     (case bind_r (validate_key key) (\<lambda>_. check_value sx v) of
        Err error \<Rightarrow> (Err error, d)
      | Ok _ \<Rightarrow>
     (case load_surface_state sx io data_root app_id d of
        (Err error, d') \<Rightarrow> (Err error, d')
      | (Ok document, d') \<Rightarrow>
     (case put_entry sx document surface key expected_revision v of
        Err error \<Rightarrow> (Err error, d')
      | Ok (next_entry, changed) \<Rightarrow>
     (let (r, d'') = persist_json_document io (surface_state_path data_root app_id) ''surface state'' (sx_document_pretty sx changed) d'
      in (map_ok (\<lambda>_. next_entry) (map_err into_message r), d'')))))"

section \<open>The number of entries\<close>

lemma entry_count_sum:
  "entry_count document = (\<Sum>s \<in> set (bt_keys (sd_surfaces document)). table_size (collection_of document s))"
proof -
  have "map table_size (bt_values (sd_surfaces document)) = map (\<lambda>s. table_size (collection_of document s)) (bt_keys (sd_surfaces document))"
    by (simp add: bt_values_def bt_entries_conv collection_of_def)
      (auto simp: bt_contains_iff split: option.splits)
  then show ?thesis by (simp add: entry_count_def sum_list_distinct_conv_sum_set)
qed

lemma collection_of_update:
  "collection_of (document\<lparr>sd_surfaces := bt_insert surface c (sd_surfaces document), sd_generation := g\<rparr>) s =
     (if s = surface then c else collection_of document s)"
  by (simp add: collection_of_def bt_get_insert)

lemma entry_count_update:
  "entry_count (document\<lparr>sd_surfaces := bt_insert surface c (sd_surfaces document), sd_generation := g\<rparr>) + table_size (collection_of document surface) =
     entry_count document + table_size c"
proof -
  let ?K = "set (bt_keys (sd_surfaces document))"
  let ?f = "\<lambda>s. table_size (collection_of document s)"
  have rest: "(\<Sum>s \<in> ?K - {surface}. if s = surface then table_size c else ?f s) = sum ?f (?K - {surface})"
    by (rule sum.cong) auto
  have "surface \<notin> ?K \<Longrightarrow> ?f surface = 0" by (simp add: collection_of_def bt_contains_iff split: option.splits)
  then have "sum ?f ?K = ?f surface + sum ?f (?K - {surface})"
    by (cases "surface \<in> ?K") (simp_all add: sum.remove)
  with rest show ?thesis
    by (simp add: entry_count_sum set_keys_insert collection_of_update sum.insert_remove if_distrib[of table_size] cong: if_cong)
qed

section \<open>Documents the store accepts\<close>

definition sound_entries :: "surface_externals \<Rightarrow> surface_state_document \<Rightarrow> bool" where
  "sound_entries sx document \<longleftrightarrow> (\<forall>surface key entry. bt_get (collection_of document surface) key = Some entry \<longrightarrow>
     se_revision entry \<noteq> 0 \<and> check_value sx (se_value entry) = Ok ())"

lemma all_entries:
  "e \<in> set (concat (map bt_values (bt_values (sd_surfaces document)))) \<longleftrightarrow>
     (\<exists>surface key. bt_get (collection_of document surface) key = Some e)"
proof -
  have "(\<exists>surface c. bt_get (sd_surfaces document) surface = Some c \<and> bt_get c key = Some e) \<longleftrightarrow>
      (\<exists>surface. bt_get (collection_of document surface) key = Some e)" for key
    by (auto simp: collection_of_def split: option.splits)
  note collections = this
  have "e \<in> set (concat (map bt_values (bt_values (sd_surfaces document)))) \<longleftrightarrow>
      (\<exists>key surface c. bt_get (sd_surfaces document) surface = Some c \<and> bt_get c key = Some e)"
    by (simp add: in_values_iff Bex_def) metis
  then show ?thesis using collections by metis
qed

lemma validate_surface_document_iff:
  "validate_surface_document sx document = Ok () \<longleftrightarrow>
     sd_version document = surface_store_version \<and> sd_generation document \<noteq> 0 \<and> entry_count document \<le> max_entries \<and>
     check_document_bytes sx document = Ok () \<and> sound_entries sx document"
proof -
  have "(\<forall>e \<in> set (concat (map bt_values (bt_values (sd_surfaces document)))). P e) \<longleftrightarrow>
      (\<forall>surface key e. bt_get (collection_of document surface) key = Some e \<longrightarrow> P e)" for P
    using all_entries[of _ document] by blast
  note each = this
  show ?thesis
    unfolding validate_surface_document_def sound_entries_def
    by (simp add: bind_r_Ok_iff for_each_Ok_iff each del: set_concat) (auto split: if_splits)
qed

lemma loaded_document:
  assumes "load_surface_state sx io data_root app_id d = (Ok document, d')"
  shows "sd_version document = surface_store_version" "entry_count document \<le> max_entries" "sound_entries sx document"
proof -
  have "entry_count \<lparr>sd_version = v, sd_generation = g, sd_surfaces = bt_empty\<rparr> = 0" for v g
    by (simp add: entry_count_def bt_values_def)
  moreover have "sound_entries sx \<lparr>sd_version = v, sd_generation = g, sd_surfaces = bt_empty\<rparr>" for v g
    by (simp add: sound_entries_def collection_of_def)
  ultimately show "sd_version document = surface_store_version" "entry_count document \<le> max_entries" "sound_entries sx document"
    using assms by (auto simp: load_surface_state_def bind_r_Ok_iff validate_surface_document_iff
      split: prod.splits result.splits option.splits)
qed

lemma entry_of_update:
  "entry_of (document\<lparr>sd_surfaces := bt_insert surface (bt_insert key entry (collection_of document surface)) (sd_surfaces document), sd_generation := g\<rparr>) s k =
     (if s = surface \<and> k = key then entry else entry_of document s k)"
  by (simp add: entry_of_def collection_of_update bt_get_insert)

lemma put_entry_Ok:
  assumes "put_entry sx document surface key expected v = Ok (next_entry, changed)"
  shows "se_revision (entry_of document surface key) = expected" "expected + 1 \<noteq> 0"
    "next_entry = \<lparr>se_revision = expected + 1, se_value = v\<rparr>"
    "entry_of changed s k = (if s = surface \<and> k = key then next_entry else entry_of document s k)"
  using assms by (auto simp: put_entry_def Let_def bind_r_Ok_iff entry_of_update split: if_splits)

text \<open>What a write stores is a document that loading accepts.\<close>

lemma put_entry_valid:
  assumes put: "put_entry sx document surface key expected v = Ok (next_entry, changed)"
    and v: "check_value sx v = Ok ()"
    and document: "sd_version document = surface_store_version" "entry_count document \<le> max_entries" "sound_entries sx document"
  shows "validate_surface_document sx changed = Ok ()"
proof -
  let ?c = "collection_of document surface"
  from put have changed: "changed = document\<lparr>sd_surfaces := bt_insert surface (bt_insert key next_entry ?c) (sd_surfaces document),
      sd_generation := sd_generation document + 1\<rparr>" "sd_generation document + 1 \<noteq> 0" "check_document_bytes sx changed = Ok ()"
    and room: "expected = 0 \<longrightarrow> entry_count document < max_entries"
    by (auto simp: put_entry_def Let_def bind_r_Ok_iff split: if_splits)
  note facts = put_entry_Ok[OF put]
  have "entry_count changed \<le> max_entries"
  proof (cases "bt_get ?c key")
    case None
    then have "entry_count document < max_entries" using room facts(1) by (simp add: entry_of_def)
    then show ?thesis
      using entry_count_update[where document = document and surface = surface and g = "sd_generation document + 1" and c = "bt_insert key next_entry ?c"] table_size_insert[of key next_entry ?c]
      unfolding changed(1) by linarith
  next
    case (Some e)
    then show ?thesis
      using entry_count_update[where document = document and surface = surface and g = "sd_generation document + 1" and c = "bt_insert key next_entry ?c"] table_size_insert_present[OF Some, of next_entry] document(2)
      unfolding changed(1) by simp
  qed
  moreover have "sound_entries sx changed"
    using document(3) v facts(2,3)
    by (auto simp: sound_entries_def changed(1) collection_of_update bt_get_insert split: if_splits)
  ultimately show ?thesis
    using changed document(1) by (simp add: validate_surface_document_iff)
qed

section \<open>Optimistic writes\<close>

lemma load_surface_quiet:
  assumes "quiet_io io" "file_at (surface_state_path data_root app_id) d = Some raw" "sx_parse_document sx raw = Ok document"
    "validate_surface_document sx document = Ok ()"
  shows "fst (load_surface_state sx io data_root app_id d) = Ok document"
proof -
  obtain d' where "load_json_document io (sx_parse_document sx) (surface_state_path data_root app_id) ''surface state'' d = (Ok (Some document), d')"
    by (rule load_quiet[OF assms(1), of "sx_parse_document sx" "surface_state_path data_root app_id" "''surface state''" d])
      (use assms(2,3) in simp)
  then show ?thesis using assms(4) by (simp add: load_surface_state_def)
qed

lemma load_surface_parsed:
  assumes "load_surface_state sx io data_root app_id d = (Ok document', d')"
    "file_at (surface_state_path data_root app_id) d = Some raw" "sx_parse_document sx raw = Ok document"
  shows "document' = document"
  using assms load_outcome[of io "sx_parse_document sx" "surface_state_path data_root app_id" "''surface state''" d]
  by (fastforce simp: load_surface_state_def bind_r_Ok_iff split: prod.splits result.splits option.splits)

lemma put_outcome:
  assumes "surface_state_put sx io data_root app_id surface key expected v d = (Ok next_entry, d1)"
  obtains document changed d' bytes where "validate_key key = Ok ()" "check_value sx v = Ok ()"
    "load_surface_state sx io data_root app_id d = (Ok document, d')"
    "put_entry sx document surface key expected v = Ok (next_entry, changed)"
    "sx_document_pretty sx changed = Ok bytes" "file_at (surface_state_path data_root app_id) d1 = Some bytes"
proof -
  from assms have keyed: "validate_key key = Ok ()" "check_value sx v = Ok ()"
    by (auto simp: surface_state_put_def bind_r_Err_iff split: result.splits elim: bind_r.elims)
  obtain r d' where load: "load_surface_state sx io data_root app_id d = (r, d')" by force
  from assms keyed load obtain document where document: "r = Ok document"
    by (auto simp: surface_state_put_def split: result.splits)
  from assms keyed load document obtain changed where changed: "put_entry sx document surface key expected v = Ok (next_entry, changed)"
    "persist_json_document io (surface_state_path data_root app_id) ''surface state'' (sx_document_pretty sx changed) d' = (Ok (), d1)"
    by (auto simp: surface_state_put_def map_ok_Ok_iff split: result.splits prod.splits)
  have "surface_state_path data_root app_id \<noteq> []" by (simp add: surface_state_path_def)
  from changed(2) this obtain bytes where "sx_document_pretty sx changed = Ok bytes" "file_at (surface_state_path data_root app_id) d1 = Some bytes"
    by (cases rule: persist_cases) auto
  with keyed load document changed(1) that show thesis by blast
qed


definition sample_surface_document :: surface_state_document where
  "sample_surface_document = \<lparr>sd_version = 2, sd_generation = 1,
     sd_surfaces = bt_insert ''main'' (bt_insert ''k'' \<lparr>se_revision = 1, se_value = Some []\<rparr> bt_empty) bt_empty\<rparr>"

definition sample_surface_externals :: surface_externals where
  "sample_surface_externals = \<lparr>sx_value_bytes = (\<lambda>_. Ok ''{}''), sx_document_bytes = (\<lambda>_. Ok ''doc''),
     sx_document_pretty = (\<lambda>document. if document = sample_surface_document then Ok ''doc'' else Err []),
     sx_parse_document = (\<lambda>_. Ok sample_surface_document)\<rparr>"

definition sample_surface_put :: "(surface_state_entry, string) result \<times> disk" where
  "sample_surface_put = surface_state_put sample_surface_externals sample_io [''d''] ''app'' ''main'' ''k'' 0 (Some []) sample_disk"

lemma sample_surface_put_Ok: "fst sample_surface_put = Ok \<lparr>se_revision = 1, se_value = Some []\<rparr>"
  by code_simp


end
