(* ===== verification/File_Resources.thy ===== *)
theory File_Resources
  imports Host_Prelude Invocation Manifest
begin

text \<open>
  \<open>file_resources.rs\<close>: the registry of files and folders the user has shared, and the File Broker,
  whose handlers list, read, write and delete inside them. The user's files are a tree with
  symbolic links; the registry is a document on the disk of \<open>Host_Files\<close>. Base64, SHA-256, the
  decoding of requests and the answers of the operating system are parameters. Concurrent changes
  of the tree by other programs are not modelled, so \<open>ensure_same_file\<close> compares a file with itself.
\<close>

section \<open>A file tree with links\<close>

datatype fs_node = FileNode string | DirNode | LinkNode bool path | OtherNode

type_synonym fs = "(path, fs_node) btree_map"

text \<open>
  \<open>realpath\<close>: \<open>visited\<close> is resolved, \<open>rest\<close> is not; after 40 links the kernel gives up. A link holds whether
  its target is absolute, and the components of the target.
\<close>

function resolve_links :: "nat \<Rightarrow> fs \<Rightarrow> path \<Rightarrow> path \<Rightarrow> path option" where
  "resolve_links fuel t visited [] = Some visited"
| "resolve_links fuel t visited (c # rest) =
     (if c = [] \<or> c = ''.'' then resolve_links fuel t visited rest
      else if c = ''..'' then resolve_links fuel t (butlast visited) rest
      else case bt_get t (visited @ [c]) of
        None \<Rightarrow> None
      | Some (LinkNode absolute target) \<Rightarrow>
          (case fuel of
             0 \<Rightarrow> None
           | Suc fuel \<Rightarrow> resolve_links fuel t (if absolute then [] else visited) (target @ rest))
      | Some DirNode \<Rightarrow> resolve_links fuel t (visited @ [c]) rest
      | Some _ \<Rightarrow> (if rest = [] then Some (visited @ [c]) else None))"
  by pat_completeness auto
termination by (relation "measures [\<lambda>(fuel, _, _, _). fuel, \<lambda>(_, _, _, rest). length rest]") auto

definition canonicalize :: "fs \<Rightarrow> path \<Rightarrow> path option" where
  "canonicalize t p = resolve_links 40 t [] p"

text \<open>Where a call that does not follow a final link looks: in the resolved parent directory.\<close>

definition locate :: "fs \<Rightarrow> path \<Rightarrow> path option" where
  "locate t p =
     (if p = [] then None
      else Option.bind (canonicalize t (butlast p)) (\<lambda>parent.
        if parent = [] \<or> bt_get t parent = Some DirNode then Some (parent @ [last p]) else None))"

definition inspect :: "fs \<Rightarrow> path \<Rightarrow> fs_node option" where
  "inspect t p = (if p = [] then Some DirNode else Option.bind (locate t p) (bt_get t))"

definition follow :: "fs \<Rightarrow> path \<Rightarrow> fs_node option" where
  "follow t p = (if canonicalize t p = Some [] then Some DirNode else Option.bind (canonicalize t p) (bt_get t))"

text \<open>The operating system may refuse any call; a write may stop in the middle.\<close>

record os_answers =
  oa_refuses :: "string \<Rightarrow> path \<Rightarrow> bool"
  oa_text :: "string \<Rightarrow> path \<Rightarrow> string"
  oa_partial :: nat
  oa_temp_uuid :: string
  oa_backup_uuid :: string
  oa_modified_at :: "path \<Rightarrow> datetime option"
  oa_dir_order :: "path list \<Rightarrow> path list"

section \<open>The registry\<close>

datatype file_resource_kind = KindFile | KindDirectory

datatype file_entry_kind = EntryFile | EntryDirectory | EntrySymlink | EntryOther

record file_resource_record =
  fr_resource_id :: resource_id
  fr_display_name :: string
  fr_kind :: file_resource_kind
  fr_canonical_path :: path
  fr_created_at :: datetime

record file_resource_registry_document =
  fd_version :: "32 word"
  fd_resources :: "file_resource_record list"
  fd_pending_removals :: "resource_id list"

record file_registry_service =
  fg_path :: path
  fg_document :: file_resource_registry_document

record file_externals =
  fx_base64_decode :: "string \<Rightarrow> (string, string) result"
  fx_base64_encode :: "string \<Rightarrow> string"
  fx_sha256_hex :: "string \<Rightarrow> string"
  fx_document_json :: "file_resource_registry_document \<Rightarrow> (string, string) result"

definition find_resource :: "file_registry_service \<Rightarrow> resource_id \<Rightarrow> file_resource_record option" where
  "find_resource service resource_id =
     List.find (\<lambda>resource. fr_resource_id resource = resource_id) (fd_resources (fg_document service))"

definition active_resource :: "file_registry_service \<Rightarrow> resource_id \<Rightarrow> (file_resource_record, string) result" where
  "active_resource service resource_id =
     bind_r (ok_or (''unknown file resource: '' @ resource_id) (find_resource service resource_id)) (\<lambda>resource.
     if List.member (fd_pending_removals (fg_document service)) resource_id then
       Err (''file resource '' @ quoted resource_id @ '' is being removed'')
     else Ok resource)"

definition save_registry ::
    "file_externals \<Rightarrow> io \<Rightarrow> file_resource_registry_document \<Rightarrow> file_registry_service \<Rightarrow> disk
      \<Rightarrow> (unit, string) result \<times> file_registry_service \<times> disk" where
  "save_registry fx io candidate service d =
     (let (r, document, d') = save_or_roll_back (fx_document_json fx)
        (persist_json_document io (fg_path service) ''file resource registry'') (fg_document service) candidate d
      in (r, service\<lparr>fg_document := document\<rparr>, d'))"

definition file_kind :: "fs \<Rightarrow> os_answers \<Rightarrow> path \<Rightarrow> (file_resource_kind, string) result" where
  "file_kind t os p =
     (case follow t p of
        None \<Rightarrow> Err (''inspect selected path '' @ quoted (path_display p) @ '' failed: '' @ oa_text os ''metadata'' p)
      | Some (FileNode _) \<Rightarrow> Ok KindFile
      | Some DirNode \<Rightarrow> Ok KindDirectory
      | Some _ \<Rightarrow> Err (''selected path '' @ quoted (path_display p) @ '' must be a regular file or directory''))"

definition display_name_for :: "path \<Rightarrow> file_resource_kind \<Rightarrow> string" where
  "display_name_for p kind =
     (if p \<noteq> [] \<and> \<not> blank (last p) then last p
      else case kind of KindFile \<Rightarrow> ''selected file'' | KindDirectory \<Rightarrow> ''selected folder'')"

definition register_resource ::
    "file_externals \<Rightarrow> os_answers \<Rightarrow> io \<Rightarrow> datetime \<Rightarrow> string \<Rightarrow> fs \<Rightarrow> path \<Rightarrow> file_registry_service \<Rightarrow> disk
      \<Rightarrow> (file_resource_record, string) result \<times> file_registry_service \<times> disk" where
  "register_resource fx os io now uuid t p service d =
     (let refused = (\<lambda>error. (Err error, service, d)) in
      case inspect t p of
        None \<Rightarrow> refused (''inspect selected path '' @ quoted (path_display p) @ '' failed: '' @ oa_text os ''lstat'' p)
      | Some (LinkNode _ _) \<Rightarrow> refused (''selected path '' @ quoted (path_display p) @ '' must not be a symlink'')
      | Some _ \<Rightarrow>
     (case canonicalize t p of
        None \<Rightarrow> refused (''canonicalize selected path '' @ quoted (path_display p) @ '' failed: '' @ oa_text os ''realpath'' p)
      | Some canonical \<Rightarrow>
     (case file_kind t os canonical of
        Err error \<Rightarrow> refused error
      | Ok kind \<Rightarrow>
          if list_ex (\<lambda>resource. fr_canonical_path resource = canonical) (fd_resources (fg_document service)) then
            refused (''file resource '' @ quoted (path_display canonical) @ '' is already registered'')
          else
            (let resource = \<lparr>fr_resource_id = ''resource-'' @ uuid, fr_display_name = display_name_for canonical kind,
                   fr_kind = kind, fr_canonical_path = canonical, fr_created_at = now\<rparr>;
                 document = fg_document service;
                 (r, service', d') = save_registry fx io
                   (document\<lparr>fd_resources := fd_resources document @ [resource]\<rparr>) service d
             in (map_ok (\<lambda>_. resource) r, service', d')))))"

definition begin_removal ::
    "file_externals \<Rightarrow> io \<Rightarrow> resource_id \<Rightarrow> file_registry_service \<Rightarrow> disk
      \<Rightarrow> (file_resource_record, string) result \<times> file_registry_service \<times> disk" where
  "begin_removal fx io resource_id service d =
     (case find_resource service resource_id of
        None \<Rightarrow> (Err (''unknown file resource: '' @ resource_id), service, d)
      | Some resource \<Rightarrow>
          let document = fg_document service in
          if List.member (fd_pending_removals document) resource_id then (Ok resource, service, d)
          else
            (let (r, service', d') = save_registry fx io
               (document\<lparr>fd_pending_removals := fd_pending_removals document @ [resource_id]\<rparr>) service d
             in (map_ok (\<lambda>_. resource) r, service', d')))"

definition finalize_removal ::
    "file_externals \<Rightarrow> io \<Rightarrow> resource_id \<Rightarrow> file_registry_service \<Rightarrow> disk
      \<Rightarrow> (unit, string) result \<times> file_registry_service \<times> disk" where
  "finalize_removal fx io resource_id service d =
     (let document = fg_document service in
      save_registry fx io
        (document\<lparr>fd_resources := filter (\<lambda>resource. fr_resource_id resource \<noteq> resource_id) (fd_resources document),
           fd_pending_removals := filter (\<lambda>pending. pending \<noteq> resource_id) (fd_pending_removals document)\<rparr>) service d)"

definition file_broker_app_id :: app_id where
  "file_broker_app_id = ''com.ma-zierl.host.file-broker''"

definition validate_grant_data_scope :: "file_registry_service \<Rightarrow> grant_scope \<Rightarrow> data_scope \<Rightarrow> (unit, string) result" where
  "validate_grant_data_scope service scope data_scope =
     (if scope_provider scope \<noteq> file_broker_app_id then Ok ()
      else case data_scope of
        Resources resource_ids \<Rightarrow> for_each (\<lambda>i. map_ok (\<lambda>_. ()) (active_resource service i)) resource_ids
      | _ \<Rightarrow> Err ''File Broker permissions require a registered resource'')"

section \<open>Resolving a target\<close>

definition sanitize_relative_path :: "string \<Rightarrow> (path, string) result" where
  "sanitize_relative_path relative_path =
     (let components = filter (\<lambda>c. c \<noteq> [] \<and> c \<noteq> ''.'') (split_char (CHR ''/'') relative_path) in
      if prefix ''/'' relative_path \<or> List.member components ''..'' then Err (''invalid relative path: '' @ relative_path)
      else Ok components)"

definition ensure_within_root :: "path \<Rightarrow> path \<Rightarrow> (unit, string) result" where
  "ensure_within_root root target =
     (if prefix root target then Ok ()
      else Err (''path '' @ quoted (path_display target) @ '' escapes resource root '' @ quoted (path_display root)))"

definition canonicalize_or :: "fs \<Rightarrow> os_answers \<Rightarrow> path \<Rightarrow> (path, string) result" where
  "canonicalize_or t os p =
     ok_or (''canonicalize path '' @ quoted (path_display p) @ '' failed: '' @ oa_text os ''realpath'' p) (canonicalize t p)"

definition resolve_existing_within_root :: "fs \<Rightarrow> os_answers \<Rightarrow> path \<Rightarrow> path \<Rightarrow> (path, string) result" where
  "resolve_existing_within_root t os root target =
     bind_r (canonicalize_or t os target) (\<lambda>canonical.
     bind_r (ensure_within_root root canonical) (\<lambda>_. Ok canonical))"

definition resolve_parent_within_root :: "fs \<Rightarrow> os_answers \<Rightarrow> path \<Rightarrow> path \<Rightarrow> (path, string) result" where
  "resolve_parent_within_root t os root target =
     (if target = [] then Err (''path '' @ quoted (path_display target) @ '' has no parent directory'')
      else
      bind_r (canonicalize_or t os (butlast target)) (\<lambda>canonical_parent.
      bind_r (ensure_within_root root canonical_parent) (\<lambda>_. Ok (canonical_parent @ [last target]))))"

definition resolve_target ::
    "fs \<Rightarrow> os_answers \<Rightarrow> path \<Rightarrow> file_resource_kind \<Rightarrow> string option \<Rightarrow> bool \<Rightarrow> (path, string) result" where
  "resolve_target t os root kind relative_path write =
     bind_r (sanitize_relative_path (case relative_path of Some s \<Rightarrow> s | None \<Rightarrow> [])) (\<lambda>relative.
     if kind = KindFile then
       (if relative \<noteq> [] then Err ''file resources do not allow descendant paths'' else Ok root)
     else if relative = [] then
       (if write then Err ''directory resources require a descendant file path for writes'' else Ok root)
     else if write then resolve_parent_within_root t os root (root @ relative)
     else resolve_existing_within_root t os root (root @ relative))"

section \<open>Calls that change the tree\<close>

definition create_file :: "os_answers \<Rightarrow> path \<Rightarrow> string \<Rightarrow> fs \<Rightarrow> (unit, string) result \<times> fs" where
  "create_file os p content t =
     (let failed = (\<lambda>verb call. Err (verb @ '' temporary file '' @ quoted (path_display p) @ '' failed: '' @ oa_text os call p)) in
      case locate t p of
        None \<Rightarrow> (failed ''create'' ''open'', t)
      | Some q \<Rightarrow>
          if bt_get t q \<noteq> None \<or> oa_refuses os ''open'' p then (failed ''create'' ''open'', t)
          else if oa_refuses os ''write'' p then
            (failed ''write'' ''write'', bt_insert q (FileNode (take (oa_partial os) content)) t)
          else if oa_refuses os ''fsync'' p then (failed ''sync'' ''fsync'', bt_insert q (FileNode content) t)
          else (Ok (), bt_insert q (FileNode content) t))"

definition rename_node :: "os_answers \<Rightarrow> path \<Rightarrow> path \<Rightarrow> fs \<Rightarrow> (unit, string) result \<times> fs" where
  "rename_node os from_path to_path t =
     (case (locate t from_path, locate t to_path) of
        (Some a, Some b) \<Rightarrow>
          (case bt_get t a of
             None \<Rightarrow> (Err (oa_text os ''rename'' from_path), t)
           | Some node \<Rightarrow>
               if oa_refuses os ''rename'' from_path \<or> bt_get t b = Some DirNode then (Err (oa_text os ''rename'' from_path), t)
               else (Ok (), bt_insert b node (bt_remove a t)))
      | _ \<Rightarrow> (Err (oa_text os ''rename'' from_path), t))"

definition unlink :: "os_answers \<Rightarrow> path \<Rightarrow> fs \<Rightarrow> (unit, string) result \<times> fs" where
  "unlink os p t =
     (case locate t p of
        None \<Rightarrow> (Err (oa_text os ''unlink'' p), t)
      | Some q \<Rightarrow>
          if bt_get t q = None \<or> bt_get t q = Some DirNode \<or> oa_refuses os ''unlink'' p then (Err (oa_text os ''unlink'' p), t)
          else (Ok (), bt_remove q t))"

section \<open>Operations of the broker\<close>

definition max_read_bytes :: int where
  "max_read_bytes = 1024 * 1024"

definition max_write_bytes :: int where
  "max_write_bytes = 1024 * 1024"

definition max_write_base64_chars :: int where
  "max_write_base64_chars = 4 * ((max_write_bytes + 2) div 3)"

definition max_directory_entries :: nat where
  "max_directory_entries = 1024"

record file_entry_view =
  fe_path :: string
  fe_display_name :: string
  fe_kind :: file_entry_kind
  fe_size_bytes :: "int option"
  fe_modified_at :: "datetime option"

datatype file_view =
    FileListView resource_id file_resource_kind "file_entry_view list"
  | FileReadView resource_id string int int bool string string
      \<comment> \<open>path, bytes read, total bytes, truncated, hash, content\<close>
  | FileWriteView resource_id string int bool string
      \<comment> \<open>path, bytes written, replaced, hash\<close>
  | FileDeleteView resource_id string bool

definition entry_view :: "fs \<Rightarrow> os_answers \<Rightarrow> path \<Rightarrow> path \<Rightarrow> (file_entry_view, string) result" where
  "entry_view t os root p =
     (case inspect t p of
        None \<Rightarrow> Err (''inspect entry '' @ quoted (path_display p) @ '' failed: '' @ oa_text os ''lstat'' p)
      | Some node \<Rightarrow>
          Ok \<lparr>fe_path = (if prefix root p then str_join ''/'' (drop (length root) p) else path_display p),
            fe_display_name = path_file_name p,
            fe_kind = (case node of LinkNode _ _ \<Rightarrow> EntrySymlink | DirNode \<Rightarrow> EntryDirectory | FileNode _ \<Rightarrow> EntryFile
              | OtherNode \<Rightarrow> EntryOther),
            fe_size_bytes = (case node of FileNode bytes \<Rightarrow> Some (int (length bytes)) | _ \<Rightarrow> None),
            fe_modified_at = oa_modified_at os p\<rparr>)"

definition list_step ::
    "fs \<Rightarrow> os_answers \<Rightarrow> path \<Rightarrow> file_entry_view list \<Rightarrow> path \<Rightarrow> (file_entry_view list, string) result" where
  "list_step t os root entries p =
     (if length entries \<ge> max_directory_entries then
        Err ''directory contains more than 1024 entries; choose a narrower resource path''
      else map_ok (\<lambda>view. entries @ [view]) (entry_view t os root p))"

definition list_entries ::
    "fs \<Rightarrow> os_answers \<Rightarrow> file_registry_service \<Rightarrow> resource_id \<Rightarrow> string option \<Rightarrow> (file_view, string) result" where
  "list_entries t os service resource_id relative_path =
     bind_r (active_resource service resource_id) (\<lambda>resource.
     let root = fr_canonical_path resource in
     bind_r (resolve_target t os root (fr_kind resource) relative_path False) (\<lambda>target.
     case inspect t target of
       None \<Rightarrow> Err (''inspect resource target '' @ quoted (path_display target) @ '' failed: '' @ oa_text os ''lstat'' target)
     | Some (FileNode _) \<Rightarrow>
         map_ok (\<lambda>view. FileListView (fr_resource_id resource) (fr_kind resource) [view]) (entry_view t os root target)
     | Some DirNode \<Rightarrow>
         (case canonicalize t target of
            None \<Rightarrow> Err (''read directory '' @ quoted (path_display target) @ '' failed: '' @ oa_text os ''readdir'' target)
          | Some dir \<Rightarrow>
              let names = map last (oa_dir_order os (filter (\<lambda>q. q \<noteq> [] \<and> butlast q = dir) (bt_keys t))) in
              map_ok (\<lambda>entries. FileListView (fr_resource_id resource) (fr_kind resource) (sort_key fe_path entries))
                (try_fold (list_step t os root) [] (map (\<lambda>name. target @ [name]) names)))
     | Some _ \<Rightarrow> Err (''resource target '' @ quoted (path_display target) @ '' must be a file or directory'')))"

definition not_regular :: "path \<Rightarrow> string" where
  "not_regular target = ''resource target '' @ quoted (path_display target) @ '' is not a regular file''"

definition inspect_failed :: "os_answers \<Rightarrow> path \<Rightarrow> string" where
  "inspect_failed os target = ''inspect file '' @ quoted (path_display target) @ '' failed: '' @ oa_text os ''lstat'' target"

definition read_file ::
    "file_externals \<Rightarrow> fs \<Rightarrow> os_answers \<Rightarrow> file_registry_service \<Rightarrow> resource_id \<Rightarrow> string option \<Rightarrow> 64 word option
      \<Rightarrow> (file_view, string) result" where
  "read_file fx t os service resource_id relative_path limit_bytes =
     bind_r (active_resource service resource_id) (\<lambda>resource.
     bind_r (resolve_target t os (fr_canonical_path resource) (fr_kind resource) relative_path False) (\<lambda>target.
     if follow t target = None \<or> oa_refuses os ''open'' target then
       Err (''open file '' @ quoted (path_display target) @ '' failed: '' @ oa_text os ''open'' target)
     else case inspect t target of
       None \<Rightarrow> Err (inspect_failed os target)
     | Some (FileNode bytes) \<Rightarrow>
         if oa_refuses os ''read'' target then
           Err (''read file '' @ quoted (path_display target) @ '' failed: '' @ oa_text os ''read'' target)
         else
           (let limit = (case limit_bytes of Some v \<Rightarrow> min (uint v) max_read_bytes | None \<Rightarrow> max_read_bytes);
                buffer = take (nat (limit + 1)) bytes;
                truncated = int (length buffer) > limit;
                buffer = (if truncated then take (nat limit) buffer else buffer)
            in Ok (FileReadView (fr_resource_id resource) (case relative_path of Some s \<Rightarrow> s | None \<Rightarrow> [])
                 (int (length buffer)) (int (length bytes)) truncated (fx_sha256_hex fx buffer) (fx_base64_encode fx buffer)))
     | Some _ \<Rightarrow> Err (not_regular target)))"

definition sha256_of_file :: "file_externals \<Rightarrow> fs \<Rightarrow> os_answers \<Rightarrow> path \<Rightarrow> (string, string) result" where
  "sha256_of_file fx t os p =
     (case follow t p of
        Some (FileNode bytes) \<Rightarrow>
          if oa_refuses os ''open'' p then Err (''open file '' @ quoted (path_display p) @ '' failed: '' @ oa_text os ''open'' p)
          else if oa_refuses os ''read'' p then Err (''read file '' @ quoted (path_display p) @ '' failed: '' @ oa_text os ''read'' p)
          else Ok (fx_sha256_hex fx bytes)
      | _ \<Rightarrow> Err (''open file '' @ quoted (path_display p) @ '' failed: '' @ oa_text os ''open'' p))"

definition conflict_guard ::
    "file_externals \<Rightarrow> fs \<Rightarrow> os_answers \<Rightarrow> path \<Rightarrow> string option \<Rightarrow> (unit, string) result" where
  "conflict_guard fx t os target expected_sha256 =
     (case expected_sha256 of
        None \<Rightarrow> Ok ()
      | Some expected \<Rightarrow>
          bind_r (sha256_of_file fx t os target) (\<lambda>current.
          if current \<noteq> expected then
            Err (''SHA-256 conflict for '' @ quoted (path_display target) @ '': expected '' @ expected @ '', got '' @ current)
          else Ok ()))"

definition hidden_sibling :: "path \<Rightarrow> string \<Rightarrow> string \<Rightarrow> path" where
  "hidden_sibling target uuid extension = with_file_name target (''.'' @ path_file_name target @ ''.'' @ uuid @ extension)"

text \<open>The replacement itself: a complete temporary file, the old file moved aside, the rename, the clean-up.\<close>

definition replace_file ::
    "os_answers \<Rightarrow> path \<Rightarrow> bool \<Rightarrow> string \<Rightarrow> fs \<Rightarrow> (unit, string) result \<times> fs" where
  "replace_file os target replaced content t =
     (let temp_path = hidden_sibling target (oa_temp_uuid os) ''.tmp'';
          backup_path = hidden_sibling target (oa_backup_uuid os) ''.bak'' in
      case create_file os temp_path content t of
        (Err error, t1) \<Rightarrow> (Err error, t1)
      | (Ok _, t1) \<Rightarrow>
     (case (if replaced then rename_node os target backup_path t1 else (Ok (), t1)) of
        (Err error, t2) \<Rightarrow>
          (Err (''prepare replacement for '' @ quoted (path_display target) @ '' failed: '' @ error), snd (unlink os temp_path t2))
      | (Ok _, t2) \<Rightarrow>
     (case rename_node os temp_path target t2 of
        (Err error, t3) \<Rightarrow>
          (Err (''replace file '' @ quoted (path_display target) @ '' failed: '' @ error),
           snd (unlink os temp_path
             (if replaced then snd (unlink os backup_path (snd (rename_node os backup_path target t3))) else t3)))
      | (Ok _, t3) \<Rightarrow> (Ok (), if replaced then snd (unlink os backup_path t3) else t3))))"

definition write_file ::
    "file_externals \<Rightarrow> os_answers \<Rightarrow> file_registry_service \<Rightarrow> resource_id \<Rightarrow> string option \<Rightarrow> string \<Rightarrow> string option \<Rightarrow> fs
      \<Rightarrow> (file_view, string) result \<times> fs" where
  "write_file fx os service resource_id relative_path content_base64 expected_sha256 t =
     (let too_big = ''file content exceeds the 1048576-byte write limit'' in
      case (bind_r (active_resource service resource_id) (\<lambda>resource.
            bind_r (resolve_target t os (fr_canonical_path resource) (fr_kind resource) relative_path True) (\<lambda>target.
            if int (length content_base64) > max_write_base64_chars then Err too_big
            else
            bind_r (map_err (\<lambda>error. ''decode file content failed: '' @ error) (fx_base64_decode fx content_base64)) (\<lambda>content.
            if int (length content) > max_write_bytes then Err too_big
            else
            let replaced = (follow t target \<noteq> None) in
            bind_r (if replaced then
                (case inspect t target of
                   None \<Rightarrow> Err (inspect_failed os target)
                 | Some (FileNode _) \<Rightarrow> Ok ()
                 | Some _ \<Rightarrow> Err (not_regular target)) else Ok ()) (\<lambda>_.
            bind_r (if expected_sha256 \<noteq> None \<and> \<not> replaced
                then Err ''expected SHA-256 conflict guard requires an existing target''
                else conflict_guard fx t os target expected_sha256) (\<lambda>_.
            Ok (resource, target, content, replaced))))))) of
        Err error \<Rightarrow> (Err error, t)
      | Ok (resource, target, content, replaced) \<Rightarrow>
          (let (r, t') = replace_file os target replaced content t
           in (map_ok (\<lambda>_. FileWriteView (fr_resource_id resource) (case relative_path of Some s \<Rightarrow> s | None \<Rightarrow> [])
                 (int (length content)) replaced (fx_sha256_hex fx content)) r, t')))"

definition delete_file ::
    "file_externals \<Rightarrow> os_answers \<Rightarrow> file_registry_service \<Rightarrow> resource_id \<Rightarrow> string option \<Rightarrow> string option \<Rightarrow> fs
      \<Rightarrow> (file_view, string) result \<times> fs" where
  "delete_file fx os service resource_id relative_path expected_sha256 t =
     (case (bind_r (active_resource service resource_id) (\<lambda>resource.
            bind_r (resolve_target t os (fr_canonical_path resource) (fr_kind resource) relative_path True) (\<lambda>target.
            case inspect t target of
              None \<Rightarrow> Err (inspect_failed os target)
            | Some (FileNode _) \<Rightarrow>
                bind_r (conflict_guard fx t os target expected_sha256) (\<lambda>_. Ok (resource, target))
            | Some _ \<Rightarrow> Err (not_regular target)))) of
        Err error \<Rightarrow> (Err error, t)
      | Ok (resource, target) \<Rightarrow>
          (let (r, t') = unlink os target t
           in (map_ok (\<lambda>_. FileDeleteView (fr_resource_id resource) (case relative_path of Some s \<Rightarrow> s | None \<Rightarrow> []) True)
                 (map_err (\<lambda>error. ''delete file '' @ quoted (path_display target) @ '' failed: '' @ error) r), t')))"

section \<open>The broker's handlers\<close>

text \<open>A decoded request; which fields one has depends on the operation, as \<open>serde\<close> decodes it.\<close>

record file_request =
  fq_resource_id :: resource_id
  fq_relative_path :: "string option"
  fq_limit_bytes :: "64 word option"
  fq_content_base64 :: string
  fq_expected_sha256 :: "string option"

datatype file_operation = OpList | OpRead | OpWrite | OpDelete

definition ensure_authorized_resource :: "invocation_context \<Rightarrow> resource_id \<Rightarrow> (unit, string) result" where
  "ensure_authorized_resource context resource_id =
     (case ic_authorized_data_scope context of
        Resources resource_ids \<Rightarrow>
          if List.member resource_ids resource_id then Ok ()
          else Err (''resource scope mismatch: authorization did not include '' @ quoted resource_id)
      | _ \<Rightarrow> Err (''resource scope mismatch: authorization did not include '' @ quoted resource_id))"

definition file_handler ::
    "file_externals \<Rightarrow> (file_operation \<Rightarrow> json_object \<Rightarrow> (file_request, string) result) \<Rightarrow> (file_view \<Rightarrow> (json, string) result)
      \<Rightarrow> os_answers \<Rightarrow> file_registry_service \<Rightarrow> file_operation \<Rightarrow> json_object \<Rightarrow> invocation_context \<Rightarrow> fs
      \<Rightarrow> (capability_outcome, string) result \<times> fs" where
  "file_handler fx parse_request to_value os service operation input context t =
     (case bind_r (parse_request operation input) (\<lambda>request.
         bind_r (ensure_authorized_resource context (fq_resource_id request)) (\<lambda>_. Ok request)) of
        Err error \<Rightarrow> (Err error, t)
      | Ok request \<Rightarrow>
          (let (view, t') = (case operation of
               OpList \<Rightarrow> (list_entries t os service (fq_resource_id request) (fq_relative_path request), t)
             | OpRead \<Rightarrow> (read_file fx t os service (fq_resource_id request) (fq_relative_path request) (fq_limit_bytes request), t)
             | OpWrite \<Rightarrow> write_file fx os service (fq_resource_id request) (fq_relative_path request) (fq_content_base64 request)
                 (fq_expected_sha256 request) t
             | OpDelete \<Rightarrow> delete_file fx os service (fq_resource_id request) (fq_relative_path request)
                 (fq_expected_sha256 request) t)
           in (bind_r view (\<lambda>v. map_ok (\<lambda>json. \<lparr>oc_result = json, oc_artifacts = []\<rparr>) (to_value v)), t')))"

definition invocation_data_scope :: "capability_ref \<Rightarrow> json_object \<Rightarrow> data_scope" where
  "invocation_data_scope capability input =
     (if cr_provider capability \<noteq> file_broker_app_id then ScopeNone
      else case map_of input ''resource_id'' of
        Some (JString resource_id) \<Rightarrow> Resources [resource_id]
      | _ \<Rightarrow> ScopeNone)"

section \<open>Canonical paths\<close>

text \<open>A path of real directories: no link and no dot on the way.\<close>

definition dir_path :: "fs \<Rightarrow> path \<Rightarrow> bool" where
  "dir_path t p \<longleftrightarrow> set p \<inter> {[], ''.'', ''..''} = {} \<and> (\<forall>k. 0 < k \<and> k \<le> length p \<longrightarrow> bt_get t (take k p) = Some DirNode)"

lemma dir_path_Nil [simp]: "dir_path t []"
  by (simp add: dir_path_def)

lemma dir_path_snoc:
  "dir_path t (p @ [c]) \<longleftrightarrow> dir_path t p \<and> c \<notin> {[], ''.'', ''..''} \<and> bt_get t (p @ [c]) = Some DirNode"
proof
  assume full: "dir_path t (p @ [c])"
  have "bt_get t (take k p) = Some DirNode" if "0 < k" "k \<le> length p" for k
    using full that by (auto simp: dir_path_def dest: spec[of _ k])
  with full show "dir_path t p \<and> c \<notin> {[], ''.'', ''..''} \<and> bt_get t (p @ [c]) = Some DirNode"
    unfolding dir_path_def by (auto dest: spec[of _ "Suc (length p)"])
next
  assume parts: "dir_path t p \<and> c \<notin> {[], ''.'', ''..''} \<and> bt_get t (p @ [c]) = Some DirNode"
  have "bt_get t (take k (p @ [c])) = Some DirNode" if "0 < k" "k \<le> Suc (length p)" for k
    using parts that by (cases "k = Suc (length p)") (auto simp: dir_path_def)
  with parts show "dir_path t (p @ [c])" by (auto simp: dir_path_def)
qed

lemma dir_path_append: "dir_path t (p @ q) \<Longrightarrow> dir_path t p"
proof (induction q rule: rev_induct)
  case (snoc c q)
  then show ?case using dir_path_snoc[of t "p @ q" c] by simp
qed simp

lemma dir_path_butlast: "dir_path t p \<Longrightarrow> dir_path t (butlast p)"
  by (cases p rule: rev_cases) (simp_all add: dir_path_snoc)

definition real_node :: "fs \<Rightarrow> path \<Rightarrow> bool" where
  "real_node t p \<longleftrightarrow> p = [] \<or> dir_path t (butlast p) \<and> last p \<notin> {[], ''.'', ''..''} \<and>
     (\<exists>node. bt_get t p = Some node \<and> (\<forall>absolute target. node \<noteq> LinkNode absolute target))"

lemma dir_path_real: "dir_path t p \<Longrightarrow> real_node t p"
  by (cases p rule: rev_cases) (simp_all add: dir_path_snoc real_node_def)

lemma resolve_real: "resolve_links fuel t visited rest = Some q \<Longrightarrow> dir_path t visited \<Longrightarrow> real_node t q"
proof (induction fuel t visited rest rule: resolve_links.induct)
  case (2 fuel t visited c rest)
  show ?case
  proof (cases "c = [] \<or> c = ''.'' \<or> c = ''..''")
    case True
    with 2 show ?thesis by (auto simp: dir_path_butlast split: if_splits)
  next
    case False
    then obtain node where node: "bt_get t (visited @ [c]) = Some node"
      using 2(5) by (auto split: option.splits)
    show ?thesis
    proof (cases node)
      case (LinkNode absolute target)
      then obtain fuel' where "fuel = Suc fuel'" using False node 2(5) by (cases fuel) auto
      with LinkNode False node 2(4) 2(5,6) show ?thesis by (cases absolute) auto
    next
      case DirNode
      with False node 2(3) 2(5,6) show ?thesis by (auto simp: dir_path_snoc)
    qed (use False node 2(5,6) in \<open>auto simp: real_node_def split: if_splits\<close>)
  qed
qed (simp add: dir_path_real)

lemma resolve_through:
  "dir_path t (visited @ rest) \<Longrightarrow> resolve_links fuel t visited (rest @ final) = resolve_links fuel t (visited @ rest) final"
proof (induction rest arbitrary: visited)
  case (Cons c rest)
  have "dir_path t (visited @ [c])" using dir_path_append[of t "visited @ [c]" rest] Cons.prems by simp
  then show ?case using Cons.IH[of "visited @ [c]"] Cons.prems by (auto simp: dir_path_snoc)
qed simp

lemma canonicalize_real: "canonicalize t p = Some q \<Longrightarrow> real_node t q"
  unfolding canonicalize_def by (rule resolve_real) auto

lemma canonicalize_dir_path: "dir_path t p \<Longrightarrow> canonicalize t p = Some p"
  using resolve_through[of t "[]" p 40 "[]"] by (simp add: canonicalize_def)

lemma locate_snoc:
  "locate t (p @ [x]) = Option.bind (canonicalize t p) (\<lambda>parent.
     if parent = [] \<or> bt_get t parent = Some DirNode then Some (parent @ [x]) else None)"
  by (cases "canonicalize t p") (simp_all add: locate_def)

lemma locate_dir_path: "dir_path t p \<Longrightarrow> locate t (p @ [x]) = Some (p @ [x])"
proof -
  assume p: "dir_path t p"
  have "p = [] \<or> bt_get t p = Some DirNode" using p by (cases p rule: rev_cases) (simp_all add: dir_path_snoc)
  with canonicalize_dir_path[OF p] show ?thesis by (simp add: locate_def)
qed

text \<open>A canonical path is a directory on the way to something, or nothing lies below it.\<close>

lemma canonical_parent_cases:
  assumes "canonicalize t p = Some parent"
  shows "dir_path t parent \<or> (\<forall>x. locate t (parent @ [x]) = None)"
proof (cases "dir_path t parent")
  case False
  from canonicalize_real[OF assms] False obtain q c node where parent: "parent = q @ [c]" "dir_path t q"
      "c \<notin> {[], ''.'', ''..''}" "bt_get t parent = Some node" "\<forall>absolute target. node \<noteq> LinkNode absolute target"
    by (cases parent rule: rev_cases) (auto simp: real_node_def)
  then have "node \<noteq> DirNode" using False by (auto simp: dir_path_snoc)
  have "canonicalize t parent = Some parent \<or> canonicalize t parent = None"
    using resolve_through[of t "[]" q 40 "[c]"] parent \<open>node \<noteq> DirNode\<close> by (cases node) (auto simp: canonicalize_def)
  moreover have "parent \<noteq> []" using parent(1) by simp
  ultimately show ?thesis using parent(4) \<open>node \<noteq> DirNode\<close> by (auto simp: locate_snoc)
qed simp

section \<open>What a call may change\<close>

definition changes_in :: "path \<Rightarrow> string set \<Rightarrow> fs \<Rightarrow> fs \<Rightarrow> bool" where
  "changes_in parent names t t' \<longleftrightarrow> (\<forall>q. bt_get t' q \<noteq> bt_get t q \<longrightarrow> (\<exists>x\<in>names. q = parent @ [x]))"

lemma changes_refl [simp]: "changes_in parent names t t"
  by (simp add: changes_in_def)

lemma changes_trans: "changes_in parent names t t' \<Longrightarrow> changes_in parent names t' t'' \<Longrightarrow> changes_in parent names t t''"
  unfolding changes_in_def
proof (intro allI impI)
  fix q assume steps: "\<forall>q. bt_get t' q \<noteq> bt_get t q \<longrightarrow> (\<exists>x\<in>names. q = parent @ [x])"
      "\<forall>q. bt_get t'' q \<noteq> bt_get t' q \<longrightarrow> (\<exists>x\<in>names. q = parent @ [x])" and "bt_get t'' q \<noteq> bt_get t q"
  then have "bt_get t'' q \<noteq> bt_get t' q \<or> bt_get t' q \<noteq> bt_get t q" by auto
  with steps show "\<exists>x\<in>names. q = parent @ [x]" by blast
qed

lemma changes_mono: "changes_in parent names t t' \<Longrightarrow> names \<subseteq> names' \<Longrightarrow> changes_in parent names' t t'"
  unfolding changes_in_def by blast

lemma changes_dir_path:
  assumes "changes_in parent names t t'" "dir_path t parent"
  shows "dir_path t' parent"
proof -
  have "take k parent \<noteq> parent @ [x]" for k x
  proof
    assume "take k parent = parent @ [x]"
    then have "length (take k parent) = Suc (length parent)" by simp
    then show False by simp
  qed
  then have "bt_get t' (take k parent) = bt_get t (take k parent)" for k
    using assms(1) by (auto simp: changes_in_def)
  with assms(2) show ?thesis by (simp add: dir_path_def)
qed

lemma create_changes: "dir_path t parent \<Longrightarrow> create_file os (parent @ [x]) content t = (r, t') \<Longrightarrow> changes_in parent {x} t t'"
  by (auto simp: create_file_def locate_dir_path changes_in_def bt_get_insert Let_def split: if_splits)

lemma rename_changes:
  "dir_path t parent \<Longrightarrow> rename_node os (parent @ [x]) (parent @ [y]) t = (r, t') \<Longrightarrow> changes_in parent {x, y} t t'"
  by (auto simp: rename_node_def locate_dir_path changes_in_def bt_get_insert bt_get_remove split: if_splits option.splits)

lemma unlink_changes: "dir_path t parent \<Longrightarrow> unlink os (parent @ [x]) t = (r, t') \<Longrightarrow> changes_in parent {x} t t'"
  by (auto simp: unlink_def locate_dir_path changes_in_def bt_get_remove split: if_splits option.splits)

lemma hidden_sibling_eq: "hidden_sibling (parent @ [x]) uuid extension = parent @ [''.'' @ x @ ''.'' @ uuid @ extension]"
  by (simp add: hidden_sibling_def with_file_name_def path_file_name_def)

definition touched_names :: "os_answers \<Rightarrow> string \<Rightarrow> string set" where
  "touched_names os x = {x, ''.'' @ x @ ''.'' @ oa_temp_uuid os @ ''.tmp'', ''.'' @ x @ ''.'' @ oa_backup_uuid os @ ''.bak''}"

lemma replace_changes:
  assumes "dir_path t parent" "replace_file os (parent @ [x]) replaced content t = (r, t')"
  shows "changes_in parent (touched_names os x) t t'"
proof -
  let ?N = "touched_names os x"
  let ?temp = "''.'' @ x @ ''.'' @ oa_temp_uuid os @ ''.tmp''"
  let ?backup = "''.'' @ x @ ''.'' @ oa_backup_uuid os @ ''.bak''"
  have names: "x \<in> ?N" "?temp \<in> ?N" "?backup \<in> ?N" by (simp_all add: touched_names_def)
  have rename: "changes_in parent ?N t u' \<and> dir_path u' parent"
    if "changes_in parent ?N t u \<and> dir_path u parent" "rename_node os (parent @ [a]) (parent @ [b]) u = (s, u')" "a \<in> ?N" "b \<in> ?N"
    for u a b s u'
    using that rename_changes[of u parent os a b s u'] changes_mono[of parent "{a, b}" u u' ?N] changes_trans changes_dir_path
      assms(1) by blast
  have unlink: "changes_in parent ?N t u' \<and> dir_path u' parent"
    if "changes_in parent ?N t u \<and> dir_path u parent" "unlink os (parent @ [a]) u = (s, u')" "a \<in> ?N" for u a s u'
    using that unlink_changes[of u parent os a s u'] changes_mono[of parent "{a}" u u' ?N] changes_trans changes_dir_path
      assms(1) by blast
  obtain r1 t1 where create: "create_file os (parent @ [?temp]) content t = (r1, t1)" by force
  have one: "changes_in parent ?N t t1 \<and> dir_path t1 parent"
    using create_changes[OF assms(1) create] changes_mono names(2) changes_dir_path assms(1) by blast
  obtain r2 t2 where backup: "(if replaced then rename_node os (parent @ [x]) (parent @ [?backup]) t1 else (Ok (), t1)) = (r2, t2)" by force
  have two: "changes_in parent ?N t t2 \<and> dir_path t2 parent"
    using backup rename[OF one _ names(1,3)] one by (cases replaced) auto
  obtain r3 t3 where move: "rename_node os (parent @ [?temp]) (parent @ [x]) t2 = (r3, t3)" by force
  have three: "changes_in parent ?N t t3 \<and> dir_path t3 parent" using rename[OF two move names(2,1)] .
  have unlinks: "changes_in parent ?N t (snd (unlink os (parent @ [a]) u)) \<and> dir_path (snd (unlink os (parent @ [a]) u)) parent"
    if "changes_in parent ?N t u \<and> dir_path u parent" "a \<in> ?N" for u a
    using unlink[OF that(1) prod.collapse[symmetric] that(2)] .
  have restored: "changes_in parent ?N t (snd (rename_node os (parent @ [?backup]) (parent @ [x]) t3)) \<and>
      dir_path (snd (rename_node os (parent @ [?backup]) (parent @ [x]) t3)) parent"
    using rename[OF three prod.collapse[symmetric] names(3,1)] .
  have "t' \<in> {t1, snd (unlink os (parent @ [?temp]) t2), snd (unlink os (parent @ [?backup]) t3), t3,
      snd (unlink os (parent @ [?temp]) t3),
      snd (unlink os (parent @ [?temp]) (snd (unlink os (parent @ [?backup]) (snd (rename_node os (parent @ [?backup]) (parent @ [x]) t3)))))}"
    using assms(2) create backup move
    unfolding replace_file_def Let_def hidden_sibling_eq by (cases r1; cases r2; cases r3; cases replaced) auto
  then show ?thesis
    using one three unlinks[OF two names(2)] unlinks[OF three names(3)] unlinks[OF three names(2)]
      unlinks[OF unlinks[OF restored names(3)] names(2)] by auto
qed

section \<open>Targets stay inside\<close>

lemma write_target:
  assumes "resolve_target t os root kind relative True = Ok target"
  obtains "kind = KindFile" "target = root"
  | p parent x where "kind = KindDirectory" "target = parent @ [x]" "canonicalize t p = Some parent" "prefix root parent"
  using assms
  by (auto simp: resolve_target_def bind_r_Ok_iff resolve_parent_within_root_def canonicalize_or_def ensure_within_root_def
      split: if_splits)
    (cases kind; blast)

lemma read_target:
  assumes "resolve_target t os root kind relative False = Ok target"
  obtains "target = root" | p where "kind = KindDirectory" "canonicalize t p = Some target" "prefix root target"
  using assms
  by (auto simp: resolve_target_def bind_r_Ok_iff resolve_existing_within_root_def canonicalize_or_def ensure_within_root_def
      split: if_splits)
    (cases kind; blast)

lemma no_parent_no_change:
  assumes "\<forall>y. locate t (parent @ [y]) = None"
  shows "snd (replace_file os (parent @ [x]) replaced content t) = t" "snd (unlink os (parent @ [x]) t) = t"
  using assms by (simp_all add: replace_file_def Let_def hidden_sibling_eq create_file_def unlink_def)

definition shared_files_in_place :: "fs \<Rightarrow> file_registry_service \<Rightarrow> bool" where
  "shared_files_in_place t service \<longleftrightarrow> (\<forall>resource\<in>set (fd_resources (fg_document service)).
     fr_kind resource = KindFile \<longrightarrow> fr_canonical_path resource \<noteq> [] \<and>
       canonicalize t (fr_canonical_path resource) = Some (fr_canonical_path resource))"

text \<open>Where an operation on a resource may change the tree.\<close>

definition within_resource :: "os_answers \<Rightarrow> fs \<Rightarrow> file_resource_record \<Rightarrow> path \<Rightarrow> bool" where
  "within_resource os t resource q \<longleftrightarrow> q \<noteq> [] \<and> dir_path t (butlast q) \<and>
     (let root = fr_canonical_path resource in
      case fr_kind resource of
        KindDirectory \<Rightarrow> strict_prefix root q
      | KindFile \<Rightarrow> butlast q = butlast root \<and> last q \<in> touched_names os (last root))"

lemma active_resource_in: "active_resource service i = Ok resource \<Longrightarrow> resource \<in> set (fd_resources (fg_document service))"
  by (auto simp: active_resource_def bind_r_Ok_iff find_resource_def find_Some_iff split: if_splits)

lemma target_changes:
  assumes resource: "active_resource service i = Ok resource" and place: "shared_files_in_place t service"
    and target: "resolve_target t os (fr_canonical_path resource) (fr_kind resource) relative True = Ok target"
    and step: "t' = snd (replace_file os target replaced content t) \<or> t' = snd (unlink os target t)"
    and q: "bt_get t' q \<noteq> bt_get t q"
  shows "within_resource os t resource q"
proof -
  have inside: "\<exists>y\<in>touched_names os x. q = parent @ [y]" if "target = parent @ [x]" "dir_path t parent" for parent x
  proof -
    have "changes_in parent (touched_names os x) t t'"
      using step replace_changes[OF that(2) prod.collapse[symmetric]] unlink_changes[OF that(2) prod.collapse[symmetric]]
        changes_mono[of parent "{x}" t t' "touched_names os x"]
      by (auto simp: that(1) touched_names_def)
    with q show ?thesis by (auto simp: changes_in_def)
  qed
  have reached: "dir_path t parent" if "target = parent @ [x]" "canonicalize t p = Some parent" for parent x p
    using canonical_parent_cases[OF that(2)] no_parent_no_change[of t parent] step q that(1) by auto
  from target show ?thesis
  proof (rule write_target)
    assume file_target: "fr_kind resource = KindFile" "target = fr_canonical_path resource"
    have root: "target \<noteq> []" "canonicalize t target = Some target"
      using place active_resource_in[OF resource] file_target by (auto simp: shared_files_in_place_def)
    then have "dir_path t (butlast target)" using canonicalize_real[OF root(2)] by (simp add: real_node_def)
    with inside[of "butlast target" "last target"] root(1) file_target show ?thesis
      by (auto simp: within_resource_def)
  next
    fix p parent x
    assume below: "fr_kind resource = KindDirectory" "target = parent @ [x]" "canonicalize t p = Some parent"
      "prefix (fr_canonical_path resource) parent"
    have parent: "dir_path t parent" using reached below(2,3) by blast
    with inside below(2) obtain y where "q = parent @ [y]" by blast
    with parent below(1,4) show ?thesis
      by (auto simp: within_resource_def Let_def strict_prefix_def)
  qed
qed

lemma write_file_steps:
  assumes "write_file fx os service i relative content64 expected t = (r, t')" "t' \<noteq> t"
  obtains resource target replaced content where "active_resource service i = Ok resource"
    "resolve_target t os (fr_canonical_path resource) (fr_kind resource) relative True = Ok target"
    "t' = snd (replace_file os target replaced content t)"
  using assms
  by (auto simp: write_file_def Let_def bind_r_Ok_iff split: result.splits prod.splits if_splits)
    (metis snd_conv)+

lemma delete_file_steps:
  assumes "delete_file fx os service i relative expected t = (r, t')" "t' \<noteq> t"
  obtains resource target where "active_resource service i = Ok resource"
    "resolve_target t os (fr_canonical_path resource) (fr_kind resource) relative True = Ok target"
    "t' = snd (unlink os target t)"
  using assms
  by (auto simp: delete_file_def Let_def bind_r_Ok_iff split: result.splits prod.splits option.splits fs_node.splits)

lemma file_handler_Ok_request:
  assumes "file_handler fx parse to_value os service operation input context t = (r, t')" "is_ok r \<or> t' \<noteq> t"
  obtains request ids where "parse operation input = Ok request" "ic_authorized_data_scope context = Resources ids"
    "fq_resource_id request \<in> set ids"
  using assms
  by (auto simp: file_handler_def ensure_authorized_resource_def bind_r_Ok_iff
      split: result.splits data_scope.splits if_splits)

section \<open>A shared folder\<close>

definition sample_fs :: fs where
  "sample_fs = bt_of_list [([''s''], DirNode), ([''s'', ''a''], FileNode ''old'')]"

definition sample_resource :: file_resource_record where
  "sample_resource = \<lparr>fr_resource_id = ''r'', fr_display_name = ''s'', fr_kind = KindDirectory,
     fr_canonical_path = [''s''], fr_created_at = 0\<rparr>"

definition sample_service :: file_registry_service where
  "sample_service = \<lparr>fg_path = [''registry''], fg_document = \<lparr>fd_version = 1, fd_resources = [sample_resource],
     fd_pending_removals = []\<rparr>\<rparr>"

definition sample_os :: "(string \<Rightarrow> path \<Rightarrow> bool) \<Rightarrow> os_answers" where
  "sample_os refuses = \<lparr>oa_refuses = refuses, oa_text = (\<lambda>call _. call), oa_partial = 0, oa_temp_uuid = ''1'',
     oa_backup_uuid = ''2'', oa_modified_at = (\<lambda>_. None), oa_dir_order = id\<rparr>"

definition sample_file_externals :: file_externals where
  "sample_file_externals = \<lparr>fx_base64_decode = Ok, fx_base64_encode = id, fx_sha256_hex = id,
     fx_document_json = (\<lambda>_. Ok ''registry'')\<rparr>"

definition sample_write_at :: "(string \<Rightarrow> path \<Rightarrow> bool) \<Rightarrow> string \<Rightarrow> (file_view, string) result \<times> fs" where
  "sample_write_at refuses relative =
     write_file sample_file_externals (sample_os refuses) sample_service ''r'' (Some relative) ''new'' None sample_fs"

text \<open>The renames from the temporary file and from the backup fail; removing files works.\<close>

definition renames_refused :: "string \<Rightarrow> path \<Rightarrow> bool" where
  "renames_refused call p \<longleftrightarrow> call = ''rename'' \<and> last p \<noteq> ''a''"

lemma sample_broker_runs:
  "fst (sample_write_at (\<lambda>_ _. False) ''./a'') = Ok (FileWriteView ''r'' ''./a'' 3 True ''new'')"
  "bt_entries (snd (sample_write_at (\<lambda>_ _. False) ''./a'')) = [([''s''], DirNode), ([''s'', ''a''], FileNode ''new'')]"
  "active_resource sample_service ''r'' = Ok sample_resource"
  "resolve_target sample_fs (sample_os (\<lambda>_ _. False)) [''s''] KindDirectory (Some ''./a'') False = Ok [''s'', ''a'']"
  "follow sample_fs [''s'', ''a''] = Some (FileNode ''old'')" "inspect sample_fs [''s'', ''a''] = Some (FileNode ''old'')"
  by code_simp+

text \<open>A link in the shared folder does not lead out of it.\<close>

lemma link_is_refused:
  "is_ok (resolve_target (bt_of_list [([''k''], DirNode), ([''s''], DirNode), ([''s'', ''l''], LinkNode True [''k''])])
     (sample_os (\<lambda>_ _. False)) [''s''] KindDirectory (Some ''l/x'') True) = False"
  by code_simp

lemma sample_broker_reads:
  "read_file sample_file_externals sample_fs (sample_os (\<lambda>_ _. False)) sample_service ''r'' (Some ''./a'') (Some 2) =
     Ok (FileReadView ''r'' ''./a'' 2 3 True ''ol'' ''ol'')"
  using sample_broker_runs(3-6)
  by (simp add: read_file_def sample_resource_def sample_os_def sample_file_externals_def max_read_bytes_def Let_def)


definition sample_broker_request :: file_request where
  "sample_broker_request = \<lparr>fq_resource_id = ''r'', fq_relative_path = Some ''./a'', fq_limit_bytes = Some 2,
     fq_content_base64 = ''new'', fq_expected_sha256 = None\<rparr>"

definition sample_context :: "data_scope \<Rightarrow> invocation_context" where
  "sample_context scope = \<lparr>ic_run_id = ''u'', ic_invoked_by = ''app'', ic_invoked_by_version = ''1'',
     ic_invoked_by_content_hash = ''h'', ic_authorized_data_scope = scope,
     ic_secrets = \<lparr>sv_declared = bt_empty, sv_secrets = bt_empty\<rparr>, ic_artifacts = \<lparr>sn_artifacts = bt_empty\<rparr>,
     ic_cancellation = \<lparr>ca_cell = 1, ca_deadline = 9\<rparr>, ic_progress = default_reporter\<rparr>"



lemma read_window:
  assumes "0 \<le> limit"
  shows "(int (length (take (nat (limit + 1)) bytes)) > limit) = (int (length bytes) > limit)"
    and "take (nat limit) (take (nat (limit + 1)) bytes) = take (nat limit) bytes"
    and "\<not> int (length bytes) > limit \<Longrightarrow> take (nat (limit + 1)) bytes = take (nat limit) bytes"
proof -
  have "nat (limit + 1) = Suc (nat limit)" using assms by simp
  then show "(int (length (take (nat (limit + 1)) bytes)) > limit) = (int (length bytes) > limit)"
    "take (nat limit) (take (nat (limit + 1)) bytes) = take (nat limit) bytes"
    "\<not> int (length bytes) > limit \<Longrightarrow> take (nat (limit + 1)) bytes = take (nat limit) bytes"
    using assms by (auto simp: min_def)
qed

text \<open>C28: A read through the File Broker returns bytes only for a resource that the kernel authorized for
  this invocation and that is registered and not being removed. The bytes are the beginning, of at
  most one mebibyte and at most the requested length, of one regular file, which is the shared path
  itself or lies below the root of the shared folder in a directory reached without passing a link;
  the answer says how long the file is and whether it was cut.\<close>

theorem brokered_read_is_confined:
  assumes "file_handler fx parse to_value os service OpRead input context t = (Ok outcome, t')"
  shows "\<exists>request ids resource location bytes limit. parse OpRead input = Ok request \<and>
    ic_authorized_data_scope context = Resources ids \<and> fq_resource_id request \<in> set ids \<and>
    active_resource service (fq_resource_id request) = Ok resource \<and>
    bt_get t location = Some (FileNode bytes) \<and>
    (locate t (fr_canonical_path resource) = Some location \<or>
     fr_kind resource = KindDirectory \<and> prefix (fr_canonical_path resource) location \<and> dir_path t (butlast location)) \<and>
    limit \<le> max_read_bytes \<and> (\<forall>v. fq_limit_bytes request = Some v \<longrightarrow> limit \<le> uint v) \<and>
    to_value (FileReadView (fr_resource_id resource) (case fq_relative_path request of Some s \<Rightarrow> s | None \<Rightarrow> [])
      (int (length (take (nat limit) bytes))) (int (length bytes)) (int (length bytes) > limit)
      (fx_sha256_hex fx (take (nat limit) bytes)) (fx_base64_encode fx (take (nat limit) bytes))) = Ok (oc_result outcome)"
proof -
  obtain request ids where request: "parse OpRead input = Ok request"
      "ic_authorized_data_scope context = Resources ids" "fq_resource_id request \<in> set ids"
    using file_handler_Ok_request[OF assms] by auto
  let ?i = "fq_resource_id request"
  have "ensure_authorized_resource context ?i = Ok ()" using request(2,3) by (simp add: ensure_authorized_resource_def)
  then obtain view where view: "read_file fx t os service ?i (fq_relative_path request) (fq_limit_bytes request) = Ok view"
      "to_value view = Ok (oc_result outcome)"
    using assms request(1) by (auto simp: file_handler_def bind_r_Ok_iff)
  obtain resource target bytes where read: "active_resource service ?i = Ok resource"
      "resolve_target t os (fr_canonical_path resource) (fr_kind resource) (fq_relative_path request) False = Ok target"
      "inspect t target = Some (FileNode bytes)"
    using view(1) by (auto simp: read_file_def bind_r_Ok_iff Let_def split: if_splits option.splits fs_node.splits)
  define limit where "limit = (case fq_limit_bytes request of Some v \<Rightarrow> min (uint v) max_read_bytes | None \<Rightarrow> max_read_bytes)"
  have limit: "0 \<le> limit" "limit \<le> max_read_bytes" "\<forall>v. fq_limit_bytes request = Some v \<longrightarrow> limit \<le> uint v"
    by (auto simp: limit_def max_read_bytes_def split: option.splits)
  have "view = FileReadView (fr_resource_id resource) (case fq_relative_path request of Some s \<Rightarrow> s | None \<Rightarrow> [])
      (int (length (take (nat limit) bytes))) (int (length bytes)) (int (length bytes) > limit)
      (fx_sha256_hex fx (take (nat limit) bytes)) (fx_base64_encode fx (take (nat limit) bytes))"
    using view(1) read limit(1) read_window[OF limit(1), of bytes]
    by (auto simp: read_file_def limit_def[symmetric] Let_def split: if_splits)
  moreover obtain location where "locate t target = Some location" "bt_get t location = Some (FileNode bytes)"
    using read(3) by (auto simp: inspect_def bind_eq_Some_conv split: if_splits)
  moreover have "target = fr_canonical_path resource \<or>
      fr_kind resource = KindDirectory \<and> prefix (fr_canonical_path resource) location \<and> dir_path t (butlast location)"
    using read(2)
  proof (rule read_target)
    fix p assume below: "fr_kind resource = KindDirectory" "canonicalize t p = Some target" "prefix (fr_canonical_path resource) target"
    have "target \<noteq> []" using read(3) by (auto simp: inspect_def)
    with canonicalize_real[OF below(2)] have "dir_path t (butlast target)" by (simp add: real_node_def)
    with locate_dir_path[of t "butlast target" "last target"] \<open>target \<noteq> []\<close> \<open>locate t target = Some location\<close>
    have "location = target" by simp
    with below \<open>dir_path t (butlast target)\<close> show ?thesis by simp
  qed simp
  ultimately show ?thesis using request read(1) limit(2,3) view(2) by blast
qed

theorem brokered_read_is_confined_witness:
  "\<exists>(request :: file_request) ids resource location bytes. ic_authorized_data_scope (sample_context (Resources [''r''])) = Resources ids \<and>
    fq_resource_id request \<in> set ids \<and> active_resource sample_service (fq_resource_id request) = Ok resource \<and>
    bt_get sample_fs location = Some (FileNode bytes)"
proof -
  have "file_handler sample_file_externals (\<lambda>_ _. Ok sample_broker_request) (\<lambda>_. Ok JNull) (sample_os (\<lambda>_ _. False)) sample_service
      OpRead [] (sample_context (Resources [''r''])) sample_fs = (Ok \<lparr>oc_result = JNull, oc_artifacts = []\<rparr>, sample_fs)"
    using sample_broker_reads
    by (simp add: file_handler_def ensure_authorized_resource_def sample_context_def sample_broker_request_def)
  from brokered_read_is_confined[OF this] show ?thesis by blast
qed

end
