(* ===== verification/Artifacts_App.thy ===== *)
theory Artifacts_App
  imports Mcp_Wire Kernel_Grants Invocation
begin

text \<open>
  \<open>artifacts_app.rs\<close>: the built-in app through which other apps list and read artifacts. The grants
  it asks for, which artifacts an app may see, the tools offered for them, and the two handlers.
  \<open>serde\<close>'s decoding of a request and encoding of an answer are parameters. Shown: what a listing
  shows is granted.
\<close>

definition artifacts_app_id :: app_id where
  "artifacts_app_id = ''com.ma-zierl.kestral-artifacts''"

definition artifacts_query :: capability_name where
  "artifacts_query = ''artifacts.query''"

definition artifacts_read :: capability_name where
  "artifacts_read = ''artifacts.read''"

section \<open>Granting access\<close>

datatype artifact_access_target =
    TargetArtifact artifact_id
  | AllArtifacts

fun target_data_scope :: "artifact_access_target \<Rightarrow> data_scope kernel_result" where
  "target_data_scope (TargetArtifact artifact_id) = ds_resources [artifact_id]"
| "target_data_scope AllArtifacts = Ok AllResources"

fun target_reason :: "artifact_access_target \<Rightarrow> app_id \<Rightarrow> string" where
  "target_reason (TargetArtifact _) holder = ''allow '' @ holder @ '' to list and read this artifact''"
| "target_reason AllArtifacts holder = ''allow '' @ holder @ '' to list and read all current and future artifacts''"

text \<open>The \<open>expect\<close> of \<open>data_scope\<close> is the error of the result; \<open>target_scope_valid\<close> shows it does not occur.\<close>

definition artifact_access_grant_requests :: "app_id \<Rightarrow> artifact_access_target \<Rightarrow> grant_request list kernel_result" where
  "artifact_access_grant_requests holder target =
     try_map (\<lambda>capability. bind_r (target_data_scope target) (\<lambda>data_scope.
       Ok \<lparr>rq_scope = ExactCapability artifacts_app_id capability, rq_data_scope = data_scope,
           rq_condition = RequiresApproval, rq_reason = target_reason target holder, rq_duration = NonExpiring\<rparr>))
       [artifacts_query, artifacts_read]"

definition validate_access_target :: "kernel \<Rightarrow> artifact_access_target \<Rightarrow> (unit, string) result" where
  "validate_access_target k target =
     (case target of
        AllArtifacts \<Rightarrow> Ok ()
      | TargetArtifact artifact_id \<Rightarrow>
          if list_ex (\<lambda>a. at_artifact_id a = artifact_id) (artifact_all (k_artifacts k)) then Ok ()
          else Err (''unknown artifact '' @ quoted artifact_id))"

definition validate_artifact_grant_scope :: "kernel \<Rightarrow> grant_scope \<Rightarrow> data_scope \<Rightarrow> (unit, string) result" where
  "validate_artifact_grant_scope k scope data_scope =
     (if scope_provider scope \<noteq> artifacts_app_id then Ok ()
      else case data_scope of
        ScopeNone \<Rightarrow> Err ''Artifact permissions must allow selected artifacts or all current and future artifacts''
      | AllResources \<Rightarrow> Ok ()
      | Resources resource_ids \<Rightarrow>
          let artifact_ids = bs_of_list (map at_artifact_id (artifact_all (k_artifacts k)))
          in case List.find (\<lambda>i. \<not> bt_contains artifact_ids i) resource_ids of
               Some resource_id \<Rightarrow> Err (''unknown artifact '' @ quoted resource_id)
             | None \<Rightarrow> Ok ())"

section \<open>Tools and scopes\<close>

definition authorized_artifact_resource_ids :: "kernel \<Rightarrow> capability_authorization_view list \<Rightarrow> resource_id list" where
  "authorized_artifact_resource_ids k authorizations =
     (let existing = bs_of_list (map at_artifact_id (artifact_all (k_artifacts k)))
      in if list_ex (\<lambda>a. av_data_scope a = AllResources) authorizations then bs_elems existing
         else bs_elems (bs_of_list (filter (bt_contains existing)
           (concat (map (\<lambda>a. case av_data_scope a of Resources ids \<Rightarrow> ids | _ \<Rightarrow> []) authorizations)))))"

text \<open>Sets the \<open>enum\<close> of one property of an input schema that has it.\<close>

definition with_enum :: "string \<Rightarrow> resource_id list \<Rightarrow> json_object \<Rightarrow> json_object" where
  "with_enum property resource_ids input_schema =
     (case map_of input_schema ''properties'' of
        Some (JObject properties) \<Rightarrow>
          (case map_of properties property of
             Some (JObject schema) \<Rightarrow>
               obj_insert ''properties'' (JObject (obj_insert property
                 (JObject (obj_insert ''enum'' (JArray (map JString resource_ids)) schema)) properties)) input_schema
           | _ \<Rightarrow> input_schema)
      | _ \<Rightarrow> input_schema)"

definition contextualize_tools :: "kernel \<Rightarrow> capability_use_view list \<Rightarrow> capability_use_view list" where
  "contextualize_tools k available =
     List.map_filter (\<lambda>view.
       if uv_provider_app_id view \<noteq> artifacts_app_id then Some view
       else let resource_ids = authorized_artifact_resource_ids k (uv_authorizations view) in
         if resource_ids = [] then None
         else Some (if uv_capability view = artifacts_read then
             view\<lparr>uv_input_schema := with_enum ''artifact_id'' resource_ids (uv_input_schema view),
                  uv_description := ''Read one authorized artifact by exact id; call artifacts.query first to list ids''\<rparr>
           else view)) available"

definition artifact_invocation_data_scope ::
    "datetime \<Rightarrow> kernel \<Rightarrow> app_id \<Rightarrow> capability_ref \<Rightarrow> json_object \<Rightarrow> data_scope option" where
  "artifact_invocation_data_scope now k holder capability input =
     (if cr_provider capability \<noteq> artifacts_app_id then None
      else if cr_capability capability = artifacts_read then
        Some (case Option.bind (map_of input ''artifact_id'') as_str of
            Some artifact_id \<Rightarrow> Resources [artifact_id]
          | None \<Rightarrow> ScopeNone)
      else if cr_capability capability = artifacts_query then
        (let authorizations = map (\<lambda>grant. \<lparr>av_data_scope = gr_data_scope grant, av_condition = gr_condition grant\<rparr>)
               (filter (\<lambda>grant. scope_covers (gr_scope grant) capability) (grants_for now (k_broker k) holder))
         in Some (case ds_resources (authorized_artifact_resource_ids k authorizations) of
               Ok data_scope \<Rightarrow> data_scope
             | Err _ \<Rightarrow> ScopeNone))
      else Some ScopeNone)"

section \<open>Handlers\<close>

definition require_exact_artifact_scope :: "data_scope \<Rightarrow> (unit, string) result" where
  "require_exact_artifact_scope scope =
     (case scope of
        Resources resource_ids \<Rightarrow>
          if resource_ids \<noteq> [] then Ok () else Err ''artifact access requires exact artifact resource IDs''
      | _ \<Rightarrow> Err ''artifact access requires exact artifact resource IDs'')"

record artifact_query_request =
  aq_cursor :: "string option"
  aq_limit :: nat

definition artifacts_query_handler ::
    "externals \<Rightarrow> (json_object \<Rightarrow> (artifact_query_request, string) result)
      \<Rightarrow> (artifact_snapshot_page \<Rightarrow> (json, string) result)
      \<Rightarrow> json_object \<Rightarrow> invocation_context \<Rightarrow> (capability_outcome, string) result" where
  "artifacts_query_handler x parse_request to_value input context =
     bind_r (require_exact_artifact_scope (ic_authorized_data_scope context)) (\<lambda>_.
     bind_r (parse_request input) (\<lambda>request.
     if aq_limit request = 0 \<or> aq_limit request > 50 then Err ''limit out of bounds''
     else
     bind_r (map_err (x_error_text x) (snapshot_query (ic_artifacts context) (aq_cursor request) (aq_limit request))) (\<lambda>page.
     map_ok (\<lambda>json. \<lparr>oc_result = json, oc_artifacts = []\<rparr>) (to_value page))))"

text \<open>\<open>chars().count()\<close>: the bytes that do not continue a character.\<close>

definition chars_count :: "string \<Rightarrow> nat" where
  "chars_count s = length (filter (\<lambda>c. \<not> (128 \<le> (of_char c :: nat) \<and> (of_char c :: nat) < 192)) s)"

definition artifacts_read_handler ::
    "externals \<Rightarrow> (json_object \<Rightarrow> (artifact_id, string) result)
      \<Rightarrow> (artifact_snapshot \<Rightarrow> (json, string) result)
      \<Rightarrow> json_object \<Rightarrow> invocation_context \<Rightarrow> (capability_outcome, string) result" where
  "artifacts_read_handler x parse_request to_value input context =
     bind_r (require_exact_artifact_scope (ic_authorized_data_scope context)) (\<lambda>_.
     bind_r (parse_request input) (\<lambda>artifact_id.
     bind_r (map_err (x_error_text x) (snapshot_read x (ic_artifacts context) artifact_id)) (\<lambda>artifact.
     if chars_count (as_title artifact) > 256 then Err ''artifact title exceeds snapshot bound''
     else
     bind_r (x_json_bytes x (as_content artifact)) (\<lambda>content_bytes.
     if length content_bytes > max_artifact_content_bytes then Err ''artifact content exceeds snapshot bound''
     else map_ok (\<lambda>json. \<lparr>oc_result = json, oc_artifacts = []\<rparr>) (to_value artifact)))))"

section \<open>What is seen is granted\<close>

lemma ds_resources_single [simp]: "ds_resources [i] = Ok (Resources [i])"
  using bs_length_unique[of "[i]"] by (simp add: ds_resources_def ds_validate_def)

lemma target_scope_valid: "\<exists>data_scope. target_data_scope target = Ok data_scope"
  by (cases target) simp_all

lemma authorized_id:
  assumes "i \<in> set (authorized_artifact_resource_ids k authorizations)"
  shows "i \<in> at_artifact_id ` set (artifact_all (k_artifacts k)) \<and>
    (\<exists>a \<in> set authorizations. ds_covers (av_data_scope a) (Resources [i]))"
proof (cases "list_ex (\<lambda>a. av_data_scope a = AllResources) authorizations")
  case True
  then obtain a where "a \<in> set authorizations" "av_data_scope a = AllResources" by (auto simp: list_ex_iff)
  with True assms show ?thesis
    by (intro conjI bexI[of _ a]) (auto simp: authorized_artifact_resource_ids_def)
next
  case False
  with assms obtain a where "a \<in> set authorizations" "i \<in> set (case av_data_scope a of Resources ids \<Rightarrow> ids | _ \<Rightarrow> [])"
    "i \<in> at_artifact_id ` set (artifact_all (k_artifacts k))"
    by (auto simp: authorized_artifact_resource_ids_def)
  then show ?thesis by (intro conjI bexI[of _ a]) (cases "av_data_scope a"; simp)+
qed

lemma query_scope_is_granted:
  assumes "artifact_invocation_data_scope now k holder (CapabilityRef artifacts_app_id artifacts_query) input = Some (Resources ids)"
    "i \<in> set ids"
  shows "i \<in> at_artifact_id ` set (artifact_all (k_artifacts k)) \<and>
    (\<exists>grant \<in> set (grants_for now (k_broker k) holder).
       scope_covers (gr_scope grant) (CapabilityRef artifacts_app_id artifacts_query) \<and>
       ds_covers (gr_data_scope grant) (Resources [i]))"
proof -
  have ids: "ids = authorized_artifact_resource_ids k (map (\<lambda>grant. \<lparr>av_data_scope = gr_data_scope grant, av_condition = gr_condition grant\<rparr>)
      (filter (\<lambda>grant. scope_covers (gr_scope grant) (CapabilityRef artifacts_app_id artifacts_query)) (grants_for now (k_broker k) holder)))"
    using assms(1)
    by (auto simp: artifact_invocation_data_scope_def artifacts_query_def artifacts_read_def ds_resources_def Let_def
        bind_r_Ok_iff split: result.splits)
  show ?thesis using authorized_id[OF assms(2)[unfolded ids]] by auto
qed

end
