(* ===== verification/Tool_Mapping.thy ===== *)
theory Tool_Mapping
  imports File_Resources Artifacts_App
begin

text \<open>
  \<open>tool_mapping.rs\<close>: the names under which capabilities are offered to language models, and the tool
  definitions of the chat, in which inputs the host supplies itself are hidden from the model, and the
  data scope under which a tool call is made. A JSON object lists its members in the order of their
  keys, as \<open>serde_json::Map\<close> does.
\<close>

section \<open>Names\<close>

abbreviation max_tool_name_len :: nat where
  "max_tool_name_len \<equiv> 64"

definition trim_underscores :: "string \<Rightarrow> string" where
  "trim_underscores s = rev (dropWhile (\<lambda>c. c = CHR ''_'') (rev (dropWhile (\<lambda>c. c = CHR ''_'') s)))"

definition sanitize_char :: "char \<Rightarrow> string" where
  "sanitize_char ch =
     (if ch = CHR ''/'' then ''__''
      else if ch = CHR ''-'' \<or> ch = CHR ''.'' \<or> ch = CHR '' '' then ''_''
      else if ascii_alphanumeric ch \<or> ch = CHR ''_'' then [ch]
      else [])"

definition sanitize_tool_name :: "string \<Rightarrow> string" where
  "sanitize_tool_name raw =
     (let trimmed = trim_underscores (concat (map sanitize_char raw));
          capped = (if length trimmed > max_tool_name_len then trim_underscores (take max_tool_name_len trimmed) else trimmed)
      in if capped = [] then ''unknown_tool'' else capped)"

definition cap_ref_to_tool_name :: "capability_ref \<Rightarrow> string" where
  "cap_ref_to_tool_name cap_ref = sanitize_tool_name (cr_provider cap_ref @ ''/'' @ cr_capability cap_ref)"

definition u32_max :: nat where
  "u32_max = 4294967295"

definition suffixed :: "string \<Rightarrow> nat \<Rightarrow> string" where
  "suffixed base n =
     (let tag = ''_'' @ string_of_nat n in take (min (length base) (max_tool_name_len - length tag)) base @ tag)"

text \<open>The loop over the suffixes; \<open>None\<close> is the overflow of the \<open>u32\<close> counter.\<close>

function search_suffix :: "(string \<Rightarrow> bool) \<Rightarrow> string \<Rightarrow> nat \<Rightarrow> string option" where
  "search_suffix is_taken base n =
     (if \<not> is_taken (suffixed base n) then Some (suffixed base n)
      else if n \<ge> u32_max then None
      else search_suffix is_taken base (Suc n))"
  by auto
termination by (relation "measure (\<lambda>(_, _, n). u32_max - n)") auto

declare search_suffix.simps [simp del] string_of_nat.simps [simp del]

definition unique_tool_name :: "capability_ref \<Rightarrow> (string \<Rightarrow> bool) \<Rightarrow> string option" where
  "unique_tool_name cap_ref is_taken =
     (let base = cap_ref_to_tool_name cap_ref
      in if \<not> is_taken base then Some base else search_suffix is_taken base 2)"

section \<open>Tools of the chat\<close>

definition host_input_annotation :: string where
  "host_input_annotation = ''x-kestral-host-input''"

record tool_definition =
  tf_name :: string
  tf_description :: string
  tf_parameters :: json_object

record chat_tool_binding =
  cb_capability :: capability_ref
  cb_injected_input :: json_object

definition bind_arguments :: "chat_tool_binding \<Rightarrow> json_object \<Rightarrow> json_object" where
  "bind_arguments binding arguments =
     foldl (\<lambda>acc (name, v). obj_insert name v acc) arguments (cb_injected_input binding)"

definition constrain_tool_schema_to_grants :: "capability_ref \<Rightarrow> json_object \<Rightarrow> data_scope list \<Rightarrow> json_object" where
  "constrain_tool_schema_to_grants capability input_schema data_scopes =
     (if cr_provider capability \<noteq> file_broker_app_id then input_schema
      else with_enum ''resource_id''
        (remdups_adj (sort (concat (map (\<lambda>scope. case scope of Resources ids \<Rightarrow> ids | _ \<Rightarrow> []) data_scopes)))) input_schema)"

definition capability_view_to_tool_def_named :: "capability_use_view \<Rightarrow> string \<Rightarrow> tool_definition" where
  "capability_view_to_tool_def_named view name =
     \<lparr>tf_name = name, tf_description = ''['' @ uv_provider_display_name view @ ''] '' @ uv_description view,
      tf_parameters = constrain_tool_schema_to_grants (CapabilityRef (uv_provider_app_id view) (uv_capability view))
        (uv_input_schema view) (map av_data_scope (uv_authorizations view))\<rparr>"

definition host_bound_properties :: "json_object \<Rightarrow> (string \<times> json \<times> json) list" where
  "host_bound_properties parameters =
     (case map_of parameters ''properties'' of
        Some (JObject properties) \<Rightarrow>
          List.map_filter (\<lambda>(property, schema). map_option (\<lambda>source. (property, source, schema))
            (json_get host_input_annotation schema)) properties
      | _ \<Rightarrow> [])"

definition permissions_app_id :: app_id where
  "permissions_app_id = ''com.ma-zierl.host.permissions''"

definition host_input_value ::
    "(json \<Rightarrow> string) \<Rightarrow> capability_use_view \<Rightarrow> json_object \<Rightarrow> string option \<Rightarrow> string \<times> json \<times> json
      \<Rightarrow> (json option, string) result" where
  "host_input_value show_json view parameters current_chat_thread_id annotated =
     (case annotated of (property, source, schema) \<Rightarrow>
      let capability = ''capability '' @ uv_provider_app_id view @ ''/'' @ uv_capability view;
          constant = (case json_get ''const'' schema of
              Some v \<Rightarrow> Ok (Some v)
            | None \<Rightarrow> Err (capability @ '' host-bound property '' @ quoted property @ '' must declare const''));
          reserved = Err (capability @ '' cannot use reserved host input '' @ quoted (show_json source))
      in if \<not> (case map_of parameters ''required'' of
                  Some (JArray required) \<Rightarrow> list_ex (\<lambda>name. as_str name = Some property) required
                | _ \<Rightarrow> False) then
           Err (capability @ '' host-bound property '' @ quoted property @ '' must be required'')
         else case as_str source of
           None \<Rightarrow> Err (capability @ '' property '' @ quoted property @ '' has unsupported '' @ host_input_annotation)
         | Some s \<Rightarrow>
             if s = ''current-chat-thread-id'' then
               (if get_str ''type'' schema \<noteq> Some ''string'' then
                  Err (capability @ '' host-bound property '' @ quoted property @ '' must have type string'')
                else Ok (case current_chat_thread_id of
                    Some thread_id \<Rightarrow> if thread_id = [] then None else Some (JString thread_id)
                  | None \<Rightarrow> None))
             else if s = ''active-permissions'' then
               (if uv_provider_app_id view \<noteq> permissions_app_id \<or> uv_capability view \<noteq> ''permissions.list_active''
                then reserved else constant)
             else if s = ''requestable-permissions'' then
               (if uv_provider_app_id view \<noteq> permissions_app_id \<or>
                   uv_capability view \<noteq> ''permissions.list_requestable'' \<and> uv_capability view \<noteq> ''permissions.propose_grant''
                then reserved else constant)
             else Err (capability @ '' property '' @ quoted property @ '' has unsupported '' @ host_input_annotation))"

text \<open>The loop over the annotated properties: an error, a tool that is not offered, or the inputs to inject.\<close>

fun inject_inputs ::
    "(json \<Rightarrow> string) \<Rightarrow> capability_use_view \<Rightarrow> json_object \<Rightarrow> string option \<Rightarrow> (string \<times> json \<times> json) list \<Rightarrow> json_object
      \<Rightarrow> (json_object option, string) result" where
  "inject_inputs show_json view parameters thread_id [] injected = Ok (Some injected)"
| "inject_inputs show_json view parameters thread_id (annotated # rest) injected =
     bind_r (host_input_value show_json view parameters thread_id annotated) (\<lambda>v.
       case v of
         None \<Rightarrow> Ok None
       | Some v \<Rightarrow> inject_inputs show_json view parameters thread_id rest (obj_insert (fst annotated) v injected))"

definition hide_properties :: "string list \<Rightarrow> json_object \<Rightarrow> json_object" where
  "hide_properties hidden parameters =
     (let parameters = (case map_of parameters ''properties'' of
            Some (JObject properties) \<Rightarrow>
              obj_insert ''properties'' (JObject (foldl (\<lambda>acc name. obj_remove name acc) properties hidden)) parameters
          | _ \<Rightarrow> parameters)
      in case map_of parameters ''required'' of
           Some (JArray required) \<Rightarrow>
             obj_insert ''required'' (JArray (filter (\<lambda>name. \<not> list_ex (\<lambda>property. as_str name = Some property) hidden) required)) parameters
         | _ \<Rightarrow> parameters)"

definition capability_view_to_chat_tool ::
    "(json \<Rightarrow> string) \<Rightarrow> capability_use_view \<Rightarrow> string \<Rightarrow> string option
      \<Rightarrow> ((tool_definition \<times> chat_tool_binding) option, string) result" where
  "capability_view_to_chat_tool show_json view name current_chat_thread_id =
     (let tool = capability_view_to_tool_def_named view name;
          annotated = host_bound_properties (tf_parameters tool) in
      bind_r (inject_inputs show_json view (tf_parameters tool) current_chat_thread_id annotated []) (\<lambda>injected.
      Ok (map_option (\<lambda>injected_input.
        (if annotated = [] then tool else tool\<lparr>tf_parameters := hide_properties (map fst annotated) (tf_parameters tool)\<rparr>,
         \<lparr>cb_capability = CapabilityRef (uv_provider_app_id view) (uv_capability view), cb_injected_input = injected_input\<rparr>))
        injected)))"

section \<open>The data scope of a tool call\<close>

definition managed_resource_id :: "app_id \<Rightarrow> string \<Rightarrow> resource_id" where
  "managed_resource_id app_id collection = ''app-data:'' @ app_id @ '':'' @ collection"

definition record_resource_id :: "app_id \<Rightarrow> string \<Rightarrow> string \<Rightarrow> resource_id" where
  "record_resource_id app_id collection i = ''app-data:'' @ app_id @ '':'' @ collection @ '':record:'' @ i"

definition document_resource_id :: "app_id \<Rightarrow> string \<Rightarrow> string \<Rightarrow> resource_id" where
  "document_resource_id app_id collection i = ''app-data:'' @ app_id @ '':'' @ collection @ '':document:'' @ i"

definition scope_annotation_of :: "json_object \<Rightarrow> (string \<times> json) option" where
  "scope_annotation_of properties =
     (case List.map_filter (\<lambda>(field, schema).
          case json_get ''x-kestral-managed-data-scope'' schema of
            Some (JObject annotation) \<Rightarrow> Some (field, JObject annotation)
          | _ \<Rightarrow> None) properties of
        [] \<Rightarrow> None
      | found # _ \<Rightarrow> Some found)"

definition managed_data_invocation_data_scope :: "kernel \<Rightarrow> capability_ref \<Rightarrow> json_object \<Rightarrow> data_scope option" where
  "managed_data_invocation_data_scope k capability input =
     (case registry_app (k_registry k) (cr_provider capability) of
        Err _ \<Rightarrow> None
      | Ok app \<Rightarrow>
          Option.bind (List.find (\<lambda>declaration. cd_name declaration = cr_capability capability)
            (mf_capabilities (ia_manifest app))) (\<lambda>declaration.
          case map_of (cd_input_schema declaration) ''x-kestral-managed-data-export'' of
            Some annotation \<Rightarrow>
              Some (case get_str ''collection'' annotation of
                  None \<Rightarrow> ScopeNone
                | Some collection \<Rightarrow> Resources [managed_resource_id (cr_provider capability) collection])
          | None \<Rightarrow>
              if map_of (cd_input_schema declaration) ''x-kestral-managed-data-proposal'' \<noteq> Some (JBool True) then None
              else
                Option.bind (Option.bind (map_of (cd_input_schema declaration) ''properties'') as_object) (\<lambda>properties.
                Option.bind (scope_annotation_of properties) (\<lambda>(field, annotation).
                Option.bind (get_str ''kind'' annotation) (\<lambda>kind.
                Option.bind (get_str ''collection'' annotation) (\<lambda>collection.
                Option.bind (
                  if kind = ''collection'' \<and> field = ''targetGeneration'' then
                    Some (managed_resource_id (cr_provider capability) collection)
                  else if kind = ''record'' \<and> field = ''targetId'' then
                    map_option (record_resource_id (cr_provider capability) collection) (Option.bind (map_of input field) as_str)
                  else if kind = ''document'' \<and> field = ''targetId'' then
                    map_option (document_resource_id (cr_provider capability) collection) (Option.bind (map_of input field) as_str)
                  else None) (\<lambda>resource.
                case ds_resources [resource] of Ok data_scope \<Rightarrow> Some data_scope | Err _ \<Rightarrow> None)))))))"

definition tool_invocation_data_scope :: "datetime \<Rightarrow> kernel \<Rightarrow> app_id \<Rightarrow> capability_ref \<Rightarrow> json_object \<Rightarrow> data_scope" where
  "tool_invocation_data_scope now k holder capability input =
     (case managed_data_invocation_data_scope k capability input of
        Some data_scope \<Rightarrow> data_scope
      | None \<Rightarrow>
          (case artifact_invocation_data_scope now k holder capability input of
             Some data_scope \<Rightarrow> data_scope
           | None \<Rightarrow> invocation_data_scope capability input))"

section \<open>Names are valid and free\<close>

definition tool_char :: "char \<Rightarrow> bool" where
  "tool_char c = (ascii_alphanumeric c \<or> c = CHR ''_'')"

lemma set_trim_underscores: "set (trim_underscores s) \<subseteq> set s"
  using set_mono_suffix[OF suffix_dropWhile[of _ "rev (dropWhile (\<lambda>c. c = CHR ''_'') s)"]]
    set_mono_suffix[OF suffix_dropWhile[of _ s]]
  by (fastforce simp: trim_underscores_def)

lemma length_trim_underscores: "length (trim_underscores s) \<le> length s"
  using length_dropWhile_le[of _ "rev (dropWhile (\<lambda>c. c = CHR ''_'') s)"] length_dropWhile_le[of _ s]
  by (simp add: trim_underscores_def) (meson le_trans)

lemma kept_chars: "c \<in> set (concat (map sanitize_char raw)) \<Longrightarrow> tool_char c"
  by (auto simp: sanitize_char_def tool_char_def split: if_splits)

lemma unknown_tool_chars: "\<forall>c \<in> set ''unknown_tool''. tool_char c"
  by (simp add: tool_char_def ascii_alphanumeric_def ascii_lower_def byte_of_def)

lemma sanitized_chars: "\<forall>c \<in> set (sanitize_tool_name raw). tool_char c"
proof -
  define kept where "kept = concat (map sanitize_char raw)"
  have kept: "\<forall>c \<in> set kept. tool_char c" using kept_chars by (simp only: kept_def) blast
  have trimmed: "\<forall>c \<in> set (trim_underscores s). tool_char c" if "\<forall>c \<in> set s. tool_char c" for s
    using that set_trim_underscores by blast
  have "\<forall>c \<in> set (take max_tool_name_len (trim_underscores kept)). tool_char c"
    using trimmed[OF kept] by (meson in_set_takeD)
  from trimmed[OF this] trimmed[OF kept] unknown_tool_chars show ?thesis
    unfolding sanitize_tool_name_def Let_def kept_def[symmetric] by (simp only: split: if_split) blast
qed

lemma sanitized_length: "sanitize_tool_name raw \<noteq> []" "length (sanitize_tool_name raw) \<le> max_tool_name_len"
  using length_trim_underscores[of "take max_tool_name_len (trim_underscores (concat (map sanitize_char raw)))"]
  by (auto simp: sanitize_tool_name_def Let_def)

lemma length_string_of_nat: "n < 10 ^ Suc k \<Longrightarrow> length (string_of_nat n) \<le> Suc k"
proof (induction k arbitrary: n)
  case 0
  then show ?case by (subst string_of_nat.simps) simp
next
  case (Suc k)
  then have "n div 10 < 10 ^ Suc k" by (simp add: div_less_iff_less_mult mult.commute)
  from Suc.IH[OF this] show ?case by (subst string_of_nat.simps) simp
qed

lemma digits_are_tool_chars: "\<forall>c \<in> set (string_of_nat n). tool_char c \<and> c \<noteq> CHR ''_''"
  using string_of_nat_digits[of n]
  by (auto simp: list_all_iff tool_char_def is_digit_def ascii_alphanumeric_def ascii_digit_def byte_of_def)

lemma string_of_nat_inj: "inj string_of_nat"
  by (rule inj_on_inverseI[where g = "foldl (\<lambda>m c. m * 10 + (of_char c - 48)) 0"])
    (rule string_of_nat_digits[THEN conjunct2, THEN conjunct2])

lemma suffixed_inject: "suffixed base m = suffixed base n \<longleftrightarrow> m = n"
proof
  have tail: "rev (takeWhile (\<lambda>c. c \<noteq> CHR ''_'') (rev (suffixed base k))) = string_of_nat k" for k
    using digits_are_tool_chars[of k] by (simp add: suffixed_def Let_def takeWhile_append)
  assume "suffixed base m = suffixed base n"
  then have "string_of_nat m = string_of_nat n" using tail[of m] tail[of n] by (simp only:)
  then show "m = n" by (rule injD[OF string_of_nat_inj])
qed simp

lemma suffixed_valid:
  assumes "n \<le> u32_max" "\<forall>c \<in> set base. tool_char c"
  shows "suffixed base n \<noteq> []" "length (suffixed base n) \<le> max_tool_name_len" "\<forall>c \<in> set (suffixed base n). tool_char c"
proof -
  have "length (string_of_nat n) \<le> Suc 9" by (rule length_string_of_nat) (use assms(1) in \<open>simp add: u32_max_def\<close>)
  then show "length (suffixed base n) \<le> max_tool_name_len" by (simp add: suffixed_def Let_def)
  show "\<forall>c \<in> set (suffixed base n). tool_char c"
    using assms(2) digits_are_tool_chars[of n] by (auto simp: suffixed_def Let_def tool_char_def dest: in_set_takeD)
qed (simp add: suffixed_def Let_def)

lemma search_suffix_finds:
  "\<lbrakk>n \<le> m; m \<le> u32_max; \<not> is_taken (suffixed base m)\<rbrakk> \<Longrightarrow>
     \<exists>i \<le> u32_max. search_suffix is_taken base n = Some (suffixed base i) \<and> \<not> is_taken (suffixed base i)"
proof (induction is_taken base n rule: search_suffix.induct)
  case (1 is_taken base n)
  show ?case
  proof (cases "is_taken (suffixed base n)")
    case True
    then have "n < m" using "1.prems" by (metis order_le_less)
    then show ?thesis using 1 True by (subst search_suffix.simps) auto
  next
    case False
    then have "search_suffix is_taken base n = Some (suffixed base n)" by (subst search_suffix.simps) simp
    then show ?thesis using False "1.prems" by (intro exI[of _ n]) simp
  qed
qed

lemma free_suffix:
  assumes "finite {s. is_taken s}" "card {s. is_taken s} < 2 ^ 32 - 2"
  shows "\<exists>m. 2 \<le> m \<and> m \<le> u32_max \<and> \<not> is_taken (suffixed base m)"
proof (rule ccontr)
  assume "\<nexists>m. 2 \<le> m \<and> m \<le> u32_max \<and> \<not> is_taken (suffixed base m)"
  then have "suffixed base ` {2..u32_max} \<subseteq> {s. is_taken s}" by auto
  moreover have "card (suffixed base ` {2..u32_max}) = u32_max - 1"
    by (subst card_image) (auto simp: inj_on_def suffixed_inject)
  ultimately have "u32_max - 1 \<le> card {s. is_taken s}" using card_mono[OF assms(1)] by metis
  then show False using assms(2) by (simp add: u32_max_def)
qed

text \<open>
  C37: A capability always gets a tool name the providers accept (1 to 64 letters, digits and underscores)
  that no tool already has, as long as fewer than \<open>2 ^ 32 - 2\<close> names are taken: the search for a suffix
  ends before its counter overflows.
\<close>
theorem unique_tool_name_is_free:
  assumes "finite {s. is_taken s}" "card {s. is_taken s} < 2 ^ 32 - 2"
  shows "\<exists>name. unique_tool_name cap_ref is_taken = Some name \<and> \<not> is_taken name \<and>
     1 \<le> length name \<and> length name \<le> 64 \<and> list_all (\<lambda>c. ascii_alphanumeric c \<or> c = CHR ''_'') name"
proof (cases "is_taken (cap_ref_to_tool_name cap_ref)")
  case False
  then show ?thesis
    using sanitized_length sanitized_chars
    by (simp add: unique_tool_name_def cap_ref_to_tool_name_def list_all_iff tool_char_def Suc_le_eq)
next
  case True
  let ?base = "cap_ref_to_tool_name cap_ref"
  obtain i where i: "i \<le> u32_max" "search_suffix is_taken ?base 2 = Some (suffixed ?base i)" "\<not> is_taken (suffixed ?base i)"
    using free_suffix[OF assms] search_suffix_finds by metis
  have "\<forall>c \<in> set ?base. tool_char c" by (simp add: cap_ref_to_tool_name_def sanitized_chars)
  from suffixed_valid[OF i(1) this] i True show ?thesis
    by (simp add: unique_tool_name_def list_all_iff tool_char_def Suc_le_eq)
qed

theorem unique_tool_name_is_free_witness:
  "unique_tool_name (CapabilityRef ''mcp-weather'' ''get'') (\<lambda>s. s = ''mcp_weather__get'') = Some ''mcp_weather__get_2'' \<and>
   (\<exists>name. unique_tool_name (CapabilityRef ''mcp-weather'' ''get'') (\<lambda>s. s = ''mcp_weather__get'') = Some name \<and>
     name \<noteq> ''mcp_weather__get'' \<and> 1 \<le> length name \<and> length name \<le> 64 \<and>
     list_all (\<lambda>c. ascii_alphanumeric c \<or> c = CHR ''_'') name)"
proof
  show "unique_tool_name (CapabilityRef ''mcp-weather'' ''get'') (\<lambda>s. s = ''mcp_weather__get'') = Some ''mcp_weather__get_2''"
    by code_simp
qed (use unique_tool_name_is_free[of "\<lambda>s. s = ''mcp_weather__get''"] in simp)

section \<open>Inputs the host supplies\<close>

lemma obj_insert_keys: "fst ` set (obj_insert key v members) = insert key (fst ` set members)"
  by (induction key v members rule: obj_insert.induct) (simp_all add: insert_commute)

lemma obj_insert_sorted: "sorted_wrt (<) (map fst members) \<Longrightarrow> sorted_wrt (<) (map fst (obj_insert key v members))"
proof (induction key v members rule: obj_insert.induct)
  case (2 key v k w members)
  consider "key < k" | "key = k" | "k < key" by force
  then show ?case
  proof cases
    case 1
    then show ?thesis using 2 by (auto dest: less_trans)
  next
    case 3
    then have "\<forall>y \<in> fst ` set (obj_insert key v members). k < y" using 2 by (simp add: obj_insert_keys)
    then show ?thesis using 2 3 by (auto dest: less_asym)
  qed (use 2 in simp)
qed simp

lemma map_of_bind_arguments:
  assumes "distinct (map fst (cb_injected_input binding))"
  shows "map_of (bind_arguments binding arguments) = map_of arguments ++ map_of (cb_injected_input binding)"
proof -
  have insert: "map_of (obj_insert name v args) = (map_of args)(name \<mapsto> v)" for name v args by (rule ext) simp
  have "map_of (foldl (\<lambda>acc (name, v). obj_insert name v acc) args injected) = map_of args ++ map_of injected"
    if "distinct (map fst injected)" for injected args
    using that
    by (induction injected arbitrary: args) (auto simp: insert map_add_upd_left dom_map_of_conv_image_fst simp del: map_of_obj_insert)
  then show ?thesis using assms by (simp add: bind_arguments_def)
qed

lemma inject_inputs_sorted:
  "\<lbrakk>inject_inputs sj view parameters tid annotated injected = Ok (Some result); sorted_wrt (<) (map fst injected)\<rbrakk>
     \<Longrightarrow> sorted_wrt (<) (map fst result)"
  by (induction annotated arbitrary: injected)
    (auto simp: bind_r_Ok_iff simp del: sorted_wrt.simps intro: obj_insert_sorted split: option.splits)

lemma inject_inputs_keeps:
  "\<lbrakk>inject_inputs sj view parameters tid annotated injected = Ok (Some result); p \<notin> fst ` set annotated\<rbrakk>
     \<Longrightarrow> map_of result p = map_of injected p"
  by (induction annotated arbitrary: injected) (auto simp: bind_r_Ok_iff split: option.splits)

lemma inject_inputs_value:
  "\<lbrakk>inject_inputs sj view parameters tid annotated injected = Ok (Some result); distinct (map fst annotated); a \<in> set annotated\<rbrakk>
     \<Longrightarrow> \<exists>v. host_input_value sj view parameters tid a = Ok (Some v) \<and> map_of result (fst a) = Some v"
proof (induction annotated arbitrary: injected)
  case (Cons b annotated)
  from Cons.prems(1) obtain v where v: "host_input_value sj view parameters tid b = Ok (Some v)"
    "inject_inputs sj view parameters tid annotated (obj_insert (fst b) v injected) = Ok (Some result)"
    by (auto simp: bind_r_Ok_iff split: option.splits)
  show ?case
  proof (cases "a = b")
    case True
    then show ?thesis using v inject_inputs_keeps[OF v(2), of "fst b"] Cons.prems(2) by simp
  next
    case False
    then show ?thesis using Cons.IH[OF v(2)] Cons.prems by simp
  qed
qed simp

lemma host_input_value_source:
  assumes "host_input_value sj view parameters tid (property, source, schema) = Ok (Some v)"
  shows "if source = JString ''current-chat-thread-id'' then \<exists>t. tid = Some t \<and> t \<noteq> [] \<and> v = JString t
    else json_get ''const'' schema = Some v \<and> uv_provider_app_id view = permissions_app_id"
proof -
  obtain s where s: "source = JString s" using assms by (cases source) (auto simp: host_input_value_def Let_def split: if_splits)
  show ?thesis using assms unfolding host_input_value_def s Let_def
    by (auto split: if_splits option.splits)
qed

lemma hidden_removed:
  assumes "p \<in> set hidden" "map_of (hide_properties hidden parameters) ''properties'' = Some (JObject properties)"
  shows "map_of properties p = None"
proof -
  have removed: "p \<in> set hidden \<or> map_of members p = None \<Longrightarrow> map_of (foldl (\<lambda>acc name. obj_remove name acc) members hidden) p = None" for members
    by (induction hidden arbitrary: members) auto
  from assms(2) have "\<exists>members. map_of parameters ''properties'' = Some (JObject members) \<and>
      properties = foldl (\<lambda>acc name. obj_remove name acc) members hidden"
    unfolding hide_properties_def Let_def by (auto split: option.splits json.splits if_splits)
  with removed assms(1) show ?thesis by auto
qed


definition sample_view :: capability_use_view where
  "sample_view = \<lparr>uv_provider_app_id = ''notes'', uv_provider_display_name = ''Notes'', uv_capability = ''add'',
     uv_description = ''Add a note'',
     uv_input_schema =
       [(''properties'', JObject [(''text'', JObject [(''type'', JString ''string'')]),
          (''thread'', JObject [(''type'', JString ''string''), (host_input_annotation, JString ''current-chat-thread-id'')])]),
        (''required'', JArray [JString ''text'', JString ''thread''])],
     uv_authorizations = []\<rparr>"


end
