(* ===== verification/Host_Properties.thy ===== *)
theory Host_Properties
  imports Kernel_Scenario Host_Kernel_Store Mcp_Bridge Remote_Auth Publisher_Trust Surface_State Tool_Mapping
begin

text \<open>Properties of the host and the adapter at concrete kernels.\<close>

definition scene_kernel :: kernel where
  "scene_kernel = with_clock scene_chrome (\<lambda>_. False) 1"

theorem bridged_server_is_installable_witness:
  "\<exists>plan. prepare_install scene_externals (scene_env 1 ''u'') scene_kernel
      (manifest_for_mcp_server scene_externals ''srv'' ''Server'' ''1'' [] sample_tools)
      (handlers_for_mcp_server (\<lambda>_. False) (\<lambda>_ _ _. Ok JNull) sample_tools) = Ok plan \<and> pl_mode plan = Fresh"
proof -
  have "fst (list_tools sample_mcp_externals (counting sample_server) ((), 0)) = Ok sample_tools"
    by (simp add: sample_server_tools)
  moreover have "x_schema_error scene_externals = mx_schema_error sample_mcp_externals"
    "x_schema_error scene_externals result_card_schema = None"
    by (simp_all add: scene_externals_def sample_externals_def sample_mcp_externals_def)
  moreover have "bt_get (rg_apps (k_registry scene_kernel)) ''srv'' = None"
    by (simp add: scene_kernel_def with_clock_def registry_new_def)
  ultimately show ?thesis
    using bridged_server_is_installable[of sample_mcp_externals "counting sample_server" "((), 0)" sample_tools scene_externals
        "''srv''" "''1''" "''Server''" scene_kernel "scene_env 1 ''u''" "[]" "\<lambda>_. False" "\<lambda>_ _ _. Ok JNull"]
    by auto
qed

theorem file_store_implements_port_witness:
  "\<exists>content'. k_store (snd (commit_parts (file_env sample_codec (sample_io\<lparr>io_sync := Some ''lost''\<rparr>) None [''k''] empty_disk (scene_env 1 ''u1''))
       registry_new ledger_new broker_new artifact_store_new ((with_clock scene_chrome (\<lambda>_. False) 1)\<lparr>k_store := Some None\<rparr>))) = Some content' \<and>
     fst (store_load sample_codec sample_io [''k''] (snd (store_commit sample_codec (sample_io\<lparr>io_sync := Some ''lost''\<rparr>) None [''k'']
       durable_empty empty_disk))) = Ok content'"
proof -
  have holds: "file_holds sample_codec [''k''] empty_disk None" by (simp add: file_holds_def empty_disk_def file_at_def)
  have quiet: "quiet_io sample_io" by (simp add: quiet_io_def sample_io_def)
  have k: "k_store ((with_clock scene_chrome (\<lambda>_. False) 1)\<lparr>k_store := Some None\<rparr>) = Some None"
      "\<not> k_recovery_required ((with_clock scene_chrome (\<lambda>_. False) 1)\<lparr>k_store := Some None\<rparr>)"
    by (simp_all add: with_clock_def)
  note file_store_implements_port[OF holds _ k sample_codec_ok[folded sample_parts] prod.collapse[symmetric]
      prod.collapse[symmetric] quiet, unfolded sample_parts]
  then show ?thesis by blast
qed

end
