(* ===== verification/Spec2Isabelle.thy ===== *)
theory Spec2Isabelle
  imports Kernel_Properties Host_Properties
begin

text \<open>
  Kestral is a host for apps. Its kernel (\<open>crates/kernel\<close>) owns authority and history: which
  apps are installed, which capabilities they may use under which grants, which runs they
  started, and what happened in each run. The host around it asks the user, stores the state
  and runs the code of the apps.

  \<^bold>\<open>Parts and theories.\<close>

  \<^item> \<open>Kestral_Prelude\<close>: the result type, fallible folds, operations on a state with an error
    result (\<open>bind_s\<close>, \<open>ret\<close>, \<open>fail\<close>) and a weakest-precondition calculus \<open>wp\<close> for them.
    \<open>BTree_Map\<close>: the ordered maps and sets of the Rust library as an abstract type, with the
    interface of a keyed table as a locale that every service interprets.
  \<^item> \<open>Primitives\<close>, \<open>Manifest\<close>: \<open>ids.rs\<close>, \<open>errors.rs\<close>, \<open>primitives/*.rs\<close>, \<open>manifest.rs\<close>,
    \<open>schema.rs\<close>. JSON serialization, SHA-256, JSON Schema and error texts are fields of the
    record \<open>externals\<close>.
  \<^item> The services (\<open>services/*.rs\<close>): \<open>Ledger\<close>, \<open>Ledger_Index\<close>, \<open>Ledger_Replay\<close>, \<open>Registry\<close>,
    \<open>Chrome\<close>, \<open>Broker\<close>, \<open>Artifacts\<close>, \<open>Surfaces\<close>, \<open>Router\<close>, each with its record, operations,
    invariant and the round trip of its durable form.
  \<^item> \<open>Invocation\<close>: \<open>invocation.rs\<close>, the boundary to the handlers: cancellation, progress,
    execution. A handler is a function from input and context to its outcome and whether it
    cancelled its own invocation.
  \<^item> The kernel (\<open>kernel.rs\<close>, \<open>durable.rs\<close>, \<open>clock.rs\<close>): \<open>Kernel_State\<close> (state, commit, record),
    \<open>Kernel_Runs\<close>, \<open>Kernel_Grants\<close>, \<open>Kernel_Install\<close>, \<open>Kernel_Invoke\<close>, \<open>Kernel_Recovery\<close>.
    Every public operation that changes state is one definition; the readings of the clocks, the
    new UUIDs and the answers of the store are the fields of the record \<open>env\<close>.
  \<^item> The adapter to MCP servers (\<open>crates/mcp-adapter\<close>): \<open>Mcp_Wire\<close> (\<open>errors.rs\<close>, the bounded readers of
    \<open>transport.rs\<close> and \<open>http.rs\<close>, the vocabulary of \<open>protocol.rs\<close>), \<open>Mcp_Client\<close> (\<open>client.rs\<close>) and
    \<open>Mcp_Bridge\<close> (\<open>bridge.rs\<close>, which makes an app of a server). A transport is a record of its operations.
  \<^item> The host (\<open>host/src-tauri/src\<close>): \<open>Host_Files\<close> (\<open>atomic_json.rs\<close>) writes documents on a disk whose
    refusals are the fields of the record \<open>io\<close>; on it stand \<open>Host_Kernel_Store\<close> (\<open>kernel_state.rs\<close>,
    the store behind the kernel), \<open>Remote_Auth\<close> (\<open>remote_auth.rs\<close>), \<open>Publisher_Trust\<close>
    (\<open>publisher_trust.rs\<close>) and \<open>Surface_State\<close> (\<open>surface_state.rs\<close>). \<open>File_Resources\<close>
    (\<open>file_resources.rs\<close>) is the broker of the user's files, over a file tree with links.
    \<open>Artifacts_App\<close> (\<open>artifacts_app.rs\<close>) and \<open>Tool_Mapping\<close> (\<open>tool_mapping.rs\<close>) offer capabilities
    of the kernel to apps and language models. \<open>Host_Prelude\<close> has the text functions they share.

  \<^bold>\<open>What is shown.\<close>

  \<^item> \<open>Kernel_Inv\<close>, \<open>Kernel_Keeps\<close>, \<open>Kernel_Keeps_Invoke\<close>, \<open>Kernel_Keeps_Install\<close>,
    \<open>Kernel_Restart\<close>: one invariant ties the services, the tables of the kernel and the store
    together; every operation keeps it, on success and on every error, and none panics.
  \<^item> \<open>Kernel_Evolves\<close>, \<open>Kernel_System\<close>: the kernel with the tokens its callers hold, as a step
    relation in which any operation may come next. Its invariant says what a token is worth; the
    main theorem is that no handler runs without an active run, unrevoked authority that covers
    the request, the approval the grant asks for, and time left.
  \<^item> \<open>Kernel_Operations\<close>, \<open>Kernel_Properties\<close>: failure atomicity, fail-stop after an unknown
    write, validity at authorization and completion, single use of tokens, and what installing,
    upgrading, uninstalling and restarting do to authority. \<open>Kernel_Scenario\<close> evaluates a history
    from an empty store to a completed invocation, with side branches; it is the witness.
  \<^item> Two branches of that history show committed states that the next start refuses.
  \<^item> Documents: a write is atomic up to a failed directory sync, which is reported as unknown, and
    the store on such documents implements the port the kernel was verified against.
  \<^item> Owners and publishers: only issued and unexpired sessions are accepted, a pairing code admits
    once, tables stay bounded, and a revoked publisher key stays blocked for its scope.
  \<^item> Files: whatever the request, the links in the folder and the answers of the operating system,
    the broker reads and changes only what was shared and authorized. One sequence of refused
    renames, however, destroys the old content of a file whose replacement failed.
  \<^item> Tools: a model neither sees nor overrides an input of the host, and every capability gets a
    free and valid name. A bridged MCP server is installable and its discovery bounded. Writes of
    surface state lose no update.

  \<^bold>\<open>Assumptions and bounds.\<close> One operation reads each clock once, where the code may read it
  several times. The steps of the system assume that the monotonic clock does not go back, that a
  new UUID is not the id of a known grant, and that the 64-bit counter of invocations has not
  wrapped. Most recursion is structural or over finite lists. Resolving links counts down the 40 links
  the operating system follows, listing tools the pages the client accepts, and the search for a
  tool name the 32-bit suffix; beyond them the code fails as the model does. Instants and
  durations are unbounded integers where the code adds with an overflow check, and the check is
  kept as a branch. A poisoned lock and an out-of-memory condition are not modelled. Cryptography,
  WebAuthn, \<open>serde\<close>, URL parsing and randomness are parameters; what a theorem needs of them (a
  document reads back as it was written) is a hypothesis of its own.

  \<^bold>\<open>Not modelled.\<close> The advisory locks of \<open>kernel_state.rs\<close>; in \<open>file_resources.rs\<close> the manifest and
  schema literals, the views of the registry, \<open>reconcile_with_kernel\<close> and the check of file identity
  against changes between two system calls; \<open>validate_all\<close> of \<open>surface_state.rs\<close>; of \<open>package.rs\<close> and
  \<open>managed_data.rs\<close> all but the ids other parts use. Processes, sockets and HTTP (\<open>stdio.rs\<close>,
  \<open>http.rs\<close>, \<open>remote_api.rs\<close>, \<open>mcp_gateway.rs\<close>, \<open>node_worker.rs\<close>), archives, git and migration of
  directories, the chat with language models, the windows and commands of the shell, and the
  TypeScript user interface are input and output around the modelled parts.
\<close>

end
